theory Spec2Isabelle
  imports Complex_Main
begin

section \<open>JavaScript values\<close>

text \<open>
  The manifest aggregator (\<^verbatim>\<open>src/services/apiService.ts\<close>) and the chart pipeline
  (\<^verbatim>\<open>src/components/Modal.tsx\<close>) work on untyped values that come out of
  \<^verbatim>\<open>JSON.parse\<close>. A value is undefined, null, a boolean, a number, a string, an array
  or a plain object. Numbers are exact rationals (no rounding, no overflow). Arrays and
  objects carry the address they were allocated at: the language compares them by
  identity, not by content. An object lists its own properties in enumeration order.
\<close>

datatype jsval =
    JUndefined
  | JNull
  | JBool bool
  | JNum rat
  | JStr string
  | JArr nat "jsval list"
  | JObj nat "(string \<times> jsval) list"

text \<open>The result of the coercion \<^verbatim>\<open>Number(v)\<close>, which may be not-a-number or infinite.\<close>

datatype jsnum = Fin rat | NaN | PosInf | NegInf

text \<open>The exceptions the modelled code can raise.\<close>

datatype error = TypeError | RangeError

text \<open>
  Reading a property follows the prototype chain, so it can reach what no parsed
  document holds: a function or object of the language itself. The prototypes that
  parsed values and object literals inherit from are those of the five kinds of value
  that have properties.
\<close>

datatype proto = ObjectProto | ArrayProto | StringProto | NumberProto | BooleanProto

text \<open>
  A built-in: the function that is the member \<open>k\<close> of a prototype \<open>p\<close> (so
  \<open>Member ObjectProto ''constructor''\<close> is the function \<^verbatim>\<open>Object\<close>, and
  \<open>Member NumberProto ''toFixed''\<close> is \<^verbatim>\<open>Number.prototype.toFixed\<close>), a prototype object
  itself, or any other function or object of the host, under a number that the host
  gives it.
\<close>

datatype builtin = Member proto string | Prototype proto | HostObject nat

text \<open>What an expression of the chart pipeline can evaluate to.\<close>

datatype jsany = Val jsval | Native builtin

text \<open>
  The built-ins of the language are parameters of the model: \<^verbatim>\<open>Number(s)\<close> on a
  string and \<^verbatim>\<open>String(n)\<close> on a number; the names of the methods of
  \<^verbatim>\<open>Array.prototype\<close>, \<^verbatim>\<open>String.prototype\<close>, \<^verbatim>\<open>Number.prototype\<close> and
  \<^verbatim>\<open>Boolean.prototype\<close>, which grow with the versions of the language (those of
  \<^verbatim>\<open>Object.prototype\<close> are fixed below); and, of a built-in function or object, its
  property \<open>k\<close>, whether its \<^verbatim>\<open>typeof\<close> is \<^verbatim>\<open>'object'\<close>, and its conversions to a
  string and to a number. A getter or a conversion of a built-in may throw.
\<close>

record host =
  Number_str :: "string \<Rightarrow> jsnum"
  String_num :: "rat \<Rightarrow> string"
  Proto_names :: "proto \<Rightarrow> string list"
  Native_get :: "builtin \<Rightarrow> string \<Rightarrow> error + jsany"
  Native_object :: "nat \<Rightarrow> bool"
  Native_string :: "builtin \<Rightarrow> error + string"
  Native_number :: "builtin \<Rightarrow> error + jsnum"

definition bindE :: "error + 'a \<Rightarrow> ('a \<Rightarrow> error + 'b) \<Rightarrow> error + 'b" where
  "bindE m f = (case m of Inl e \<Rightarrow> Inl e | Inr v \<Rightarrow> f v)"

text \<open>A loop over a list whose body may throw: the first exception ends it.\<close>

fun foldE :: "('s \<Rightarrow> 'a \<Rightarrow> error + 's) \<Rightarrow> 's \<Rightarrow> 'a list \<Rightarrow> error + 's" where
  "foldE f s [] = Inr s"
| "foldE f s (x # xs) = bindE (f s x) (\<lambda>s'. foldE f s' xs)"

fun mapE :: "('a \<Rightarrow> error + 'b) \<Rightarrow> 'a list \<Rightarrow> error + 'b list" where
  "mapE f [] = Inr []"
| "mapE f (x # xs) = bindE (f x) (\<lambda>y. bindE (mapE f xs) (\<lambda>ys. Inr (y # ys)))"

definition nullish :: "jsval \<Rightarrow> bool" where
  "nullish v = (v = JUndefined \<or> v = JNull)"

text \<open>\<^verbatim>\<open>a ?? b\<close>\<close>

definition nc :: "jsval \<Rightarrow> jsval \<Rightarrow> jsval" where
  "nc a b = (if nullish a then b else a)"

fun truthy :: "jsval \<Rightarrow> bool" where
  "truthy JUndefined = False"
| "truthy JNull = False"
| "truthy (JBool b) = b"
| "truthy (JNum r) = (r \<noteq> 0)"
| "truthy (JStr s) = (s \<noteq> [])"
| "truthy (JArr a xs) = True"
| "truthy (JObj a ps) = True"

text \<open>\<^verbatim>\<open>a || b\<close>\<close>

definition or_else :: "jsval \<Rightarrow> jsval \<Rightarrow> jsval" where
  "or_else a b = (if truthy a then a else b)"

fun isArray :: "jsval \<Rightarrow> bool" where
  "isArray (JArr a xs) = True"
| "isArray v = False"

text \<open>\<^verbatim>\<open>Array.isArray(v) ? v : []\<close>\<close>

fun as_array :: "jsval \<Rightarrow> jsval list" where
  "as_array (JArr a xs) = xs"
| "as_array v = []"

text \<open>\<^verbatim>\<open>typeof v === 'object'\<close>, which holds of null too.\<close>

fun typeof_object :: "jsval \<Rightarrow> bool" where
  "typeof_object JNull = True"
| "typeof_object (JArr a xs) = True"
| "typeof_object (JObj a ps) = True"
| "typeof_object v = False"

subsection \<open>Property access\<close>

definition is_digit :: "char \<Rightarrow> bool" where
  "is_digit c = (48 \<le> (of_char c :: nat) \<and> (of_char c :: nat) \<le> 57)"

text \<open>A property key that is a canonical array index (\<^verbatim>\<open>"0"\<close>, \<^verbatim>\<open>"17"\<close>, not \<^verbatim>\<open>"01"\<close>).\<close>

definition index_of_key :: "string \<Rightarrow> nat option" where
  "index_of_key s =
     (if s = [] \<or> \<not> list_all is_digit s \<or> (1 < length s \<and> hd s = CHR ''0'') then None
      else Some (foldl (\<lambda>n c. 10 * n + ((of_char c :: nat) - 48)) 0 s))"

fun digits_of :: "nat \<Rightarrow> nat \<Rightarrow> string" where
  "digits_of 0 n = []"
| "digits_of (Suc fuel) n =
     (if n < 10 then [char_of (48 + n)]
      else digits_of fuel (n div 10) @ [char_of (48 + n mod 10)])"

text \<open>The decimal numeral of an array index (a number of \<open>n + 1\<close> digits at most).\<close>

definition key_of_index :: "nat \<Rightarrow> string" where
  "key_of_index n = digits_of (Suc n) n"

text \<open>
  \<^verbatim>\<open>v.k\<close> in the aggregator, on a value that is neither null nor undefined. The
  aggregator reads fixed property names only (\<^verbatim>\<open>masterbillNumber\<close>, \<^verbatim>\<open>pieces\<close>,
  \<^verbatim>\<open>weight\<close> and the like), none of which a built-in prototype defines, so such a
  read finds an own data property or nothing: the keys of an object, and the indices
  and the length of an array or a string. The chart pipeline reads property names
  that come with the chart specification; its reads are \<open>member\<close> below, which follows
  the prototype chain.
\<close>

fun get_prop :: "jsval \<Rightarrow> string \<Rightarrow> jsval" where
  "get_prop (JObj a ps) k = (case map_of ps k of Some v \<Rightarrow> v | None \<Rightarrow> JUndefined)"
| "get_prop (JArr a xs) k =
     (if k = ''length'' then JNum (of_nat (length xs))
      else case index_of_key k of
             Some i \<Rightarrow> (if i < length xs then xs ! i else JUndefined)
           | None \<Rightarrow> JUndefined)"
| "get_prop (JStr s) k =
     (if k = ''length'' then JNum (of_nat (length s))
      else case index_of_key k of
             Some i \<Rightarrow> (if i < length s then JStr [s ! i] else JUndefined)
           | None \<Rightarrow> JUndefined)"
| "get_prop v k = JUndefined"

text \<open>\<^verbatim>\<open>v?.k\<close>\<close>

definition opt_prop :: "jsval \<Rightarrow> string \<Rightarrow> jsval" where
  "opt_prop v k = (if nullish v then JUndefined else get_prop v k)"

text \<open>\<^verbatim>\<open>k in v\<close> for a value with \<^verbatim>\<open>typeof v === 'object'\<close>: null throws.\<close>

fun in_op :: "string \<Rightarrow> jsval \<Rightarrow> error + bool" where
  "in_op k (JObj a ps) = Inr (k \<in> set (map fst ps))"
| "in_op k (JArr a xs) =
     Inr (k = ''length'' \<or> (case index_of_key k of Some i \<Rightarrow> i < length xs | None \<Rightarrow> False))"
| "in_op k v = Inl TypeError"

text \<open>\<^verbatim>\<open>Object.entries(v)\<close> for a value that is neither null nor undefined.\<close>

fun entries :: "jsval \<Rightarrow> (string \<times> jsval) list" where
  "entries (JObj a ps) = ps"
| "entries (JArr a xs) = zip (map key_of_index [0..<length xs]) xs"
| "entries (JStr s) = zip (map key_of_index [0..<length s]) (map (\<lambda>c. JStr [c]) s)"
| "entries v = []"

subsection \<open>Coercions\<close>

text \<open>
  \<^verbatim>\<open>String(v)\<close>, also what a template literal does to an interpolated value. A plain
  object prints as \<^verbatim>\<open>[object Object]\<close>, unless it has an own property
  \<^verbatim>\<open>toString\<close>: parsed data is never callable, so the conversion finds no usable method
  and throws. An array joins its elements with commas, null and undefined as empty.
\<close>

fun to_string :: "host \<Rightarrow> jsval \<Rightarrow> error + string"
  and join_elems :: "host \<Rightarrow> jsval list \<Rightarrow> error + string" where
  "to_string h JUndefined = Inr ''undefined''"
| "to_string h JNull = Inr ''null''"
| "to_string h (JBool b) = Inr (if b then ''true'' else ''false'')"
| "to_string h (JNum r) = Inr (String_num h r)"
| "to_string h (JStr s) = Inr s"
| "to_string h (JArr a xs) = join_elems h xs"
| "to_string h (JObj a ps) =
     (if ''toString'' \<in> set (map fst ps) then Inl TypeError else Inr ''[object Object]'')"
| "join_elems h [] = Inr []"
| "join_elems h [x] = (if nullish x then Inr [] else to_string h x)"
| "join_elems h (x # y # ys) =
     bindE (if nullish x then Inr [] else to_string h x) (\<lambda>s.
     bindE (join_elems h (y # ys)) (\<lambda>t. Inr (s @ '','' @ t)))"

text \<open>\<^verbatim>\<open>Number(v)\<close>: an array or object is converted through its string.\<close>

fun to_number :: "host \<Rightarrow> jsval \<Rightarrow> error + jsnum" where
  "to_number h JUndefined = Inr NaN"
| "to_number h JNull = Inr (Fin 0)"
| "to_number h (JBool b) = Inr (Fin (if b then 1 else 0))"
| "to_number h (JNum r) = Inr (Fin r)"
| "to_number h (JStr s) = Inr (Number_str h s)"
| "to_number h v = bindE (to_string h v) (\<lambda>s. Inr (Number_str h s))"

fun ref_of :: "jsval \<Rightarrow> nat option" where
  "ref_of (JArr a xs) = Some a"
| "ref_of (JObj a ps) = Some a"
| "ref_of v = None"

text \<open>
  \<^verbatim>\<open>a === b\<close>, also the key comparison of \<^verbatim>\<open>Map\<close> and of \<^verbatim>\<open>Array.includes\<close>:
  primitives by value, arrays and objects by address.
\<close>

definition same_value :: "jsval \<Rightarrow> jsval \<Rightarrow> bool" where
  "same_value a b =
     (case (ref_of a, ref_of b) of
        (Some i, Some j) \<Rightarrow> i = j
      | (None, None) \<Rightarrow> a = b
      | _ \<Rightarrow> False)"

text \<open>
  A \<^verbatim>\<open>Map\<close> keeps its entries in insertion order; setting an existing key keeps the
  entry in place.
\<close>

fun map_get :: "(jsval \<times> 'v) list \<Rightarrow> jsval \<Rightarrow> 'v option" where
  "map_get [] k = None"
| "map_get ((k', v) # m) k = (if same_value k' k then Some v else map_get m k)"

fun map_set :: "(jsval \<times> 'v) list \<Rightarrow> jsval \<Rightarrow> 'v \<Rightarrow> (jsval \<times> 'v) list" where
  "map_set [] k v = [(k, v)]"
| "map_set ((k', v') # m) k v =
     (if same_value k' k then (k', v) # m else (k', v') # map_set m k v)"

section \<open>The canonical manifest (\<^verbatim>\<open>src/types.ts\<close>)\<close>

text \<open>
  The interfaces declare strings where the aggregator stores whatever the upstream
  document holds, unconverted; those fields are \<^typ>\<open>jsval\<close> here. Piece counts are
  array lengths and their sums, hence natural numbers. Field names are prefixed where
  two interfaces share one.
\<close>

record Weight =
  w_value :: rat
  w_unit :: string

record ULDContent =
  uld_id :: jsval
  uld_pieces :: nat
  uld_weight :: Weight

record HouseShipment =
  hawb_number :: jsval
  customer :: jsval
  origin :: jsval
  destination :: jsval
  hs_pieces :: nat
  actual_weight_kg :: rat
  chargeable_weight_kg :: rat
  remarks :: jsval

record Shipment =
  awb_number :: jsval
  pieces :: nat
  weight :: Weight
  nature_of_goods :: jsval
  special_handling_codes :: "string list"
  storage_instructions :: jsval
  uld_contents :: "ULDContent list"
  house_shipments :: "HouseShipment list"

record FlightDetails =
  flight_number :: string
  departure_airport :: jsval
  arrival_airport :: jsval
  departure_date :: string
  arrival_date :: string

record ManifestData =
  manifest_id :: string
  manifest_number :: string
  flight_details :: FlightDetails
  shipments :: "Shipment list"
  total_pieces :: nat
  total_weight :: Weight

section \<open>The manifest aggregator (\<^verbatim>\<open>transformManifest\<close>)\<close>

fun asNumber :: "host \<Rightarrow> jsval \<Rightarrow> rat" where
  "asNumber h (JNum r) = r"
| "asNumber h (JStr s) = (case Number_str h s of Fin r \<Rightarrow> r | _ \<Rightarrow> 0)"
| "asNumber h v = 0"

text \<open>The entry of \<^verbatim>\<open>uldIdToTotals\<close>: \<^verbatim>\<open>{ pieces, weightKg }\<close>.\<close>

record uld_totals =
  t_pieces :: nat
  t_weightKg :: rat

text \<open>The per-AWB \<^verbatim>\<open>Accumulator\<close>; the set of codes in insertion order.\<close>

record accumulator =
  totalPieces :: nat
  totalWeightKg :: rat
  uldIdToTotals :: "(jsval \<times> uld_totals) list"
  houseShipments :: "HouseShipment list"
  natureOfGoods :: jsval
  shcs :: "string list"

definition set_add :: "string list \<Rightarrow> string \<Rightarrow> string list" where
  "set_add s c = (if c \<in> set s then s else s @ [c])"

text \<open>The masterbill's piece count: its own pieces, else those of its housebills.\<close>

definition piecesCount_of :: "jsval list \<Rightarrow> jsval list \<Rightarrow> nat" where
  "piecesCount_of piecesArray housebills =
     (if 0 < length piecesArray then length piecesArray
      else foldl (\<lambda>sum hb. sum + (if isArray (opt_prop hb ''pieces'')
                                   then length (as_array (get_prop hb ''pieces'')) else 0))
             0 housebills)"

definition totalHouseWeight_of :: "host \<Rightarrow> jsval list \<Rightarrow> rat" where
  "totalHouseWeight_of h housebills =
     foldl (\<lambda>sum hb. sum + foldl (\<lambda>s p. s + asNumber h (opt_prop p ''weight'')) 0
                             (as_array (opt_prop hb ''pieces'')))
       0 housebills"

text \<open>
  The per-ULD piece counts of one masterbill: each piece under its own
  \<^verbatim>\<open>containerNumber\<close>, or under \<open>dflt\<close>; with no pieces, the whole count under \<open>dflt\<close>.
\<close>

definition uldPieceCounts_of :: "jsval \<Rightarrow> jsval list \<Rightarrow> nat \<Rightarrow> (jsval \<times> nat) list" where
  "uldPieceCounts_of dflt piecesArray piecesCount =
     (if 0 < length piecesArray
      then foldl (\<lambda>m p.
             let uldFromPiece = nc (opt_prop p ''containerNumber'') dflt;
                 prev = (case map_get m uldFromPiece of Some n \<Rightarrow> n | None \<Rightarrow> 0)
             in map_set m uldFromPiece (prev + 1)) [] piecesArray
      else map_set [] dflt ((case map_get [] dflt of Some n \<Rightarrow> n | None \<Rightarrow> 0) + piecesCount))"

definition totalPiecesForAllocation_of :: "(jsval \<times> nat) list \<Rightarrow> nat" where
  "totalPiecesForAllocation_of uldPieceCounts =
     (let t = foldl (\<lambda>a b. a + b) 0 (map snd uldPieceCounts) in if t = 0 then 1 else t)"

text \<open>One round of the allocation loop, without its log line.\<close>

definition allocate :: "nat \<Rightarrow> rat \<Rightarrow> (jsval \<times> uld_totals) list \<Rightarrow> jsval \<times> nat
    \<Rightarrow> (jsval \<times> uld_totals) list" where
  "allocate totalPiecesForAllocation totalHouseWeight totals e =
     (let uld = fst e; pcs = snd e;
          uldTotals = (case map_get totals uld of Some t \<Rightarrow> t
                       | None \<Rightarrow> \<lparr>t_pieces = 0, t_weightKg = 0\<rparr>);
          share = (of_nat pcs / of_nat totalPiecesForAllocation) * totalHouseWeight
      in map_set totals uld
           \<lparr>t_pieces = t_pieces uldTotals + pcs, t_weightKg = t_weightKg uldTotals + share\<rparr>)"

text \<open>The \<^verbatim>\<open>HouseShipment\<close> of one housebill, built alike on both paths.\<close>

definition mk_house :: "host \<Rightarrow> jsval \<Rightarrow> jsval \<Rightarrow> jsval \<Rightarrow> HouseShipment" where
  "mk_house h departureAirport arrivalAirport hb =
     (let hbPieces = as_array (opt_prop hb ''pieces'');
          hbPieceCount = length hbPieces;
          hbWeight = foldl (\<lambda>sum p. sum + asNumber h (opt_prop p ''weight'')) 0 hbPieces
      in \<lparr>hawb_number = nc (opt_prop hb ''housebillNumber'') (JStr []),
          customer = nc (opt_prop hb ''customer'') (JStr []),
          origin = departureAirport,
          destination = arrivalAirport,
          hs_pieces = hbPieceCount,
          actual_weight_kg = hbWeight,
          chargeable_weight_kg = hbWeight,
          remarks = nc (opt_prop hb ''remarks'') JUndefined\<rparr>)"

definition new_accumulator :: "jsval \<Rightarrow> accumulator" where
  "new_accumulator masterbill =
     \<lparr>totalPieces = 0, totalWeightKg = 0, uldIdToTotals = [], houseShipments = [],
      natureOfGoods = nc (opt_prop masterbill ''natureOfGoods'') (JStr []), shcs = []\<rparr>"

text \<open>
  The body of the loop over a container's masterbills (lines 113 to 200). The log lines
  are kept where they convert a document value to a string, since that can throw.
\<close>

definition process_masterbill :: "host \<Rightarrow> jsval \<Rightarrow> jsval \<Rightarrow> jsval
    \<Rightarrow> (jsval \<times> accumulator) list \<Rightarrow> jsval \<Rightarrow> error + (jsval \<times> accumulator) list" where
  "process_masterbill h departureAirport arrivalAirport uldId shipmentsByAwb masterbill =
     (let awbNumber = nc (opt_prop masterbill ''masterbillNumber'') (JStr []) in
      if \<not> truthy awbNumber then Inr shipmentsByAwb
      else
        bindE (to_string h awbNumber) (\<lambda>_.
        let piecesArray = as_array (opt_prop masterbill ''pieces'');
            housebills = as_array (opt_prop masterbill ''housebills'') in
        bindE (mapE (\<lambda>s. to_string h (nc (opt_prop s ''code'') (JStr [])))
                 (as_array (opt_prop masterbill ''shcs''))) (\<lambda>codes.
        let piecesCount = piecesCount_of piecesArray housebills;
            totalHouseWeight = totalHouseWeight_of h housebills;
            isNewAwb = (map_get shipmentsByAwb awbNumber = None);
            existing = (case map_get shipmentsByAwb awbNumber of Some a \<Rightarrow> a
                        | None \<Rightarrow> new_accumulator masterbill) in
        bindE (if isNewAwb then to_string h (natureOfGoods existing) else Inr []) (\<lambda>_.
        let existing1 = existing
              \<lparr>totalPieces := totalPieces existing + piecesCount,
               totalWeightKg := totalWeightKg existing + totalHouseWeight,
               shcs := foldl set_add (shcs existing) codes\<rparr>;
            uldPieceCounts = uldPieceCounts_of uldId piecesArray piecesCount;
            totalPiecesForAllocation = totalPiecesForAllocation_of uldPieceCounts in
        bindE (foldE (\<lambda>totals e.
                 bindE (to_string h (fst e)) (\<lambda>_.
                   Inr (allocate totalPiecesForAllocation totalHouseWeight totals e)))
               (uldIdToTotals existing1) uldPieceCounts) (\<lambda>totals.
        bindE (foldE (\<lambda>hss e.
                 bindE (to_string h (nc (opt_prop (snd e) ''housebillNumber'')
                          (JStr (''(HB '' @ key_of_index (Suc (fst e)) @ '')'')))) (\<lambda>_.
                   Inr (hss @ [mk_house h departureAirport arrivalAirport (snd e)])))
               (houseShipments existing1) (zip [0..<length housebills] housebills)) (\<lambda>hss.
        Inr (map_set shipmentsByAwb awbNumber
               (existing1\<lparr>uldIdToTotals := totals, houseShipments := hss\<rparr>))))))))"

text \<open>
  The search for a container's masterbills among its properties (lines 98 to 107):
  the first non-empty array whose first element has \<^verbatim>\<open>typeof\<close> \<^verbatim>\<open>'object'\<close> and one
  of three keys. The test \<^verbatim>\<open>'masterbillNumber' in sample\<close> comes first and throws on null.
\<close>

fun discover :: "(string \<times> jsval) list \<Rightarrow> error + jsval list" where
  "discover [] = Inr []"
| "discover ((key, v) # es) =
     (if isArray v \<and> 0 < length (as_array v) \<and> typeof_object (hd (as_array v))
      then bindE (in_op ''masterbillNumber'' (hd (as_array v))) (\<lambda>b1.
           bindE (if b1 then Inr True else in_op ''housebills'' (hd (as_array v))) (\<lambda>b2.
           bindE (if b2 then Inr True else in_op ''pieces'' (hd (as_array v))) (\<lambda>b3.
           if b3 then Inr (as_array v) else discover es)))
      else discover es)"

definition find_masterbills :: "jsval \<Rightarrow> error + jsval list" where
  "find_masterbills container =
     (if isArray (opt_prop container ''masterbills'')
      then Inr (as_array (get_prop container ''masterbills''))
      else if isArray (opt_prop container ''masterbill'')
      then Inr (as_array (get_prop container ''masterbill''))
      else discover (entries (or_else container (JObj 0 []))))"

text \<open>The body of the loop over the containers (lines 87 to 201).\<close>

definition process_container :: "host \<Rightarrow> jsval \<Rightarrow> jsval
    \<Rightarrow> (jsval \<times> accumulator) list \<times> nat \<Rightarrow> jsval
    \<Rightarrow> error + ((jsval \<times> accumulator) list \<times> nat)" where
  "process_container h departureAirport arrivalAirport st container =
     (let uldId = nc (opt_prop container ''containerNumber'') (JStr ''N/A'') in
      bindE (to_string h uldId) (\<lambda>_.
      bindE (find_masterbills container) (\<lambda>masterbills.
      bindE (foldE (process_masterbill h departureAirport arrivalAirport uldId)
               (fst st) masterbills) (\<lambda>shipmentsByAwb.
      Inr (shipmentsByAwb, snd st + length masterbills)))))"

text \<open>The body of the fallback loop over the top-level masterbills (lines 206 to 273).\<close>

definition process_top_masterbill :: "host \<Rightarrow> jsval \<Rightarrow> jsval
    \<Rightarrow> (jsval \<times> accumulator) list \<Rightarrow> jsval \<Rightarrow> (jsval \<times> accumulator) list" where
  "process_top_masterbill h departureAirport arrivalAirport shipmentsByAwb masterbill =
     (let awbNumber = nc (opt_prop masterbill ''masterbillNumber'') (JStr []) in
      if \<not> truthy awbNumber then shipmentsByAwb
      else
        let piecesArray = as_array (opt_prop masterbill ''pieces'');
            housebills = as_array (opt_prop masterbill ''housebills'');
            piecesCount = piecesCount_of piecesArray housebills;
            totalHouseWeight = totalHouseWeight_of h housebills;
            existing = (case map_get shipmentsByAwb awbNumber of Some a \<Rightarrow> a
                        | None \<Rightarrow> new_accumulator masterbill);
            existing1 = existing
              \<lparr>totalPieces := totalPieces existing + piecesCount,
               totalWeightKg := totalWeightKg existing + totalHouseWeight\<rparr>;
            uldPieceCounts = uldPieceCounts_of (JStr ''UNKNOWN-ULD'') piecesArray piecesCount;
            totalPiecesForAllocation = totalPiecesForAllocation_of uldPieceCounts;
            totals = foldl (allocate totalPiecesForAllocation totalHouseWeight)
                       (uldIdToTotals existing1) uldPieceCounts;
            hss = foldl (\<lambda>hss hb. hss @ [mk_house h departureAirport arrivalAirport hb])
                    (houseShipments existing1) housebills
        in map_set shipmentsByAwb awbNumber
             (existing1\<lparr>uldIdToTotals := totals, houseShipments := hss\<rparr>))"

text \<open>The \<^verbatim>\<open>Shipment\<close> of one accumulated AWB (lines 279 to 296).\<close>

definition to_shipment :: "jsval \<times> accumulator \<Rightarrow> Shipment" where
  "to_shipment e =
     (let awbNumber = fst e; acc = snd e;
          uld_conts = map (\<lambda>u. \<lparr>uld_id = fst u, uld_pieces = t_pieces (snd u),
                                 uld_weight = \<lparr>w_value = t_weightKg (snd u), w_unit = ''kg''\<rparr>\<rparr>)
                        (uldIdToTotals acc)
      in \<lparr>awb_number = awbNumber,
          pieces = totalPieces acc,
          weight = \<lparr>w_value = totalWeightKg acc, w_unit = ''kg''\<rparr>,
          nature_of_goods = natureOfGoods acc,
          special_handling_codes = shcs acc,
          storage_instructions = JUndefined,
          uld_contents = uld_conts,
          house_shipments = houseShipments acc\<rparr>)"

text \<open>
  The aggregation (lines 59 to 274): the walk over the containers, then the top-level
  masterbills when the walk met no masterbill at all. The result is the map
  \<^verbatim>\<open>shipmentsByAwb\<close>.
\<close>

definition aggregate_doc :: "host \<Rightarrow> jsval \<Rightarrow> error + (jsval \<times> accumulator) list" where
  "aggregate_doc h doc =
     (let manifestInfo = nc (opt_prop doc ''manifest'') (JObj 0 []);
          containers = as_array (opt_prop doc ''containers'');
          departureAirport = nc (get_prop manifestInfo ''pointOfLoading'') (JStr []);
          arrivalAirport = nc (get_prop manifestInfo ''pointOfUnloading'') (JStr []);
          topLevelMasterbills = as_array (opt_prop doc ''masterbills'') in
      bindE (foldE (process_container h departureAirport arrivalAirport) ([], 0) containers)
        (\<lambda>st.
      Inr (if snd st = 0 \<and> 0 < length topLevelMasterbills
           then foldl (process_top_masterbill h departureAirport arrivalAirport)
                  (fst st) topLevelMasterbills
           else fst st)))"

definition transformManifest :: "host \<Rightarrow> jsval \<Rightarrow> error + ManifestData" where
  "transformManifest h apiData =
     (let doc = nc (opt_prop apiData ''doc'') apiData;
          manifestInfo = nc (opt_prop doc ''manifest'') (JObj 0 []);
          departureAirport = nc (get_prop manifestInfo ''pointOfLoading'') (JStr []);
          arrivalAirport = nc (get_prop manifestInfo ''pointOfUnloading'') (JStr []) in
      bindE (aggregate_doc h doc) (\<lambda>shipmentsByAwb.
      bindE (mapE (to_string h) (map fst shipmentsByAwb)) (\<lambda>_.
      let shipmentList = map to_shipment shipmentsByAwb;
          totalPieces = foldl (\<lambda>sum s. sum + (if pieces s = 0 then 0 else pieces s))
                          0 shipmentList;
          totalWeight = foldl (\<lambda>sum s. sum + asNumber h (JNum (w_value (weight s))))
                          0 shipmentList in
      bindE (to_string h (nc (get_prop manifestInfo ''id'')
               (nc (get_prop manifestInfo ''manifestNo'') (JStr [])))) (\<lambda>mid.
      bindE (to_string h (nc (get_prop manifestInfo ''manifestNo'') (JStr []))) (\<lambda>mno.
      bindE (to_string h (nc (get_prop manifestInfo ''flightNo'') (JStr []))) (\<lambda>fno.
      bindE (to_string h (nc (get_prop manifestInfo ''date'') (JStr []))) (\<lambda>ddate.
      Inr \<lparr>manifest_id = mid,
           manifest_number = mno,
           flight_details =
             \<lparr>flight_number = fno,
              departure_airport = departureAirport,
              arrival_airport = arrivalAirport,
              departure_date = ddate,
              arrival_date = []\<rparr>,
           shipments = shipmentList,
           total_pieces = totalPieces,
           total_weight = \<lparr>w_value = totalWeight, w_unit = ''kg''\<rparr>\<rparr>)))))))"

section \<open>The chart pipeline (\<^verbatim>\<open>src/components/Modal.tsx\<close>)\<close>

subsection \<open>Chart specifications\<close>

datatype ChartSource = Shipments | Hawbs | Ulds

datatype ChartType = Bar | Line | Pie | Stacked_bar | Scatter | Histogram | Heatmap | Treemap

datatype Aggregate = AggSum | AggCount | AggAvg

datatype filter_op = OpEq | OpNeq | OpContains | OpIn | OpGt | OpGte | OpLt | OpLte

datatype sort_dir = Asc | Desc

text \<open>
  A field of a chart specification: absent (undefined or null), a string, or, after
  normalisation only, a built-in object of the language that is not a string (see
  \<open>normalizeFieldPath\<close> below).
\<close>

datatype fieldv = FUndef | FStr string | FHost

fun field_truthy :: "fieldv \<Rightarrow> bool" where
  "field_truthy FUndef = False"
| "field_truthy (FStr s) = (s \<noteq> [])"
| "field_truthy FHost = True"

record ChartFilter =
  f_field :: string
  f_op :: filter_op
  f_value :: jsval

record ChartSpec =
  source :: ChartSource
  chartType :: ChartType
  xField :: fieldv
  yField :: fieldv
  yCategoryField :: fieldv
  valueField :: fieldv
  seriesField :: fieldv
  sizeField :: fieldv
  parentField :: fieldv
  childField :: fieldv
  aggregate :: "Aggregate option"
  title :: "string option"
  filters :: "ChartFilter list option"
  topN :: "rat option"
  sort :: "sort_dir option"
  unit_label :: "string option"
  binCount :: "rat option"
  stack :: "bool option"

subsection \<open>Strings\<close>

text \<open>
  A character stands for a code unit below 256 (ISO Latin-1), where lower-casing
  moves \<^verbatim>\<open>A\<close> to \<^verbatim>\<open>Z\<close> and the accented capitals, and nothing else.
\<close>

definition lower_char :: "char \<Rightarrow> char" where
  "lower_char c =
     (let n = (of_char c :: nat)
      in if (65 \<le> n \<and> n \<le> 90) \<or> (192 \<le> n \<and> n \<le> 222 \<and> n \<noteq> 215)
         then char_of (n + 32) else c)"

definition toLowerCase :: "string \<Rightarrow> string" where
  "toLowerCase s = map lower_char s"

fun starts_with :: "string \<Rightarrow> string \<Rightarrow> bool" where
  "starts_with s [] = True"
| "starts_with [] (c # t) = False"
| "starts_with (d # s) (c # t) = (d = c \<and> starts_with s t)"

text \<open>\<^verbatim>\<open>s.includes(t)\<close>\<close>

fun str_includes :: "string \<Rightarrow> string \<Rightarrow> bool" where
  "str_includes [] t = (t = [])"
| "str_includes (c # s) t = (starts_with (c # s) t \<or> str_includes s t)"

text \<open>\<^verbatim>\<open>s.endsWith(t)\<close>\<close>

definition ends_with :: "string \<Rightarrow> string \<Rightarrow> bool" where
  "ends_with s t = starts_with (rev s) (rev t)"

text \<open>\<^verbatim>\<open>s.split('.')\<close>\<close>

fun split_dot :: "string \<Rightarrow> string list" where
  "split_dot [] = [[]]"
| "split_dot (c # cs) =
     (if c = CHR ''.'' then [] # split_dot cs
      else case split_dot cs of [] \<Rightarrow> [[c]] | seg # segs \<Rightarrow> (c # seg) # segs)"

subsection \<open>The field accessor (\<^verbatim>\<open>getValueByPath\<close>)\<close>

text \<open>
  The own data properties of a value: the keys of an object, and the indices and the
  length of an array or a string.
\<close>

fun own_prop :: "jsval \<Rightarrow> string \<Rightarrow> jsval option" where
  "own_prop (JObj a ps) k = map_of ps k"
| "own_prop (JArr a xs) k =
     (if k = ''length'' then Some (JNum (of_nat (length xs)))
      else case index_of_key k of
             Some i \<Rightarrow> (if i < length xs then Some (xs ! i) else None)
           | None \<Rightarrow> None)"
| "own_prop (JStr s) k =
     (if k = ''length'' then Some (JNum (of_nat (length s)))
      else case index_of_key k of
             Some i \<Rightarrow> (if i < length s then Some (JStr [s ! i]) else None)
           | None \<Rightarrow> None)"
| "own_prop v k = None"

text \<open>The property names of \<^verbatim>\<open>Object.prototype\<close>, which every plain object inherits.\<close>

definition object_proto_names :: "string list" where
  "object_proto_names =
     [''constructor'', ''hasOwnProperty'', ''isPrototypeOf'', ''propertyIsEnumerable'',
      ''toLocaleString'', ''toString'', ''valueOf'', ''__proto__'',
      ''__defineGetter__'', ''__defineSetter__'', ''__lookupGetter__'', ''__lookupSetter__'']"

text \<open>
  The prototype chain of a value: a plain object (an object literal or parsed data)
  inherits from \<^verbatim>\<open>Object.prototype\<close> and from nothing else; an array, a string, a
  number and a boolean inherit from the prototype of their kind first.
\<close>

fun proto_chain :: "jsval \<Rightarrow> proto list" where
  "proto_chain (JObj a ps) = [ObjectProto]"
| "proto_chain (JArr a xs) = [ArrayProto, ObjectProto]"
| "proto_chain (JStr s) = [StringProto, ObjectProto]"
| "proto_chain (JNum n) = [NumberProto, ObjectProto]"
| "proto_chain (JBool b) = [BooleanProto, ObjectProto]"
| "proto_chain v = []"

definition proto_names :: "host \<Rightarrow> proto \<Rightarrow> string list" where
  "proto_names h p = (if p = ObjectProto then object_proto_names else Proto_names h p)"

text \<open>The search of a name along a chain: the member of the first prototype that has it.\<close>

fun inherited :: "host \<Rightarrow> proto list \<Rightarrow> string \<Rightarrow> jsany" where
  "inherited h [] k = Val JUndefined"
| "inherited h (p # ps) k =
     (if k \<in> set (proto_names h p) then Native (Member p k) else inherited h ps k)"

text \<open>
  \<^verbatim>\<open>v[k]\<close>: an own property first, else what the prototype chain gives. The name
  \<^verbatim>\<open>__proto__\<close> is an accessor of \<^verbatim>\<open>Object.prototype\<close> that gives the prototype of the
  value it is read from. Null and undefined have no properties: the read throws.
\<close>

definition member :: "host \<Rightarrow> jsval \<Rightarrow> string \<Rightarrow> error + jsany" where
  "member h v k =
     (case own_prop v k of
        Some x \<Rightarrow> Inr (Val x)
      | None \<Rightarrow>
          if nullish v then Inl TypeError
          else if k = ''__proto__'' then Inr (Native (Prototype (hd (proto_chain v))))
          else Inr (inherited h (proto_chain v) k))"

fun any_member :: "host \<Rightarrow> jsany \<Rightarrow> string \<Rightarrow> error + jsany" where
  "any_member h (Val v) k = member h v k"
| "any_member h (Native b) k = Native_get h b k"

text \<open>\<^verbatim>\<open>x == null\<close>\<close>

fun any_nullish :: "jsany \<Rightarrow> bool" where
  "any_nullish (Val v) = nullish v"
| "any_nullish (Native b) = False"

fun any_truthy :: "jsany \<Rightarrow> bool" where
  "any_truthy (Val v) = truthy v"
| "any_truthy (Native b) = True"

text \<open>
  \<^verbatim>\<open>typeof x === 'object'\<close>. The members of the prototypes are functions; the
  prototypes are objects.
\<close>

fun any_typeof_object :: "host \<Rightarrow> jsany \<Rightarrow> bool" where
  "any_typeof_object h (Val v) = typeof_object v"
| "any_typeof_object h (Native (Member p k)) = False"
| "any_typeof_object h (Native (Prototype p)) = True"
| "any_typeof_object h (Native (HostObject n)) = Native_object h n"

text \<open>\<^verbatim>\<open>String(x)\<close> and \<^verbatim>\<open>Number(x)\<close>\<close>

fun any_to_string :: "host \<Rightarrow> jsany \<Rightarrow> error + string" where
  "any_to_string h (Val v) = to_string h v"
| "any_to_string h (Native b) = Native_string h b"

fun any_to_number :: "host \<Rightarrow> jsany \<Rightarrow> error + jsnum" where
  "any_to_number h (Val v) = to_number h v"
| "any_to_number h (Native b) = Native_number h b"

text \<open>
  \<^verbatim>\<open>x === w\<close> where \<open>w\<close> is a value of the chart specification, which is parsed data:
  a built-in is never identical to it.
\<close>

fun strict_eq :: "jsany \<Rightarrow> jsval \<Rightarrow> bool" where
  "strict_eq (Val v) w = same_value v w"
| "strict_eq (Native b) w = False"

text \<open>The second half of the accessor (lines 407 to 415): a \<^verbatim>\<open>{value, unit}\<close> wrapper
  gives its number.\<close>

definition unwrap_value :: "host \<Rightarrow> jsany \<Rightarrow> error + jsany" where
  "unwrap_value h result =
     (if \<not> any_nullish result \<and> any_typeof_object h result
      then bindE (any_member h result ''value'') (\<lambda>val.
           case val of
             Val (JNum n) \<Rightarrow> Inr (Val (JNum n))
           | Val (JStr s) \<Rightarrow>
               (case Number_str h s of Fin n \<Rightarrow> Inr (Val (JNum n)) | _ \<Rightarrow> Inr result)
           | _ \<Rightarrow> Inr result)
      else Inr result)"

text \<open>
  The accessor (lines 401 to 416): one read when the path has no dot, else a fold of
  reads over the split path. A path that is a built-in object has no \<^verbatim>\<open>includes\<close>
  method: the call throws.
\<close>

definition getValueByPath :: "host \<Rightarrow> jsval \<Rightarrow> fieldv \<Rightarrow> error + jsany" where
  "getValueByPath h obj path =
     (if \<not> field_truthy path then Inr (Val JUndefined)
      else if \<not> truthy obj then Inr (Val JUndefined)
      else case path of
             FStr p \<Rightarrow>
               bindE (if CHR ''.'' \<notin> set p then member h obj p
                      else foldE (\<lambda>acc key. if any_nullish acc then Inr (Val JUndefined)
                                             else any_member h acc key)
                             (Val obj) (split_dot p))
                 (unwrap_value h)
           | _ \<Rightarrow> Inl TypeError)"

subsection \<open>The field normaliser\<close>

definition alias_map :: "ChartSource \<Rightarrow> (string \<times> string) list" where
  "alias_map src =
     [(''mawb'', ''awb_number''), (''mawb_number'', ''awb_number''), (''awb'', ''awb_number''),
      (''mawbno'', ''awb_number''), (''mawb_no'', ''awb_number''),
      (''uld'', ''uld_id''), (''uldid'', ''uld_id''), (''uld_type'', ''uld_id''),
      (''weight'', if src = Ulds then ''weight.value''
                   else if src = Hawbs then ''actual_weight_kg'' else ''weight.value''),
      (''weight_kg'', if src = Ulds then ''weight.value''
                      else if src = Hawbs then ''actual_weight_kg'' else ''weight.value''),
      (''actual_weight'', ''actual_weight_kg''),
      (''pieces'', ''pieces''), (''pcs'', ''pieces''),
      (''destination'', ''destination''), (''dest'', ''destination''),
      (''origin'', ''origin''),
      (''customer'', ''customer''),
      (''hawb'', ''hawb_number''), (''hawb_number'', ''hawb_number'')]"

text \<open>
  \<^verbatim>\<open>map[f] || field\<close>. The table is an object literal, so the two lower-case names it
  inherits, \<^verbatim>\<open>constructor\<close> and \<^verbatim>\<open>__proto__\<close>, are found too and give a built-in
  object instead of a string. Such an object as the argument has no \<^verbatim>\<open>toLowerCase\<close>.
\<close>

definition normalizeFieldPath :: "fieldv \<Rightarrow> ChartSource \<Rightarrow> error + fieldv" where
  "normalizeFieldPath fld src =
     (if \<not> field_truthy fld then Inr fld
      else case fld of
             FStr s \<Rightarrow>
               (let f = toLowerCase s
                in case map_of (alias_map src) f of
                     Some p \<Rightarrow> Inr (FStr p)
                   | None \<Rightarrow>
                       if f = ''constructor'' \<or> f = ''__proto__'' then Inr FHost
                       else Inr (FStr s))
           | _ \<Rightarrow> Inl TypeError)"

text \<open>\<^verbatim>\<open>a || b\<close> on fields\<close>

definition f_or :: "fieldv \<Rightarrow> fieldv \<Rightarrow> fieldv" where
  "f_or a b = (if field_truthy a then a else b)"

definition default_xField :: "ChartSource \<Rightarrow> string" where
  "default_xField src =
     (if src = Shipments then ''awb_number'' else if src = Ulds then ''uld_id'' else ''hawb_number'')"

text \<open>The five blocks of defaults of \<^verbatim>\<open>normalizeSpecFields\<close> (lines 449 to 466).\<close>

definition default_x :: "ChartSpec \<Rightarrow> ChartSpec" where
  "default_x n =
     (if \<not> field_truthy (xField n) then n\<lparr>xField := FStr (default_xField (source n))\<rparr> else n)"

definition default_y :: "ChartSpec \<Rightarrow> ChartSpec" where
  "default_y n =
     (if \<not> field_truthy (yField n)
      then n\<lparr>yField := FStr (if source n = Hawbs then ''actual_weight_kg'' else ''weight.value'')\<rparr>
      else n)"

definition default_heatmap :: "ChartSpec \<Rightarrow> ChartSpec" where
  "default_heatmap n =
     (if chartType n = Heatmap
      then (let a = (if \<not> field_truthy (yCategoryField n)
                     then n\<lparr>yCategoryField :=
                            FStr (if source n = Ulds then ''uld_id''
                                  else if source n = Hawbs then ''destination''
                                  else ''uld_id'')\<rparr>
                     else n)
            in if \<not> field_truthy (valueField a) then a\<lparr>valueField := yField a\<rparr> else a)
      else n)"

definition default_stacked :: "ChartSpec \<Rightarrow> ChartSpec" where
  "default_stacked n =
     (if chartType n = Stacked_bar \<and> \<not> field_truthy (seriesField n)
      then n\<lparr>seriesField :=
             FStr (if source n = Ulds then ''uld_id''
                   else if source n = Hawbs then ''destination'' else ''awb_number'')\<rparr>
      else n)"

definition default_treemap :: "ChartSpec \<Rightarrow> ChartSpec" where
  "default_treemap n =
     (if chartType n = Treemap
      then (let a = (if \<not> field_truthy (parentField n)
                     then n\<lparr>parentField := FStr ''awb_number''\<rparr> else n);
                b = (if \<not> field_truthy (childField a)
                     then a\<lparr>childField := FStr ''hawb_number''\<rparr> else a)
            in if \<not> field_truthy (valueField b)
               then b\<lparr>valueField := FStr ''actual_weight_kg''\<rparr> else b)
      else n)"

definition normalizeSpecFields :: "ChartSpec \<Rightarrow> error + ChartSpec" where
  "normalizeSpecFields spec =
     (let src = source spec in
      bindE (normalizeFieldPath (xField spec) src) (\<lambda>x.
      bindE (normalizeFieldPath (yField spec) src) (\<lambda>y.
      bindE (normalizeFieldPath (yCategoryField spec) src) (\<lambda>yc.
      bindE (normalizeFieldPath (valueField spec) src) (\<lambda>v.
      bindE (normalizeFieldPath (seriesField spec) src) (\<lambda>se.
      bindE (normalizeFieldPath (sizeField spec) src) (\<lambda>sz.
      bindE (normalizeFieldPath (parentField spec) src) (\<lambda>pa.
      bindE (normalizeFieldPath (childField spec) src) (\<lambda>ch.
      Inr (default_treemap (default_stacked (default_heatmap (default_y (default_x
             (spec\<lparr>xField := f_or x (xField spec),
                   yField := f_or y (yField spec),
                   yCategoryField := f_or yc (yCategoryField spec),
                   valueField := f_or v (valueField spec),
                   seriesField := f_or se (seriesField spec),
                   sizeField := f_or sz (sizeField spec),
                   parentField := f_or pa (parentField spec),
                   childField := f_or ch (childField spec)\<rparr>)))))))))))))))"

subsection \<open>Source rows\<close>

text \<open>
  The rows are fresh objects; their address is never compared, and is 0 here.
\<close>

definition weight_or_zero :: "Weight \<Rightarrow> jsval" where
  "weight_or_zero w = or_else (JNum (w_value w)) (JNum 0)"

definition getSourceRows :: "ManifestData option \<Rightarrow> ChartSource \<Rightarrow> jsval list" where
  "getSourceRows manifestData src =
     (case manifestData of
        None \<Rightarrow> []
      | Some md \<Rightarrow>
          if src = Shipments then
            map (\<lambda>s. JObj 0
                   [(''awb_number'', awb_number s),
                    (''pieces'', JNum (of_nat (pieces s))),
                    (''weight_kg'', weight_or_zero (weight s)),
                    (''weight'', JObj 0 [(''value'', weight_or_zero (weight s))]),
                    (''nature_of_goods'', nature_of_goods s),
                    (''destination'', arrival_airport (flight_details md)),
                    (''origin'', departure_airport (flight_details md))])
              (shipments md)
          else if src = Ulds then
            concat (map (\<lambda>s.
              map (\<lambda>u. JObj 0
                     [(''awb_number'', awb_number s),
                      (''uld_id'', uld_id u),
                      (''pieces'', JNum (of_nat (uld_pieces u))),
                      (''weight_kg'', weight_or_zero (uld_weight u)),
                      (''weight'', JObj 0 [(''value'', weight_or_zero (uld_weight u))])])
                (uld_contents s)) (shipments md))
          else
            concat (map (\<lambda>s.
              map (\<lambda>hs. JObj 0
                     [(''awb_number'', awb_number s),
                      (''hawb_number'', hawb_number hs),
                      (''customer'', customer hs),
                      (''destination'', destination hs),
                      (''origin'', origin hs),
                      (''pieces'', JNum (of_nat (hs_pieces hs))),
                      (''weight_kg'', JNum (actual_weight_kg hs)),
                      (''actual_weight_kg'', JNum (actual_weight_kg hs))])
                (house_shipments s)) (shipments md)))"

subsection \<open>The filter engine (\<^verbatim>\<open>applyFilters\<close>)\<close>

text \<open>\<^verbatim>\<open>a < b\<close> on numbers: false whenever one side is not a number.\<close>

fun js_lt :: "jsnum \<Rightarrow> jsnum \<Rightarrow> bool" where
  "js_lt NaN b = False"
| "js_lt a NaN = False"
| "js_lt (Fin a) (Fin b) = (a < b)"
| "js_lt (Fin a) PosInf = True"
| "js_lt (Fin a) NegInf = False"
| "js_lt PosInf b = False"
| "js_lt NegInf NegInf = False"
| "js_lt NegInf b = True"

text \<open>\<^verbatim>\<open>a <= b\<close>\<close>

definition js_le :: "jsnum \<Rightarrow> jsnum \<Rightarrow> bool" where
  "js_le a b = (js_lt a b \<or> (a = b \<and> a \<noteq> NaN))"

text \<open>The predicate of one filter on one row (the body of \<^verbatim>\<open>filters.every\<close>).\<close>

definition filter_pass :: "host \<Rightarrow> jsval \<Rightarrow> ChartFilter \<Rightarrow> error + bool" where
  "filter_pass h row f =
     bindE (getValueByPath h row (FStr (f_field f))) (\<lambda>v.
     let val = f_value f in
     case f_op f of
       OpEq \<Rightarrow> Inr (strict_eq v val)
     | OpNeq \<Rightarrow> Inr (\<not> strict_eq v val)
     | OpContains \<Rightarrow>
         (case v of
            Val (JStr s) \<Rightarrow> bindE (to_string h val) (\<lambda>t.
                              Inr (str_includes (toLowerCase s) (toLowerCase t)))
          | _ \<Rightarrow> Inr False)
     | OpIn \<Rightarrow> Inr (isArray val \<and> list_ex (\<lambda>x. strict_eq v x) (as_array val))
     | OpGt \<Rightarrow>
         bindE (any_to_number h v) (\<lambda>a. bindE (to_number h val) (\<lambda>b. Inr (js_lt b a)))
     | OpGte \<Rightarrow>
         bindE (any_to_number h v) (\<lambda>a. bindE (to_number h val) (\<lambda>b. Inr (js_le b a)))
     | OpLt \<Rightarrow>
         bindE (any_to_number h v) (\<lambda>a. bindE (to_number h val) (\<lambda>b. Inr (js_lt a b)))
     | OpLte \<Rightarrow>
         bindE (any_to_number h v) (\<lambda>a. bindE (to_number h val) (\<lambda>b. Inr (js_le a b))))"

text \<open>\<^verbatim>\<open>filters.every(...)\<close> stops at the first filter that fails.\<close>

fun every_pass :: "host \<Rightarrow> jsval \<Rightarrow> ChartFilter list \<Rightarrow> error + bool" where
  "every_pass h row [] = Inr True"
| "every_pass h row (f # fs) =
     bindE (filter_pass h row f) (\<lambda>b. if b then every_pass h row fs else Inr False)"

text \<open>\<^verbatim>\<open>rows.filter(...)\<close>\<close>

fun filter_rows :: "host \<Rightarrow> ChartFilter list \<Rightarrow> jsval list \<Rightarrow> error + jsval list" where
  "filter_rows h fs [] = Inr []"
| "filter_rows h fs (row # rows) =
     bindE (every_pass h row fs) (\<lambda>b.
     bindE (filter_rows h fs rows) (\<lambda>out. Inr (if b then row # out else out)))"

definition applyFilters :: "host \<Rightarrow> jsval list \<Rightarrow> ChartFilter list option
    \<Rightarrow> error + jsval list" where
  "applyFilters h rows fltrs =
     (case fltrs of
        None \<Rightarrow> Inr rows
      | Some fs \<Rightarrow> if length fs = 0 then Inr rows else filter_rows h fs rows)"

subsection \<open>The histogram branch of \<^verbatim>\<open>buildEchartsOption\<close>\<close>

text \<open>
  What the branch computes (lines 713 to 722): the number of bins, the range, the bin
  width and the counts. The labels and the rest of the renderer option are formatting
  and are left out.
\<close>

record histogram_bins =
  hb_bins :: nat
  hb_min :: rat
  hb_max :: rat
  hb_step :: rat
  hb_counts :: "nat list"

text \<open>\<^verbatim>\<open>.filter(v => Number.isFinite(v))\<close>\<close>

definition finite_values :: "jsnum list \<Rightarrow> rat list" where
  "finite_values ns = List.map_filter (\<lambda>n. case n of Fin r \<Rightarrow> Some r | _ \<Rightarrow> None) ns"

definition histogram_values :: "host \<Rightarrow> jsval list \<Rightarrow> fieldv \<Rightarrow> error + rat list" where
  "histogram_values h rows x =
     bindE (mapE (\<lambda>r. bindE (getValueByPath h r x) (\<lambda>v.
                    any_to_number h (if any_truthy v then v else Val (JNum 0))))
              rows) (\<lambda>ns.
     Inr (finite_values ns))"

text \<open>
  \<^verbatim>\<open>new Array(bins)\<close> throws a \<^verbatim>\<open>RangeError\<close> when \<open>bins\<close> is not an integer.
\<close>

definition histogram_binning :: "rat option \<Rightarrow> rat list \<Rightarrow> error + histogram_bins" where
  "histogram_binning bc vals =
     (let bins = max 5 (min (case bc of None \<Rightarrow> 12 | Some c \<Rightarrow> if c = 0 then 12 else c) 50);
          mn = foldl min 0 vals;
          mx = foldl max 1 vals;
          step = (if (mx - mn) / bins = 0 then 1 else (mx - mn) / bins)
      in if bins \<noteq> of_int \<lfloor>bins\<rfloor> then Inl RangeError
         else Inr \<lparr>hb_bins = nat \<lfloor>bins\<rfloor>, hb_min = mn, hb_max = mx, hb_step = step,
                   hb_counts =
                     foldl (\<lambda>counts v.
                        let idx0 = \<lfloor>(v - mn) / step\<rfloor>;
                            idx1 = (if idx0 \<ge> \<lfloor>bins\<rfloor> then \<lfloor>bins\<rfloor> - 1 else idx0);
                            idx = (if idx1 < 0 then 0 else idx1)
                        in counts[nat idx := counts ! nat idx + 1])
                       (replicate (nat \<lfloor>bins\<rfloor>) 0) vals\<rparr>)"

definition histogram_of :: "host \<Rightarrow> ManifestData option \<Rightarrow> ChartSpec
    \<Rightarrow> error + histogram_bins" where
  "histogram_of h manifestData spec =
     bindE (applyFilters h (getSourceRows manifestData (source spec)) (filters spec)) (\<lambda>rows.
     bindE (histogram_values h rows (xField spec)) (\<lambda>vals.
     histogram_binning (binCount spec) vals))"

subsection \<open>The chart data shaper (\<^verbatim>\<open>generateChartDataFromSpec\<close>)\<close>

record data_point =
  dp_name :: string
  dp_value :: rat

text \<open>The map \<^verbatim>\<open>groups\<close>, from category key to the values of its rows.\<close>

fun groups_set :: "(string \<times> 'v) list \<Rightarrow> string \<Rightarrow> 'v \<Rightarrow> (string \<times> 'v) list" where
  "groups_set [] k v = [(k, v)]"
| "groups_set ((k', v') # m) k v = (if k' = k then (k', v) # m else (k', v') # groups_set m k v)"

definition row_key :: "host \<Rightarrow> jsval \<Rightarrow> fieldv \<Rightarrow> error + string" where
  "row_key h row x =
     bindE (getValueByPath h row x) (\<lambda>keyRaw.
     if keyRaw = Val JUndefined \<or> keyRaw = Val JNull \<or> keyRaw = Val (JStr []) then Inr []
     else any_to_string h keyRaw)"

text \<open>
  The value of a row (lines 552 to 563), with its chain of fallbacks. The field \<open>y\<close> is
  never absent here; a built-in object has no \<^verbatim>\<open>endsWith\<close>.
\<close>

definition row_value :: "host \<Rightarrow> jsval \<Rightarrow> fieldv \<Rightarrow> error + jsnum" where
  "row_value h row y =
     bindE (getValueByPath h row y) (\<lambda>raw0.
     bindE (if raw0 = Val JUndefined \<or> (any_typeof_object h raw0 \<and> raw0 \<noteq> Val JNull)
            then bindE (case y of
                          FStr s \<Rightarrow> if ends_with s ''weight''
                                    then getValueByPath h row (FStr (s @ ''.value''))
                                    else Inr raw0
                        | FUndef \<Rightarrow> Inr raw0
                        | FHost \<Rightarrow> Inl TypeError) (\<lambda>raw1.
                 if raw1 = Val JUndefined
                 then bindE (getValueByPath h row (FStr ''weight.value'')) (\<lambda>a.
                      if any_nullish a then getValueByPath h row (FStr ''weight_kg'') else Inr a)
                 else Inr raw1)
            else Inr raw0) (\<lambda>raw.
     let yValRaw = (if any_nullish raw
                    then Val (if y = FStr ''value'' then JNum 1 else JNum 0) else raw) in
     case yValRaw of
       Val (JNum r) \<Rightarrow> Inr (Fin r)
     | _ \<Rightarrow> bindE (any_to_number h yValRaw) (\<lambda>n.
             Inr (if n = NaN \<or> n = Fin 0 then Fin 0 else n))))"

text \<open>
  The body of the loop over the rows (lines 549 to 569); the state is the map
  \<^verbatim>\<open>groups\<close> and the counter \<^verbatim>\<open>undefinedName\<close>. The counter \<^verbatim>\<open>undefinedValue\<close> is
  only logged.
\<close>

definition collect_row :: "host \<Rightarrow> fieldv \<Rightarrow> fieldv \<Rightarrow> (string \<times> rat list) list \<times> nat
    \<Rightarrow> jsval \<Rightarrow> error + ((string \<times> rat list) list \<times> nat)" where
  "collect_row h x y st row =
     bindE (row_key h row x) (\<lambda>key.
     bindE (row_value h row y) (\<lambda>yVal.
     let undefinedName = (if key = [] \<or> key = ''undefined'' then snd st + 1 else snd st);
         arr = (case map_of (fst st) key of Some a \<Rightarrow> a | None \<Rightarrow> [])
     in Inr (groups_set (fst st) key (arr @ [case yVal of Fin r \<Rightarrow> r | _ \<Rightarrow> 0]),
             undefinedName)))"

definition collect_groups :: "host \<Rightarrow> ManifestData option \<Rightarrow> ChartSpec
    \<Rightarrow> error + ((string \<times> rat list) list \<times> nat)" where
  "collect_groups h manifestData specN =
     bindE (applyFilters h (getSourceRows manifestData (source specN)) (filters specN))
       (\<lambda>sourceRows.
     foldE (collect_row h (xField specN) (f_or (yField specN) (FStr ''value'')))
       ([], 0) sourceRows)"

definition aggregate_values :: "Aggregate \<Rightarrow> rat list \<Rightarrow> rat" where
  "aggregate_values agg vals =
     (if agg = AggCount then of_nat (length vals)
      else if agg = AggAvg
      then (if length vals \<noteq> 0 then foldl (\<lambda>a b. a + b) 0 vals / of_nat (length vals) else 0)
      else foldl (\<lambda>a b. a + b) 0 vals)"

text \<open>
  From the groups to the data points (lines 570 to 586): aggregation, the stable sort,
  the first \<open>topN\<close>, and the cap of 20 when no \<open>topN\<close> is given.
\<close>

definition shape_data :: "ChartSpec \<Rightarrow> (string \<times> rat list) list \<Rightarrow> data_point list" where
  "shape_data specN groups =
     (let agg = (case aggregate specN of None \<Rightarrow> AggSum | Some a \<Rightarrow> a);
          data0 = map (\<lambda>g. \<lparr>dp_name = (if fst g = [] then ''Unknown'' else fst g),
                              dp_value = aggregate_values agg (snd g)\<rparr>) groups;
          data1 = (case sort specN of
                     None \<Rightarrow> data0
                   | Some d \<Rightarrow> if d = Asc then sort_key dp_value data0
                              else sort_key (\<lambda>p. - dp_value p) data0);
          data2 = (case topN specN of
                     None \<Rightarrow> data1
                   | Some t \<Rightarrow> if t \<noteq> 0 \<and> 0 < t then take (nat \<lfloor>t\<rfloor>) data1 else data1)
      in if (topN specN = None \<or> topN specN = Some 0) \<and> 20 < length data2
         then take 20 data2 else data2)"

text \<open>
  The shaper. It calls itself once more when the rows without a category outnumber
  half of the data points and the category field is not the default of the source.
\<close>

function generateChartDataFromSpec :: "host \<Rightarrow> ManifestData option \<Rightarrow> ChartSpec
    \<Rightarrow> error + data_point list" where
  "generateChartDataFromSpec h manifestData spec =
     (case normalizeSpecFields spec of
        Inl e \<Rightarrow> Inl e
      | Inr specN \<Rightarrow>
          (case collect_groups h manifestData specN of
             Inl e \<Rightarrow> Inl e
           | Inr r \<Rightarrow>
               if of_nat (length (shape_data specN (fst r))) / (2 :: rat) < of_nat (snd r) \<and>
                  FStr (default_xField (source specN)) \<noteq> xField specN
               then generateChartDataFromSpec h manifestData
                      (specN\<lparr>xField := FStr (default_xField (source specN))\<rparr>)
               else Inr (shape_data specN (fst r))))"
  by pat_completeness auto
termination
proof (relation "measure (\<lambda>(h, md, spec).
         case normalizeSpecFields spec of
           Inl e \<Rightarrow> 0
         | Inr specN \<Rightarrow> if xField specN = FStr (default_xField (source specN)) then 0 else 1)")
  show "wf (measure (\<lambda>(h, md, spec).
         case normalizeSpecFields spec of
           Inl e \<Rightarrow> 0
         | Inr specN \<Rightarrow>
             if xField specN = FStr (default_xField (source specN)) then 0 else (1 :: nat)))"
    by simp
next
  fix h :: host and manifestData :: "ManifestData option" and spec specN :: ChartSpec
    and r :: "(string \<times> rat list) list \<times> nat"
  assume n: "normalizeSpecFields spec = Inr specN"
    and c: "of_nat (length (shape_data specN (fst r))) / (2 :: rat) < of_nat (snd r) \<and>
            FStr (default_xField (source specN)) \<noteq> xField specN"
  have beq: "(bindE m f = Inr v) = (\<exists>u. m = Inr u \<and> f u = Inr v)"
    for m :: "error + fieldv" and f :: "fieldv \<Rightarrow> error + ChartSpec" and v
    by (cases m) (simp_all add: bindE_def)
  have src: "source (default_treemap (default_stacked (default_heatmap (default_y (default_x s)))))
               = source s" for s
  proof -
    have "source (default_x s) = source s" for s by (simp add: default_x_def)
    moreover have "source (default_y s) = source s" for s by (simp add: default_y_def)
    moreover have "source (default_heatmap s) = source s" for s
      by (simp add: default_heatmap_def Let_def)
    moreover have "source (default_stacked s) = source s" for s
      by (simp add: default_stacked_def)
    moreover have "source (default_treemap s) = source s" for s
      by (simp add: default_treemap_def Let_def)
    ultimately show ?thesis by simp
  qed
  have xf: "xField (default_treemap (default_stacked (default_heatmap (default_y (default_x s)))))
              = xField s" if "field_truthy (xField s)" for s
  proof -
    have "xField (default_x s) = xField s" using that by (simp add: default_x_def)
    moreover have "xField (default_y s) = xField s" for s by (simp add: default_y_def)
    moreover have "xField (default_heatmap s) = xField s" for s
      by (simp add: default_heatmap_def Let_def)
    moreover have "xField (default_stacked s) = xField s" for s
      by (simp add: default_stacked_def)
    moreover have "xField (default_treemap s) = xField s" for s
      by (simp add: default_treemap_def Let_def)
    ultimately show ?thesis by simp
  qed
  have t: "default_xField src \<noteq> []" for src
    by (simp add: default_xField_def)
  have d: "normalizeFieldPath (FStr (default_xField src)) src = Inr (FStr (default_xField src))"
    for src
    by (cases src)
       (simp_all add: normalizeFieldPath_def default_xField_def alias_map_def toLowerCase_def
          lower_char_def Let_def)
  have "xField s2 = FStr (default_xField (source s2))"
    if "normalizeSpecFields (specN\<lparr>xField := FStr (default_xField (source specN))\<rparr>) = Inr s2"
    for s2
  proof -
    from that obtain s1 where
      s2: "s2 = default_treemap (default_stacked (default_heatmap (default_y (default_x s1))))"
      and x1: "xField s1 = FStr (default_xField (source specN))"
      and s1: "source s1 = source specN"
      unfolding normalizeSpecFields_def Let_def beq
      by (clarsimp simp: d f_or_def t)
    from x1 have "field_truthy (xField s1)" by (simp add: t)
    from xf[OF this] x1 s1 show ?thesis unfolding s2 src by simp
  qed
  then have "(case normalizeSpecFields (specN\<lparr>xField := FStr (default_xField (source specN))\<rparr>) of
                Inl e \<Rightarrow> 0
              | Inr s2 \<Rightarrow> if xField s2 = FStr (default_xField (source s2)) then 0 else (1 :: nat))
             = 0"
    by (cases "normalizeSpecFields (specN\<lparr>xField := FStr (default_xField (source specN))\<rparr>)")
       simp_all
  with n c
  show "((h, manifestData, specN\<lparr>xField := FStr (default_xField (source specN))\<rparr>),
         (h, manifestData, spec))
          \<in> measure (\<lambda>(h, md, spec).
               case normalizeSpecFields spec of
                 Inl e \<Rightarrow> 0
               | Inr specN \<Rightarrow>
                   if xField specN = FStr (default_xField (source specN)) then 0 else 1)"
    by auto
qed

declare generateChartDataFromSpec.simps [simp del]

section \<open>Invariants of the aggregation\<close>

text \<open>
  What every accumulator satisfies after every round of either loop: the per-ULD
  pieces and weights add up to the accumulator's totals, and each house shipment was
  built from one housebill by \<^const>\<open>mk_house\<close>.
\<close>

definition acc_inv :: "host \<Rightarrow> jsval \<Rightarrow> jsval \<Rightarrow> accumulator \<Rightarrow> bool" where
  "acc_inv h dep arr a \<longleftrightarrow>
     sum_list (map (\<lambda>e. t_pieces (snd e)) (uldIdToTotals a)) = totalPieces a \<and>
     sum_list (map (\<lambda>e. t_weightKg (snd e)) (uldIdToTotals a)) = totalWeightKg a \<and>
     (\<forall>hs \<in> set (houseShipments a). \<exists>hb. hs = mk_house h dep arr hb)"

definition st_inv :: "host \<Rightarrow> jsval \<Rightarrow> jsval \<Rightarrow> (jsval \<times> accumulator) list \<Rightarrow> bool" where
  "st_inv h dep arr st \<longleftrightarrow> (\<forall>e \<in> set st. truthy (fst e) \<and> acc_inv h dep arr (snd e))"

text \<open>A masterbill whose \<^verbatim>\<open>masterbillNumber\<close> is missing (undefined or null) or empty.\<close>

definition awb_missing :: "jsval \<Rightarrow> bool" where
  "awb_missing masterbill \<longleftrightarrow>
     nullish (opt_prop masterbill ''masterbillNumber'') \<or>
     opt_prop masterbill ''masterbillNumber'' = JStr []"


text \<open>
  The masterbills the two loops can meet in a document: those found in each of its
  containers, then those at the top level.
\<close>

definition masterbills_of :: "jsval \<Rightarrow> jsval list" where
  "masterbills_of doc =
     concat (map (\<lambda>c. case find_masterbills c of Inr ms \<Rightarrow> ms | Inl e \<Rightarrow> [])
               (as_array (opt_prop doc ''containers'')))
     @ as_array (opt_prop doc ''masterbills'')"

text \<open>
  Where the house shipments of the map \<^verbatim>\<open>shipmentsByAwb\<close> come from: each was built
  by \<^const>\<open>mk_house\<close> from a housebill of one of the masterbills \<open>M\<close>, and that
  masterbill bears the AWB number of the entry.
\<close>

definition house_inv :: "host \<Rightarrow> jsval \<Rightarrow> jsval \<Rightarrow> jsval set
    \<Rightarrow> (jsval \<times> accumulator) list \<Rightarrow> bool" where
  "house_inv h dep arr M st \<longleftrightarrow>
     (\<forall>e \<in> set st. \<forall>hs \<in> set (houseShipments (snd e)).
        \<exists>mb \<in> M. \<exists>hb \<in> set (as_array (opt_prop mb ''housebills'')).
          same_value (fst e) (nc (opt_prop mb ''masterbillNumber'') (JStr [])) \<and>
          hs = mk_house h dep arr hb)"

section \<open>Example documents\<close>

text \<open>
  An instance of the built-ins for the examples. It is what the language does on
  strings of decimal digits and on natural numbers. It has the method names of the
  prototypes of a current browser engine. A built-in function prints as its source
  text, is not a number, and has its \<^verbatim>\<open>name\<close>; a prototype object prints and counts as
  the empty object, array, string, number zero or boolean false that it is. No other
  property of a built-in is known to this instance (it answers undefined), and the
  examples use none.
\<close>

definition array_proto_names :: "string list" where
  "array_proto_names =
     [''constructor'', ''at'', ''concat'', ''copyWithin'', ''fill'', ''find'', ''findIndex'',
      ''findLast'', ''findLastIndex'', ''lastIndexOf'', ''pop'', ''push'', ''reverse'', ''shift'',
      ''unshift'', ''slice'', ''sort'', ''splice'', ''includes'', ''indexOf'', ''join'', ''keys'',
      ''entries'', ''values'', ''forEach'', ''filter'', ''flat'', ''flatMap'', ''map'', ''every'',
      ''some'', ''reduce'', ''reduceRight'', ''toLocaleString'', ''toString'', ''toReversed'',
      ''toSorted'', ''toSpliced'', ''with'']"

definition string_proto_names :: "string list" where
  "string_proto_names =
     [''constructor'', ''anchor'', ''at'', ''big'', ''blink'', ''bold'', ''charAt'',
      ''charCodeAt'', ''codePointAt'', ''concat'', ''endsWith'', ''fontcolor'', ''fontsize'',
      ''fixed'', ''includes'', ''indexOf'', ''isWellFormed'', ''italics'', ''lastIndexOf'',
      ''link'', ''localeCompare'', ''match'', ''matchAll'', ''normalize'', ''padEnd'',
      ''padStart'', ''repeat'', ''replace'', ''replaceAll'', ''search'', ''slice'', ''small'',
      ''split'', ''strike'', ''sub'', ''substr'', ''substring'', ''sup'', ''startsWith'',
      ''toString'', ''toWellFormed'', ''trim'', ''trimStart'', ''trimLeft'', ''trimEnd'',
      ''trimRight'', ''toLocaleLowerCase'', ''toLocaleUpperCase'', ''toLowerCase'',
      ''toUpperCase'', ''valueOf'']"

definition number_proto_names :: "string list" where
  "number_proto_names =
     [''constructor'', ''toExponential'', ''toFixed'', ''toPrecision'', ''toString'',
      ''valueOf'', ''toLocaleString'']"

definition boolean_proto_names :: "string list" where
  "boolean_proto_names = [''constructor'', ''toString'', ''valueOf'']"

text \<open>The \<^verbatim>\<open>name\<close> of the function that is the member \<open>k\<close> of the prototype \<open>p\<close>.\<close>

definition function_name :: "proto \<Rightarrow> string \<Rightarrow> string" where
  "function_name p k =
     (if k = ''constructor''
      then (case p of ObjectProto \<Rightarrow> ''Object'' | ArrayProto \<Rightarrow> ''Array''
            | StringProto \<Rightarrow> ''String'' | NumberProto \<Rightarrow> ''Number''
            | BooleanProto \<Rightarrow> ''Boolean'')
      else if k = ''trimLeft'' then ''trimStart''
      else if k = ''trimRight'' then ''trimEnd''
      else k)"

definition demo_host :: host where
  "demo_host =
     \<lparr>Number_str = (\<lambda>s. if list_all is_digit s
                          then Fin (of_nat (foldl (\<lambda>n c. 10 * n + ((of_char c :: nat) - 48)) 0 s))
                          else NaN),
      String_num = (\<lambda>r. if 0 \<le> r \<and> r = of_int \<lfloor>r\<rfloor> then key_of_index (nat \<lfloor>r\<rfloor>) else ''?''),
      Proto_names =
        (\<lambda>p. case p of
               ObjectProto \<Rightarrow> []
             | ArrayProto \<Rightarrow> array_proto_names
             | StringProto \<Rightarrow> string_proto_names
             | NumberProto \<Rightarrow> number_proto_names
             | BooleanProto \<Rightarrow> boolean_proto_names),
      Native_get =
        (\<lambda>b k. case b of
                 Member p m \<Rightarrow>
                   Inr (Val (if k = ''name'' then JStr (function_name p m) else JUndefined))
               | _ \<Rightarrow> Inr (Val JUndefined)),
      Native_object = (\<lambda>n. False),
      Native_string =
        (\<lambda>b. case b of
               Member p m \<Rightarrow>
                 Inr (''function '' @ function_name p m @ ''() { [native code] }'')
             | Prototype p \<Rightarrow>
                 Inr (case p of ObjectProto \<Rightarrow> ''[object Object]'' | ArrayProto \<Rightarrow> []
                      | StringProto \<Rightarrow> [] | NumberProto \<Rightarrow> ''0''
                      | BooleanProto \<Rightarrow> ''false'')
             | HostObject n \<Rightarrow> Inr ''function () { [native code] }''),
      Native_number =
        (\<lambda>b. case b of
               Prototype p \<Rightarrow> Inr (if p = ObjectProto then NaN else Fin 0)
             | _ \<Rightarrow> Inr NaN)\<rparr>"

text \<open>
  The end-to-end scenario of the specification: one container, one masterbill
  \<^verbatim>\<open>AWB1\<close>, one housebill with two pieces of 5 and 7 kg.
\<close>

definition doc1 :: jsval where
  "doc1 =
     JObj 1 [(''manifest'', JObj 2 [(''manifestNo'', JStr ''M1'')]),
       (''containers'', JArr 3 [JObj 4 [(''containerNumber'', JStr ''ULD1''),
          (''masterbills'', JArr 5 [JObj 6 [(''masterbillNumber'', JStr ''AWB1''),
             (''housebills'', JArr 7 [JObj 8 [(''housebillNumber'', JStr ''H1''),
                (''pieces'', JArr 9 [JObj 10 [(''weight'', JNum 5)],
                                     JObj 11 [(''weight'', JNum 7)]])]])]])]])]"

text \<open>
  Two containers that both carry \<^verbatim>\<open>AWB1\<close>. The first masterbill lists three pieces, one
  of them in the other container; a masterbill with an empty number sits between.
\<close>

definition mb_a :: jsval where
  "mb_a = JObj 6 [(''masterbillNumber'', JStr ''AWB1''),
            (''pieces'', JArr 7 [JObj 8 [(''containerNumber'', JStr ''ULD1'')],
                                 JObj 9 [(''containerNumber'', JStr ''ULD2'')],
                                 JObj 10 []]),
            (''housebills'', JArr 11 [JObj 12 [(''housebillNumber'', JStr ''H1''),
               (''pieces'', JArr 13 [JObj 14 [(''weight'', JNum 5)],
                                     JObj 15 [(''weight'', JNum 7)]])]])]"

definition mb_empty :: jsval where
  "mb_empty = JObj 16 [(''masterbillNumber'', JStr []),
                (''housebills'', JArr 17 [JObj 18 [(''housebillNumber'', JStr ''H9''),
                   (''pieces'', JArr 19 [JObj 20 [(''weight'', JNum 100)]])]])]"

definition mb_b :: jsval where
  "mb_b = JObj 23 [(''masterbillNumber'', JStr ''AWB1''),
            (''housebills'', JArr 24 [JObj 25 [(''housebillNumber'', JStr ''H2''),
               (''pieces'', JArr 26 [JObj 27 [(''weight'', JStr ''3'')]])]])]"

text \<open>The only housebill of \<^const>\<open>mb_b\<close>.\<close>

definition hb_h2 :: jsval where
  "hb_h2 = JObj 25 [(''housebillNumber'', JStr ''H2''),
             (''pieces'', JArr 26 [JObj 27 [(''weight'', JStr ''3'')]])]"

definition doc2 :: jsval where
  "doc2 =
     JObj 1 [(''manifest'', JObj 2 [(''manifestNo'', JStr ''M2''),
                                    (''pointOfLoading'', JStr ''TLV''),
                                    (''pointOfUnloading'', JStr ''JFK'')]),
       (''containers'', JArr 3
          [JObj 4 [(''containerNumber'', JStr ''ULD1''), (''masterbills'', JArr 5 [mb_a, mb_empty])],
           JObj 21 [(''containerNumber'', JStr ''ULD2''), (''masterbills'', JArr 22 [mb_b])]])]"

text \<open>
  A container without \<^verbatim>\<open>masterbills\<close> or \<^verbatim>\<open>masterbill\<close>, one of whose properties is
  an array that starts with null.
\<close>

definition null_sample_doc :: jsval where
  "null_sample_doc =
     JObj 1 [(''containers'', JArr 2 [JObj 3 [(''containerNumber'', JStr ''ULD1''),
                                              (''items'', JArr 4 [JNull])]])]"

text \<open>What the aggregator returns on the two documents.\<close>

definition manifest1 :: ManifestData where
  "manifest1 =
     \<lparr>manifest_id = ''M1'', manifest_number = ''M1'',
      flight_details =
        \<lparr>flight_number = [], departure_airport = JStr [], arrival_airport = JStr [],
         departure_date = [], arrival_date = []\<rparr>,
      shipments =
        [\<lparr>awb_number = JStr ''AWB1'', pieces = 2,
          weight = \<lparr>w_value = 12, w_unit = ''kg''\<rparr>,
          nature_of_goods = JStr [], special_handling_codes = [],
          storage_instructions = JUndefined,
          uld_contents =
            [\<lparr>uld_id = JStr ''ULD1'', uld_pieces = 2,
              uld_weight = \<lparr>w_value = 12, w_unit = ''kg''\<rparr>\<rparr>],
          house_shipments =
            [\<lparr>hawb_number = JStr ''H1'', customer = JStr [],
              origin = JStr [], destination = JStr [], hs_pieces = 2,
              actual_weight_kg = 12, chargeable_weight_kg = 12,
              remarks = JUndefined\<rparr>]\<rparr>],
      total_pieces = 2, total_weight = \<lparr>w_value = 12, w_unit = ''kg''\<rparr>\<rparr>"

definition house2 :: HouseShipment where
  "house2 =
     \<lparr>hawb_number = JStr ''H2'', customer = JStr [],
      origin = JStr ''TLV'', destination = JStr ''JFK'', hs_pieces = 1,
      actual_weight_kg = 3, chargeable_weight_kg = 3, remarks = JUndefined\<rparr>"

definition shipment2 :: Shipment where
  "shipment2 =
     \<lparr>awb_number = JStr ''AWB1'', pieces = 4,
      weight = \<lparr>w_value = 15, w_unit = ''kg''\<rparr>,
      nature_of_goods = JStr [], special_handling_codes = [],
      storage_instructions = JUndefined,
      uld_contents =
        [\<lparr>uld_id = JStr ''ULD1'', uld_pieces = 2,
          uld_weight = \<lparr>w_value = 8, w_unit = ''kg''\<rparr>\<rparr>,
         \<lparr>uld_id = JStr ''ULD2'', uld_pieces = 2,
          uld_weight = \<lparr>w_value = 7, w_unit = ''kg''\<rparr>\<rparr>],
      house_shipments =
        [\<lparr>hawb_number = JStr ''H1'', customer = JStr [],
          origin = JStr ''TLV'', destination = JStr ''JFK'', hs_pieces = 2,
          actual_weight_kg = 12, chargeable_weight_kg = 12, remarks = JUndefined\<rparr>,
         house2]\<rparr>"

definition manifest2 :: ManifestData where
  "manifest2 =
     \<lparr>manifest_id = ''M2'', manifest_number = ''M2'',
      flight_details =
        \<lparr>flight_number = [], departure_airport = JStr ''TLV'', arrival_airport = JStr ''JFK'',
         departure_date = [], arrival_date = []\<rparr>,
      shipments = [shipment2],
      total_pieces = 4, total_weight = \<lparr>w_value = 15, w_unit = ''kg''\<rparr>\<rparr>"

text \<open>The map \<^verbatim>\<open>shipmentsByAwb\<close> after the first masterbill of \<^const>\<open>doc2\<close>.\<close>

definition state_a :: "(jsval \<times> accumulator) list" where
  "state_a =
     [(JStr ''AWB1'',
       \<lparr>totalPieces = 3, totalWeightKg = 12,
        uldIdToTotals =
          [(JStr ''ULD1'', \<lparr>t_pieces = 2, t_weightKg = 8\<rparr>),
           (JStr ''ULD2'', \<lparr>t_pieces = 1, t_weightKg = 4\<rparr>)],
        houseShipments =
          [\<lparr>hawb_number = JStr ''H1'', customer = JStr [],
            origin = JStr ''TLV'', destination = JStr ''JFK'', hs_pieces = 2,
            actual_weight_kg = 12, chargeable_weight_kg = 12, remarks = JUndefined\<rparr>],
        natureOfGoods = JStr [], shcs = []\<rparr>)]"

text \<open>A manifest of three shipments with 0, 10 and 20 pieces, and its shipment rows.\<close>

definition mk_shipment :: "string \<Rightarrow> nat \<Rightarrow> rat \<Rightarrow> Shipment" where
  "mk_shipment awb n w =
     \<lparr>awb_number = JStr awb, pieces = n, weight = \<lparr>w_value = w, w_unit = ''kg''\<rparr>,
      nature_of_goods = JStr [], special_handling_codes = [],
      storage_instructions = JUndefined, uld_contents = [], house_shipments = []\<rparr>"

definition md_hist :: ManifestData where
  "md_hist =
     \<lparr>manifest_id = ''M3'', manifest_number = ''M3'',
      flight_details =
        \<lparr>flight_number = [], departure_airport = JStr ''TLV'', arrival_airport = JStr ''JFK'',
         departure_date = [], arrival_date = []\<rparr>,
      shipments = [mk_shipment ''A'' 0 0, mk_shipment ''B'' 10 5, mk_shipment ''C'' 20 7],
      total_pieces = 30, total_weight = \<lparr>w_value = 12, w_unit = ''kg''\<rparr>\<rparr>"

definition mk_row :: "string \<Rightarrow> rat \<Rightarrow> rat \<Rightarrow> jsval" where
  "mk_row awb n w =
     JObj 0 [(''awb_number'', JStr awb), (''pieces'', JNum n), (''weight_kg'', JNum w),
             (''weight'', JObj 0 [(''value'', JNum w)]), (''nature_of_goods'', JStr []),
             (''destination'', JStr ''JFK''), (''origin'', JStr ''TLV'')]"

definition base_spec :: ChartSpec where
  "base_spec =
     \<lparr>source = Shipments, chartType = Bar, xField = FStr ''awb'', yField = FUndef,
      yCategoryField = FUndef, valueField = FUndef, seriesField = FUndef, sizeField = FUndef,
      parentField = FUndef, childField = FUndef, aggregate = None, title = None,
      filters = None, topN = None, sort = None, unit_label = None, binCount = None,
      stack = None\<rparr>"

text \<open>The histogram of the pieces with \<^verbatim>\<open>binCount: 2\<close>.\<close>

definition spec_hist :: ChartSpec where
  "spec_hist = base_spec\<lparr>chartType := Histogram, xField := FStr ''pieces'', binCount := Some 2\<rparr>"

definition hist5 :: histogram_bins where
  "hist5 = \<lparr>hb_bins = 5, hb_min = 0, hb_max = 20, hb_step = 4, hb_counts = [1, 0, 1, 0, 1]\<rparr>"



text \<open>A chart by a name that every row inherits.\<close>

definition spec_toString :: ChartSpec where
  "spec_toString = base_spec\<lparr>xField := FStr ''toString''\<rparr>"

definition spec_toString_n :: ChartSpec where
  "spec_toString_n = base_spec\<lparr>xField := FStr ''toString'', yField := FStr ''weight.value''\<rparr>"

definition pieces_gt0 :: ChartFilter where
  "pieces_gt0 = \<lparr>f_field = ''pieces'', f_op = OpGt, f_value = JNum 0\<rparr>"

definition dest_contains :: ChartFilter where
  "dest_contains = \<lparr>f_field = ''destination'', f_op = OpContains, f_value = JStr ''jf''\<rparr>"

text \<open>One filter for each of the other operators, and one on an inherited name.\<close>

definition awb_eq_B :: ChartFilter where
  "awb_eq_B = \<lparr>f_field = ''awb_number'', f_op = OpEq, f_value = JStr ''B''\<rparr>"

definition awb_neq_B :: ChartFilter where
  "awb_neq_B = \<lparr>f_field = ''awb_number'', f_op = OpNeq, f_value = JStr ''B''\<rparr>"

definition awb_in_AC :: ChartFilter where
  "awb_in_AC = \<lparr>f_field = ''awb_number'', f_op = OpIn,
                 f_value = JArr 40 [JStr ''A'', JStr ''C'']\<rparr>"

definition pieces_gte10 :: ChartFilter where
  "pieces_gte10 = \<lparr>f_field = ''pieces'', f_op = OpGte, f_value = JNum 10\<rparr>"

definition pieces_lt10 :: ChartFilter where
  "pieces_lt10 = \<lparr>f_field = ''pieces'', f_op = OpLt, f_value = JNum 10\<rparr>"

definition pieces_lte10 :: ChartFilter where
  "pieces_lte10 = \<lparr>f_field = ''pieces'', f_op = OpLte, f_value = JStr ''10''\<rparr>"

definition constructor_undefined :: ChartFilter where
  "constructor_undefined = \<lparr>f_field = ''constructor'', f_op = OpEq, f_value = JUndefined\<rparr>"

text \<open>A record with a \<^verbatim>\<open>{value, unit}\<close> wrapper and a nested record.\<close>

definition row_w :: jsval where
  "row_w = JObj 30 [(''weight'', JObj 31 [(''value'', JStr ''12''), (''unit'', JStr ''kg'')]),
                    (''a'', JObj 32 [(''b'', JNum 5)])]"

text \<open>The record \<^verbatim>\<open>{a: 1}\<close>.\<close>

definition record_a :: jsval where
  "record_a = JObj 1 [(''a'', JNum 1)]"


section \<open>The specification's wording of the field accessor\<close>

text \<open>The dotted path of a list of segments: \<^verbatim>\<open>k1.k2.k3\<close>.\<close>

fun dotted :: "string list \<Rightarrow> string" where
  "dotted [] = []"
| "dotted [k] = k"
| "dotted (k # k' # ks) = k @ CHR ''.'' # dotted (k' # ks)"

text \<open>
  The nested value of a record: the field named by the first segment, then on in the
  value of that field. It is undefined when a segment names no field of the record
  reached, or when what is reached is no record and a segment is left.
\<close>

fun nested_value :: "jsval \<Rightarrow> string list \<Rightarrow> jsval" where
  "nested_value v [] = v"
| "nested_value (JObj a ps) (k # ks) =
     (case map_of ps k of Some x \<Rightarrow> nested_value x ks | None \<Rightarrow> JUndefined)"
| "nested_value v (k # ks) = JUndefined"

text \<open>
  The paths on which following the segments stays within own fields: every segment is
  read from a record, or from a number or a boolean (which have no fields), or from
  null or undefined; a segment that names no field of what it is read from is not a
  name that it inherits; and the value at the end is not an array.
\<close>

fun own_path :: "host \<Rightarrow> jsval \<Rightarrow> string list \<Rightarrow> bool" where
  "own_path h v [] = (\<not> isArray v)"
| "own_path h (JObj a ps) (k # ks) =
     (case map_of ps k of Some x \<Rightarrow> own_path h x ks | None \<Rightarrow> k \<notin> set object_proto_names)"
| "own_path h (JNum n) (k # ks) =
     (k \<notin> set (Proto_names h NumberProto) \<and> k \<notin> set object_proto_names)"
| "own_path h (JBool b) (k # ks) =
     (k \<notin> set (Proto_names h BooleanProto) \<and> k \<notin> set object_proto_names)"
| "own_path h JUndefined (k # ks) = True"
| "own_path h JNull (k # ks) = True"
| "own_path h v (k # ks) = False"

text \<open>
  The number of a \<^verbatim>\<open>{value, unit}\<close> wrapper: the \<open>value\<close> field of a record when it is a
  number, or a string that reads as a finite number.
\<close>

definition wrapped_number :: "host \<Rightarrow> jsval \<Rightarrow> rat option" where
  "wrapped_number h r =
     (case r of
        JObj a ps \<Rightarrow>
          (case map_of ps ''value'' of
             Some (JNum n) \<Rightarrow> Some n
           | Some (JStr s) \<Rightarrow> (case Number_str h s of Fin n \<Rightarrow> Some n | _ \<Rightarrow> None)
           | _ \<Rightarrow> None)
      | _ \<Rightarrow> None)"

section \<open>The specification's wording of the filter predicates\<close>

text \<open>
  \<^verbatim>\<open>x === w\<close> for a resolved value \<open>x\<close> and a value \<open>w\<close> of the filter: primitives are
  compared by value; an array or object is identical only to the array or object at
  the same address; a built-in of the language is identical to no value of a filter.
\<close>

fun identical :: "jsany \<Rightarrow> jsval \<Rightarrow> bool" where
  "identical (Native b) w = False"
| "identical (Val (JArr a xs)) w =
     (case w of JArr b ys \<Rightarrow> a = b | JObj b qs \<Rightarrow> a = b | _ \<Rightarrow> False)"
| "identical (Val (JObj a ps)) w =
     (case w of JArr b ys \<Rightarrow> a = b | JObj b qs \<Rightarrow> a = b | _ \<Rightarrow> False)"
| "identical (Val v) w = (v = w)"

text \<open>The string \<open>t\<close> occurs in \<open>s\<close>: at some position of \<open>s\<close>, the next characters are \<open>t\<close>.\<close>

definition occurs_in :: "string \<Rightarrow> string \<Rightarrow> bool" where
  "occurs_in t s = list_ex (\<lambda>i. take (length t) (drop i s) = t) [0..<Suc (length s)]"

text \<open>
  The order of the numbers of the language: minus infinity, the finite numbers in
  their order, plus infinity; not-a-number is below or above nothing.
\<close>

definition num_less :: "jsnum \<Rightarrow> jsnum \<Rightarrow> bool" where
  "num_less a b =
     (case a of
        Fin x \<Rightarrow> (case b of Fin y \<Rightarrow> x < y | PosInf \<Rightarrow> True | _ \<Rightarrow> False)
      | NegInf \<Rightarrow> (case b of Fin y \<Rightarrow> True | PosInf \<Rightarrow> True | _ \<Rightarrow> False)
      | _ \<Rightarrow> False)"

definition num_less_eq :: "jsnum \<Rightarrow> jsnum \<Rightarrow> bool" where
  "num_less_eq a b = (a \<noteq> NaN \<and> b \<noteq> NaN \<and> \<not> num_less b a)"

text \<open>
  Whether the predicate of an operator holds of the resolved value \<open>v\<close> and the
  filter's value \<open>w\<close>, given what the coercions return: \<open>t\<close> is \<^verbatim>\<open>String(w)\<close>, \<open>a\<close> is
  \<^verbatim>\<open>Number(v)\<close> and \<open>b\<close> is \<^verbatim>\<open>Number(w)\<close>.
\<close>

fun holds :: "filter_op \<Rightarrow> jsany \<Rightarrow> jsval \<Rightarrow> string \<Rightarrow> jsnum \<Rightarrow> jsnum \<Rightarrow> bool" where
  "holds OpEq v w t a b = identical v w"
| "holds OpNeq v w t a b = (\<not> identical v w)"
| "holds OpContains v w t a b =
     (case v of Val (JStr s) \<Rightarrow> occurs_in (toLowerCase t) (toLowerCase s) | _ \<Rightarrow> False)"
| "holds OpIn v w t a b = (case w of JArr i xs \<Rightarrow> list_ex (identical v) xs | _ \<Rightarrow> False)"
| "holds OpGt v w t a b = num_less b a"
| "holds OpGte v w t a b = num_less_eq b a"
| "holds OpLt v w t a b = num_less a b"
| "holds OpLte v w t a b = num_less_eq a b"

section \<open>Basic facts\<close>

lemma bindE_Inr [simp]: "bindE (Inr v) f = f v" by (simp add: bindE_def)
lemma bindE_Inl [simp]: "bindE (Inl e) f = Inl e" by (simp add: bindE_def)

lemma bindE_eq_Inr: "bindE m f = Inr r \<longleftrightarrow> (\<exists>v. m = Inr v \<and> f v = Inr r)"
  by (cases m) auto

lemma foldl_add_nat: "foldl (\<lambda>sum s. sum + f s) a xs = (a::nat) + sum_list (map f xs)"
  by (induction xs arbitrary: a) auto

lemma foldl_add_rat: "foldl (\<lambda>sum s. sum + f s) a xs = (a::rat) + sum_list (map f xs)"
  by (induction xs arbitrary: a) auto

lemma foldE_invariant:
  assumes step: "\<And>s x s'. P s \<Longrightarrow> x \<in> set xs \<Longrightarrow> f s x = Inr s' \<Longrightarrow> P s'"
    and "P s" and "foldE f s xs = Inr r"
  shows "P r"
  using assms
proof (induction xs arbitrary: s)
  case Nil
  then show ?case by simp
next
  case (Cons x xs)
  from Cons.prems(3) obtain s' where a: "f s x = Inr s'" and b: "foldE f s' xs = Inr r"
    by (auto simp: bindE_eq_Inr)
  have Ps': "P s'" using Cons.prems(1)[OF Cons.prems(2) _ a] by simp
  show ?case
  proof (rule Cons.IH[OF _ Ps' b])
    fix t y t' assume "P t" "y \<in> set xs" "f t y = Inr t'"
    then show "P t'" using Cons.prems(1)[of t y t'] by simp
  qed
qed

lemma foldl_invariant:
  assumes step: "\<And>s x. P s \<Longrightarrow> x \<in> set xs \<Longrightarrow> P (f s x)" and "P s"
  shows "P (foldl f s xs)"
  using assms by (induction xs arbitrary: s) auto

text \<open>Sums over a map after one \<open>set\<close>.\<close>

section \<open>Conservation in the allocation loop\<close>

lemma map_set_sum:
  fixes f :: "'v \<Rightarrow> 'n::comm_monoid_add"
  shows "sum_list (map (\<lambda>e. f (snd e)) (map_set m k v))
           + (case map_get m k of Some v' \<Rightarrow> f v' | None \<Rightarrow> 0)
         = sum_list (map (\<lambda>e. f (snd e)) m) + f v"
proof (induction m)
  case Nil
  then show ?case by simp
next
  case (Cons a m)
  show ?case
  proof (cases "same_value (fst a) k")
    case True
    then show ?thesis by (cases a) (simp add: add_ac)
  next
    case False
    then show ?thesis using Cons.IH by (cases a) (simp add: add.assoc)
  qed
qed

lemma map_set_mem:
  "e \<in> set (map_set m k v) \<Longrightarrow> e \<in> set m \<or> snd e = v"
  by (induction m) (auto split: if_splits)

lemma map_get_mem: "map_get m k = Some v \<Longrightarrow> v \<in> snd ` set m"
  by (induction m) (auto split: if_splits)

lemma allocate_pieces:
  "sum_list (map (\<lambda>e. t_pieces (snd e)) (allocate T W totals e))
     = sum_list (map (\<lambda>e. t_pieces (snd e)) totals) + snd e"
proof (cases "map_get totals (fst e)")
  case None
  then show ?thesis
    using map_set_sum[of t_pieces totals "fst e" "\<lparr>t_pieces = snd e, t_weightKg = (of_nat (snd e) / of_nat T) * W\<rparr>"]
    by (simp add: allocate_def Let_def)
next
  case (Some t)
  then show ?thesis
    using map_set_sum[of t_pieces totals "fst e"
        "\<lparr>t_pieces = t_pieces t + snd e, t_weightKg = t_weightKg t + (of_nat (snd e) / of_nat T) * W\<rparr>"]
    by (simp add: allocate_def Let_def)
qed

lemma allocate_weight:
  "sum_list (map (\<lambda>e. t_weightKg (snd e)) (allocate T W totals e))
     = sum_list (map (\<lambda>e. t_weightKg (snd e)) totals) + (of_nat (snd e) / of_nat T) * W"
proof (cases "map_get totals (fst e)")
  case None
  then show ?thesis
    using map_set_sum[of t_weightKg totals "fst e" "\<lparr>t_pieces = snd e, t_weightKg = (of_nat (snd e) / of_nat T) * W\<rparr>"]
    by (simp add: allocate_def Let_def)
next
  case (Some t)
  then show ?thesis
    using map_set_sum[of t_weightKg totals "fst e"
        "\<lparr>t_pieces = t_pieces t + snd e, t_weightKg = t_weightKg t + (of_nat (snd e) / of_nat T) * W\<rparr>"]
    by (simp add: allocate_def Let_def)
qed

lemma count_step_sum:
  "sum_list (map snd (map_set m u ((case map_get m u of None \<Rightarrow> 0 | Some n \<Rightarrow> n) + (c::nat))))
     = sum_list (map snd m) + c"
  using map_set_sum[of "\<lambda>n. n" m u "(case map_get m u of None \<Rightarrow> 0 | Some n \<Rightarrow> n) + c"]
  by (cases "map_get m u") simp_all

lemma foldl_sum_step:
  assumes "\<And>m p. sum_list (map snd (f m p)) = sum_list (map snd m) + (1::nat)"
  shows "sum_list (map snd (foldl f m ps)) = sum_list (map snd m) + length ps"
  by (induction ps arbitrary: m) (simp_all add: assms)

lemma count_fold_sum:
  "sum_list (map snd (foldl (\<lambda>m p.
             let uldFromPiece = nc (opt_prop p ''containerNumber'') dflt;
                 prev = (case map_get m uldFromPiece of Some n \<Rightarrow> n | None \<Rightarrow> 0)
             in map_set m uldFromPiece (prev + 1)) m piecesArray))
         = sum_list (map snd m) + length piecesArray"
  by (rule foldl_sum_step) (simp only: Let_def count_step_sum)

lemma uldPieceCounts_sum:
  "sum_list (map snd (uldPieceCounts_of dflt piecesArray (piecesCount_of piecesArray housebills)))
     = piecesCount_of piecesArray housebills"
proof (cases "0 < length piecesArray")
  case True
  with count_fold_sum[of dflt "[]" piecesArray] show ?thesis
    by (simp add: uldPieceCounts_of_def piecesCount_of_def)
next
  case False
  then show ?thesis by (simp add: uldPieceCounts_of_def)
qed

lemma isArray_opt_prop: "isArray (opt_prop v k) \<Longrightarrow> get_prop v k = opt_prop v k"
  by (auto simp: opt_prop_def split: if_splits)

lemma no_pieces_no_weight:
  assumes "piecesCount_of piecesArray housebills = 0"
  shows "totalHouseWeight_of h housebills = 0"
proof -
  have z: "\<forall>hb \<in> set housebills. as_array (opt_prop hb ''pieces'') = []"
  proof
    fix hb assume hb: "hb \<in> set housebills"
    from assms have "piecesArray = []" and
      s: "sum_list (map (\<lambda>hb. if isArray (opt_prop hb ''pieces'')
                              then length (as_array (get_prop hb ''pieces'')) else 0) housebills) = 0"
      by (auto simp: piecesCount_of_def foldl_add_nat split: if_splits)
    from s hb have "(if isArray (opt_prop hb ''pieces'')
                              then length (as_array (get_prop hb ''pieces'')) else 0) = 0"
      by auto
    then show "as_array (opt_prop hb ''pieces'') = []"
      by (cases "opt_prop hb ''pieces''") (auto simp: isArray_opt_prop split: if_splits)
  qed
  have "sum_list (map (\<lambda>hb. foldl (\<lambda>s p. s + asNumber h (opt_prop p ''weight'')) 0
                             (as_array (opt_prop hb ''pieces''))) housebills) = 0"
    using z by (induction housebills) auto
  then show ?thesis by (simp add: totalHouseWeight_of_def foldl_add_rat)
qed


lemma map_set_mem2:
  "e \<in> set (map_set m k v) \<Longrightarrow>
     e \<in> set m \<or> (snd e = v \<and> (fst e = k \<or> fst e \<in> fst ` set m))"
proof (induction m)
  case Nil
  then show ?case by simp
next
  case (Cons a m)
  then show ?case by (cases a) (force split: if_splits)
qed

lemma foldE_log:
  "foldE (\<lambda>s x. bindE (g x) (\<lambda>_. Inr (f s x))) s xs = Inr r \<Longrightarrow> r = foldl f s xs"
proof (induction xs arbitrary: s)
  case Nil
  then show ?case by simp
next
  case (Cons x xs)
  from Cons.prems obtain u where "g x = Inr u"
    and "foldE (\<lambda>s x. bindE (g x) (\<lambda>_. Inr (f s x))) (f s x) xs = Inr r"
    by (cases "g x") simp_all
  then show ?case using Cons.IH by simp
qed

lemma foldl_allocate_pieces:
  "sum_list (map (\<lambda>e. t_pieces (snd e)) (foldl (allocate T W) totals cs))
     = sum_list (map (\<lambda>e. t_pieces (snd e)) totals) + sum_list (map snd cs)"
  by (induction cs arbitrary: totals) (simp_all add: allocate_pieces)

lemma foldl_allocate_weight:
  "sum_list (map (\<lambda>e. t_weightKg (snd e)) (foldl (allocate T W) totals cs))
     = sum_list (map (\<lambda>e. t_weightKg (snd e)) totals)
       + (of_nat (sum_list (map snd cs)) / of_nat T) * W"
  by (induction cs arbitrary: totals)
     (simp_all add: allocate_weight add_divide_distrib distrib_right)

lemma allocation_total:
  "(of_nat (piecesCount_of ps hbs)
      / of_nat (totalPiecesForAllocation_of (uldPieceCounts_of d ps (piecesCount_of ps hbs))))
     * totalHouseWeight_of h hbs = totalHouseWeight_of h hbs"
proof (cases "piecesCount_of ps hbs = 0")
  case True
  then show ?thesis by (simp add: no_pieces_no_weight)
next
  case False
  then show ?thesis
    by (simp add: totalPiecesForAllocation_of_def foldl_add_nat uldPieceCounts_sum Let_def)
qed

lemma foldl_snoc_map: "foldl (\<lambda>acc x. acc @ [f x]) ys xs = ys @ map f xs"
  by (induction xs arbitrary: ys) simp_all

lemma updated_acc_inv:
  assumes base: "acc_inv h dep arr base"
    and "totalPieces a = totalPieces base + piecesCount_of ps hbs"
    and "totalWeightKg a = totalWeightKg base + totalHouseWeight_of h hbs"
    and "uldIdToTotals a =
           foldl (allocate
                   (totalPiecesForAllocation_of (uldPieceCounts_of d ps (piecesCount_of ps hbs)))
                   (totalHouseWeight_of h hbs))
             (uldIdToTotals base) (uldPieceCounts_of d ps (piecesCount_of ps hbs))"
    and "houseShipments a = houseShipments base @ map (mk_house h dep arr) xs"
  shows "acc_inv h dep arr a"
  using assms allocation_total[of ps hbs d h] unfolding acc_inv_def
  by (auto simp: foldl_allocate_pieces foldl_allocate_weight uldPieceCounts_sum)

lemma new_accumulator_inv: "acc_inv h dep arr (new_accumulator mb)"
  by (simp add: acc_inv_def new_accumulator_def)

lemma existing_inv:
  assumes "st_inv h dep arr st"
  shows "acc_inv h dep arr (case map_get st k of Some a \<Rightarrow> a | None \<Rightarrow> new_accumulator mb)"
proof (cases "map_get st k")
  case None
  then show ?thesis by (simp add: new_accumulator_inv)
next
  case (Some a)
  with map_get_mem[OF Some] assms show ?thesis by (auto simp: st_inv_def)
qed

lemma map_set_inv:
  assumes "st_inv h dep arr st" and "truthy k" and "acc_inv h dep arr a"
  shows "st_inv h dep arr (map_set st k a)"
  unfolding st_inv_def
proof
  fix e assume "e \<in> set (map_set st k a)"
  from map_set_mem2[OF this] assms show "truthy (fst e) \<and> acc_inv h dep arr (snd e)"
    by (auto simp: st_inv_def)
qed

lemma process_top_masterbill_inv:
  assumes "st_inv h dep arr st"
  shows "st_inv h dep arr (process_top_masterbill h dep arr st mb)"
proof (cases "truthy (nc (opt_prop mb ''masterbillNumber'') (JStr []))")
  case False
  then show ?thesis using assms by (simp add: process_top_masterbill_def)
next
  case True
  define base where
    "base = (case map_get st (nc (opt_prop mb ''masterbillNumber'') (JStr [])) of
               Some a \<Rightarrow> a | None \<Rightarrow> new_accumulator mb)"
  have b: "acc_inv h dep arr base"
    unfolding base_def by (rule existing_inv[OF assms])
  have "\<exists>a. process_top_masterbill h dep arr st mb
               = map_set st (nc (opt_prop mb ''masterbillNumber'') (JStr [])) a
             \<and> acc_inv h dep arr a"
    using True
    apply (simp add: process_top_masterbill_def Let_def foldl_snoc_map base_def[symmetric])
    apply (rule exI, rule conjI, rule refl)
    apply (rule updated_acc_inv[OF b, where ps = "as_array (opt_prop mb ''pieces'')"
          and hbs = "as_array (opt_prop mb ''housebills'')" and d = "JStr ''UNKNOWN-ULD''"
          and xs = "as_array (opt_prop mb ''housebills'')"])
       apply simp_all
    done
  then show ?thesis using map_set_inv[OF assms True] by auto
qed


lemma foldl_snoc_snd:
  "foldl (\<lambda>acc e. acc @ [f (snd e)]) ys (zip [0..<length xs] xs) = ys @ map f xs"
proof -
  have "foldl (\<lambda>acc e. acc @ [f (snd e)]) ys zs = ys @ map f (map snd zs)" for zs
    by (induction zs arbitrary: ys) simp_all
  from this[of "zip [0..<length xs] xs"] show ?thesis by simp
qed

lemma process_masterbill_inv:
  assumes run: "process_masterbill h dep arr uldId st mb = Inr st'"
    and inv: "st_inv h dep arr st"
  shows "st_inv h dep arr st'"
proof (cases "truthy (nc (opt_prop mb ''masterbillNumber'') (JStr []))")
  case False
  with run have "st' = st" by (simp add: process_masterbill_def)
  with inv show ?thesis by simp
next
  case True
  define k where "k = nc (opt_prop mb ''masterbillNumber'') (JStr [])"
  define base where
    "base = (case map_get st k of Some a \<Rightarrow> a | None \<Rightarrow> new_accumulator mb)"
  define ps where "ps = as_array (opt_prop mb ''pieces'')"
  define hbs where "hbs = as_array (opt_prop mb ''housebills'')"
  define counts where "counts = uldPieceCounts_of uldId ps (piecesCount_of ps hbs)"
  have b: "acc_inv h dep arr base"
    unfolding base_def by (rule existing_inv[OF inv])
  from run True obtain codes totals hss where
    t: "foldE (\<lambda>totals e. bindE (to_string h (fst e)) (\<lambda>_.
               Inr (allocate (totalPiecesForAllocation_of counts) (totalHouseWeight_of h hbs) totals e)))
          (uldIdToTotals base) counts = Inr totals"
    and hs: "foldE (\<lambda>hss e.
                 bindE (to_string h (nc (opt_prop (snd e) ''housebillNumber'')
                          (JStr (''(HB '' @ key_of_index (Suc (fst e)) @ '')'')))) (\<lambda>_.
                   Inr (hss @ [mk_house h dep arr (snd e)])))
               (houseShipments base) (zip [0..<length hbs] hbs) = Inr hss"
    and st': "st' = map_set st k
               (base\<lparr>totalPieces := totalPieces base + piecesCount_of ps hbs,
                     totalWeightKg := totalWeightKg base + totalHouseWeight_of h hbs,
                     shcs := foldl set_add (shcs base) codes,
                     uldIdToTotals := totals, houseShipments := hss\<rparr>)"
    unfolding process_masterbill_def Let_def k_def[symmetric] ps_def[symmetric]
      hbs_def[symmetric] base_def[symmetric] counts_def[symmetric]
    by (simp add: bindE_eq_Inr) blast
  have t': "totals = foldl (allocate (totalPiecesForAllocation_of counts) (totalHouseWeight_of h hbs))
                      (uldIdToTotals base) counts"
    by (rule foldE_log[OF t])
  have "hss = foldl (\<lambda>hss e. hss @ [mk_house h dep arr (snd e)]) (houseShipments base)
                (zip [0..<length hbs] hbs)"
    by (rule foldE_log[OF hs])
  then have hs': "hss = houseShipments base @ map (mk_house h dep arr) hbs"
    by (simp add: foldl_snoc_snd)
  have "acc_inv h dep arr
          (base\<lparr>totalPieces := totalPieces base + piecesCount_of ps hbs,
                totalWeightKg := totalWeightKg base + totalHouseWeight_of h hbs,
                shcs := foldl set_add (shcs base) codes,
                uldIdToTotals := totals, houseShipments := hss\<rparr>)"
    by (rule updated_acc_inv[OF b, where ps = ps and hbs = hbs and d = uldId and xs = hbs])
       (simp_all add: t' hs' counts_def)
  with st' show ?thesis using map_set_inv[OF inv] True by (simp add: k_def)
qed


lemma process_container_inv:
  assumes run: "process_container h dep arr st c = Inr st'" and inv: "st_inv h dep arr (fst st)"
  shows "st_inv h dep arr (fst st')"
proof -
  from run obtain mbs r where
    f: "foldE (process_masterbill h dep arr (nc (opt_prop c ''containerNumber'') (JStr ''N/A'')))
          (fst st) mbs = Inr r" and s: "st' = (r, snd st + length mbs)"
    unfolding process_container_def Let_def by (simp add: bindE_eq_Inr) blast
  have "st_inv h dep arr r"
    by (rule foldE_invariant[where P = "st_inv h dep arr", OF _ inv f])
       (rule process_masterbill_inv)
  with s show ?thesis by simp
qed

lemma aggregate_doc_inv:
  assumes "aggregate_doc h doc = Inr st"
  shows "st_inv h
           (nc (get_prop (nc (opt_prop doc ''manifest'') (JObj 0 [])) ''pointOfLoading'') (JStr []))
           (nc (get_prop (nc (opt_prop doc ''manifest'') (JObj 0 [])) ''pointOfUnloading'') (JStr []))
           st"
    (is "st_inv h ?dep ?arr st")
proof -
  from assms obtain r where
    f: "foldE (process_container h ?dep ?arr) ([], 0) (as_array (opt_prop doc ''containers'')) = Inr r"
    and s0: "Inr (if snd r = 0 \<and> 0 < length (as_array (opt_prop doc ''masterbills''))
                 then foldl (process_top_masterbill h ?dep ?arr) (fst r)
                        (as_array (opt_prop doc ''masterbills''))
                 else fst r) = (Inr st :: error + (jsval \<times> accumulator) list)"
    unfolding aggregate_doc_def Let_def bindE_eq_Inr by blast
  from s0 have s: "st = (if snd r = 0 \<and> 0 < length (as_array (opt_prop doc ''masterbills''))
                 then foldl (process_top_masterbill h ?dep ?arr) (fst r)
                        (as_array (opt_prop doc ''masterbills''))
                 else fst r)"
    by (simp only: sum.inject)
  have e: "st_inv h ?dep ?arr (fst ([], 0 :: nat))" by (simp add: st_inv_def)
  have r: "st_inv h ?dep ?arr (fst r)"
    by (rule foldE_invariant[where P = "\<lambda>s. st_inv h ?dep ?arr (fst s)", OF _ e f])
       (rule process_container_inv)
  have "st_inv h ?dep ?arr (foldl (process_top_masterbill h ?dep ?arr) (fst r) xs)" for xs
    by (rule foldl_invariant[where P = "st_inv h ?dep ?arr", OF _ r])
       (rule process_top_masterbill_inv)
  with r s show ?thesis by simp
qed

lemma transformManifest_shipments:
  assumes "transformManifest h apiData = Inr m"
  shows "\<exists>st. shipments m = map to_shipment st \<and>
           st_inv h (departure_airport (flight_details m)) (arrival_airport (flight_details m)) st"
proof -
  from assms obtain st where a: "aggregate_doc h (nc (opt_prop apiData ''doc'') apiData) = Inr st"
    and "shipments m = map to_shipment st"
    and "departure_airport (flight_details m) =
           nc (get_prop (nc (opt_prop (nc (opt_prop apiData ''doc'') apiData) ''manifest'') (JObj 0 []))
                 ''pointOfLoading'') (JStr [])"
    and "arrival_airport (flight_details m) =
           nc (get_prop (nc (opt_prop (nc (opt_prop apiData ''doc'') apiData) ''manifest'') (JObj 0 []))
                 ''pointOfUnloading'') (JStr [])"
    unfolding transformManifest_def Let_def by (auto simp: bindE_eq_Inr)
  with aggregate_doc_inv[OF a] show ?thesis by auto
qed

lemma shipment_of_inv:
  assumes "transformManifest h apiData = Inr m" and "s \<in> set (shipments m)"
  shows "\<exists>a. s = to_shipment a \<and> truthy (fst a) \<and>
           acc_inv h (departure_airport (flight_details m)) (arrival_airport (flight_details m)) (snd a)"
proof -
  from transformManifest_shipments[OF assms(1)] obtain st where
    m: "shipments m = map to_shipment st" and
    i: "st_inv h (departure_airport (flight_details m)) (arrival_airport (flight_details m)) st"
    by blast
  from assms(2) m obtain a where "a \<in> set st" and "s = to_shipment a"
    by (metis (no_types) imageE list.set_map)
  with i show ?thesis unfolding st_inv_def by blast
qed

lemma run_doc1: "transformManifest demo_host doc1 = Inr manifest1"
  by code_simp

lemma run_doc2: "transformManifest demo_host doc2 = Inr manifest2"
  by code_simp

section \<open>Properties of the aggregator\<close>

text \<open>
  Claim C1. Whenever \<^const>\<open>transformManifest\<close> returns a manifest, its
  \<open>total_pieces\<close> is the sum of \<open>pieces\<close> over its shipments and the value of its
  \<open>total_weight\<close> is the sum of the shipments' weight values: both are folds over the
  finished shipment list, and nothing of the upstream document's totals is read.
\<close>

theorem transformManifest_totals:
  "transformManifest h apiData = Inr m \<Longrightarrow>
     total_pieces m = sum_list (map pieces (shipments m)) \<and>
     w_value (total_weight m) = sum_list (map (\<lambda>s. w_value (weight s)) (shipments m))"
  unfolding transformManifest_def Let_def
  by (auto simp: bindE_eq_Inr foldl_add_nat foldl_add_rat)

theorem transformManifest_totals_witness:
  "transformManifest demo_host doc1 = Inr manifest1 \<and>
   total_pieces manifest1 = sum_list (map pieces (shipments manifest1)) \<and>
   w_value (total_weight manifest1)
     = sum_list (map (\<lambda>s. w_value (weight s)) (shipments manifest1)) \<and>
   total_pieces manifest1 = 2 \<and> w_value (total_weight manifest1) = 12"
  using run_doc1 transformManifest_totals[OF run_doc1] by (simp add: manifest1_def)

text \<open>
  Claim C10. In every manifest that \<^const>\<open>transformManifest\<close> returns, the pieces of a
  shipment's \<open>uld_contents\<close> entries add up to the shipment's \<open>pieces\<close>, whichever path
  aggregated it.
\<close>

theorem uld_pieces_conserved:
  "transformManifest h apiData = Inr m \<Longrightarrow>
     \<forall>s \<in> set (shipments m). sum_list (map uld_pieces (uld_contents s)) = pieces s"
proof
  fix s assume "transformManifest h apiData = Inr m" and "s \<in> set (shipments m)"
  from shipment_of_inv[OF this] obtain a where "s = to_shipment a"
    and "sum_list (map (\<lambda>e. t_pieces (snd e)) (uldIdToTotals (snd a))) = totalPieces (snd a)"
    by (auto simp: acc_inv_def)
  then show "sum_list (map uld_pieces (uld_contents s)) = pieces s"
    by (simp add: to_shipment_def Let_def comp_def)
qed

theorem uld_pieces_conserved_witness:
  "transformManifest demo_host doc2 = Inr manifest2 \<and>
   shipment2 \<in> set (shipments manifest2) \<and>
   sum_list (map uld_pieces (uld_contents shipment2)) = pieces shipment2 \<and>
   pieces shipment2 = 4"
proof -
  have mem: "shipment2 \<in> set (shipments manifest2)" by (simp add: manifest2_def)
  from uld_pieces_conserved[OF run_doc2] mem
  have "sum_list (map uld_pieces (uld_contents shipment2)) = pieces shipment2" by blast
  with run_doc2 mem show ?thesis by (simp add: shipment2_def)
qed

text \<open>
  Claim C2. In every manifest that \<^const>\<open>transformManifest\<close> returns, a shipment whose
  \<open>uld_contents\<close> is not empty has the weight values of those entries add up to its own
  weight value, exactly, in rational arithmetic: each masterbill's weight is split
  over its ULDs in proportion to their piece counts.
\<close>

theorem uld_weight_allocated:
  "transformManifest h apiData = Inr m \<Longrightarrow>
     \<forall>s \<in> set (shipments m). uld_contents s \<noteq> [] \<longrightarrow>
        sum_list (map (\<lambda>u. w_value (uld_weight u)) (uld_contents s)) = w_value (weight s)"
proof (intro ballI impI)
  fix s assume "transformManifest h apiData = Inr m" and "s \<in> set (shipments m)"
  from shipment_of_inv[OF this] obtain a where "s = to_shipment a"
    and "sum_list (map (\<lambda>e. t_weightKg (snd e)) (uldIdToTotals (snd a))) = totalWeightKg (snd a)"
    by (auto simp: acc_inv_def)
  then show "sum_list (map (\<lambda>u. w_value (uld_weight u)) (uld_contents s)) = w_value (weight s)"
    by (simp add: to_shipment_def Let_def comp_def)
qed

theorem uld_weight_allocated_witness:
  "transformManifest demo_host doc2 = Inr manifest2 \<and>
   shipment2 \<in> set (shipments manifest2) \<and> uld_contents shipment2 \<noteq> [] \<and>
   sum_list (map (\<lambda>u. w_value (uld_weight u)) (uld_contents shipment2))
     = w_value (weight shipment2) \<and>
   w_value (weight shipment2) = 15"
proof -
  have mem: "shipment2 \<in> set (shipments manifest2)" by (simp add: manifest2_def)
  have ne: "uld_contents shipment2 \<noteq> []" by (simp add: shipment2_def)
  from uld_weight_allocated[OF run_doc2] mem ne
  have "sum_list (map (\<lambda>u. w_value (uld_weight u)) (uld_contents shipment2))
          = w_value (weight shipment2)" by blast
  with run_doc2 mem ne show ?thesis by (simp add: shipment2_def)
qed

subsection \<open>Where the house shipments come from\<close>

lemma same_value_refl: "same_value k k"
  by (cases k) (simp_all add: same_value_def)

lemma map_set_entry:
  "e \<in> set (map_set m k v) \<Longrightarrow>
     e \<in> set m \<or>
     (snd e = v \<and>
      ((fst e = k \<and> map_get m k = None) \<or>
       (\<exists>b. (fst e, b) \<in> set m \<and> map_get m k = Some b \<and> same_value (fst e) k)))"
proof (induction m)
  case Nil
  then show ?case by simp
next
  case (Cons a m)
  show ?case
  proof (cases "same_value (fst a) k")
    case True
    with Cons.prems show ?thesis by (cases a) auto
  next
    case False
    with Cons.prems have "e = a \<or> e \<in> set (map_set m k v)" by (cases a) auto
    then show ?thesis
    proof
      assume "e = a"
      then show ?thesis by simp
    next
      assume "e \<in> set (map_set m k v)"
      from Cons.IH[OF this] False show ?thesis by (cases a) auto
    qed
  qed
qed

lemma house_inv_mono: "house_inv h dep arr M st \<Longrightarrow> M \<subseteq> N \<Longrightarrow> house_inv h dep arr N st"
  unfolding house_inv_def by blast

lemma house_inv_empty: "house_inv h dep arr M []"
  by (simp add: house_inv_def)

text \<open>
  One round of either loop: the entry of the masterbill's AWB number gets the house
  shipments of the masterbill's housebills after those it had.
\<close>

lemma house_inv_step:
  assumes inv: "house_inv h dep arr M st" and mb: "mb \<in> M"
    and hss: "houseShipments a =
                houseShipments (case map_get st (nc (opt_prop mb ''masterbillNumber'') (JStr [])) of
                                  Some b \<Rightarrow> b | None \<Rightarrow> new_accumulator mb)
                @ map (mk_house h dep arr) (as_array (opt_prop mb ''housebills''))"
  shows "house_inv h dep arr M (map_set st (nc (opt_prop mb ''masterbillNumber'') (JStr [])) a)"
  unfolding house_inv_def
proof (intro ballI)
  let ?k = "nc (opt_prop mb ''masterbillNumber'') (JStr [])"
  fix e hs
  assume e: "e \<in> set (map_set st ?k a)" and hs: "hs \<in> set (houseShipments (snd e))"
  from map_set_entry[OF e]
  consider (old) "e \<in> set st"
    | (fresh) "snd e = a" "fst e = ?k" "map_get st ?k = None"
    | (upd) b where "snd e = a" "(fst e, b) \<in> set st" "map_get st ?k = Some b"
        "same_value (fst e) ?k"
    by (elim disjE conjE exE) blast+
  then show "\<exists>mb \<in> M. \<exists>hb \<in> set (as_array (opt_prop mb ''housebills'')).
               same_value (fst e) (nc (opt_prop mb ''masterbillNumber'') (JStr [])) \<and>
               hs = mk_house h dep arr hb"
  proof cases
    case old
    with inv hs show ?thesis unfolding house_inv_def by blast
  next
    case fresh
    with hs hss have "hs \<in> mk_house h dep arr ` set (as_array (opt_prop mb ''housebills''))"
      by (simp add: new_accumulator_def)
    then obtain hb where "hb \<in> set (as_array (opt_prop mb ''housebills''))"
      and "hs = mk_house h dep arr hb" by blast
    with mb fresh(2) same_value_refl[of ?k] show ?thesis by auto
  next
    case upd
    from hs upd(1,3) hss
    have "hs \<in> set (houseShipments b) \<or>
          hs \<in> mk_house h dep arr ` set (as_array (opt_prop mb ''housebills''))"
      by auto
    then show ?thesis
    proof
      assume "hs \<in> set (houseShipments b)"
      with inv upd(2) show ?thesis unfolding house_inv_def by fastforce
    next
      assume "hs \<in> mk_house h dep arr ` set (as_array (opt_prop mb ''housebills''))"
      then obtain hb where "hb \<in> set (as_array (opt_prop mb ''housebills''))"
        and "hs = mk_house h dep arr hb" by blast
      with mb upd(4) show ?thesis by auto
    qed
  qed
qed

lemma process_top_masterbill_house:
  assumes "house_inv h dep arr M st" and "mb \<in> M"
  shows "house_inv h dep arr M (process_top_masterbill h dep arr st mb)"
proof (cases "truthy (nc (opt_prop mb ''masterbillNumber'') (JStr []))")
  case False
  then show ?thesis using assms by (simp add: process_top_masterbill_def)
next
  case True
  have "\<exists>a. process_top_masterbill h dep arr st mb
               = map_set st (nc (opt_prop mb ''masterbillNumber'') (JStr [])) a \<and>
             houseShipments a =
                houseShipments (case map_get st (nc (opt_prop mb ''masterbillNumber'') (JStr [])) of
                                  Some b \<Rightarrow> b | None \<Rightarrow> new_accumulator mb)
                @ map (mk_house h dep arr) (as_array (opt_prop mb ''housebills''))"
    using True
    apply (simp add: process_top_masterbill_def Let_def foldl_snoc_map)
    apply (rule exI, rule conjI, rule refl)
    apply simp
    done
  then show ?thesis using house_inv_step[OF assms] by auto
qed

lemma process_masterbill_house:
  assumes run: "process_masterbill h dep arr uldId st mb = Inr st'"
    and inv: "house_inv h dep arr M st" and mb: "mb \<in> M"
  shows "house_inv h dep arr M st'"
proof (cases "truthy (nc (opt_prop mb ''masterbillNumber'') (JStr []))")
  case False
  with run have "st' = st" by (simp add: process_masterbill_def)
  with inv show ?thesis by simp
next
  case True
  define k where "k = nc (opt_prop mb ''masterbillNumber'') (JStr [])"
  define base where
    "base = (case map_get st k of Some a \<Rightarrow> a | None \<Rightarrow> new_accumulator mb)"
  define hbs where "hbs = as_array (opt_prop mb ''housebills'')"
  from run True obtain a hss where
    hs: "foldE (\<lambda>hss e.
                 bindE (to_string h (nc (opt_prop (snd e) ''housebillNumber'')
                          (JStr (''(HB '' @ key_of_index (Suc (fst e)) @ '')'')))) (\<lambda>_.
                   Inr (hss @ [mk_house h dep arr (snd e)])))
               (houseShipments base) (zip [0..<length hbs] hbs) = Inr hss"
    and st': "st' = map_set st k a" and a: "houseShipments a = hss"
    unfolding process_masterbill_def Let_def k_def[symmetric]
      hbs_def[symmetric] base_def[symmetric]
    by (simp add: bindE_eq_Inr) force
  have "hss = foldl (\<lambda>hss e. hss @ [mk_house h dep arr (snd e)]) (houseShipments base)
                (zip [0..<length hbs] hbs)"
    by (rule foldE_log[OF hs])
  then have "hss = houseShipments base @ map (mk_house h dep arr) hbs"
    by (simp add: foldl_snoc_snd)
  with a have "houseShipments a =
                houseShipments (case map_get st (nc (opt_prop mb ''masterbillNumber'') (JStr [])) of
                                  Some b \<Rightarrow> b | None \<Rightarrow> new_accumulator mb)
                @ map (mk_house h dep arr) (as_array (opt_prop mb ''housebills''))"
    by (simp add: base_def k_def hbs_def)
  from house_inv_step[OF inv mb this] st' show ?thesis by (simp add: k_def)
qed

lemma container_masterbills:
  assumes "c \<in> set (as_array (opt_prop doc ''containers''))" and "find_masterbills c = Inr ms"
  shows "set ms \<subseteq> set (masterbills_of doc)"
  using assms unfolding masterbills_of_def by force

lemma top_masterbills: "set (as_array (opt_prop doc ''masterbills'')) \<subseteq> set (masterbills_of doc)"
  by (simp add: masterbills_of_def)

lemma process_container_house:
  assumes run: "process_container h dep arr st c = Inr st'"
    and inv: "house_inv h dep arr (set (masterbills_of doc)) (fst st)"
    and c: "c \<in> set (as_array (opt_prop doc ''containers''))"
  shows "house_inv h dep arr (set (masterbills_of doc)) (fst st')"
proof -
  from run obtain mbs r where m: "find_masterbills c = Inr mbs" and
    f: "foldE (process_masterbill h dep arr (nc (opt_prop c ''containerNumber'') (JStr ''N/A'')))
          (fst st) mbs = Inr r" and s: "st' = (r, snd st + length mbs)"
    unfolding process_container_def Let_def by (simp add: bindE_eq_Inr) blast
  have "house_inv h dep arr (set (masterbills_of doc)) r"
  proof (rule foldE_invariant[where P = "house_inv h dep arr (set (masterbills_of doc))",
        OF _ inv f])
    fix s x s'
    assume "house_inv h dep arr (set (masterbills_of doc)) s" and "x \<in> set mbs"
      and "process_masterbill h dep arr (nc (opt_prop c ''containerNumber'') (JStr ''N/A'')) s x
             = Inr s'"
    with container_masterbills[OF c m]
    show "house_inv h dep arr (set (masterbills_of doc)) s'"
      using process_masterbill_house by blast
  qed
  with s show ?thesis by simp
qed

lemma aggregate_doc_house:
  assumes "aggregate_doc h doc = Inr st"
  shows "house_inv h
           (nc (get_prop (nc (opt_prop doc ''manifest'') (JObj 0 [])) ''pointOfLoading'') (JStr []))
           (nc (get_prop (nc (opt_prop doc ''manifest'') (JObj 0 [])) ''pointOfUnloading'') (JStr []))
           (set (masterbills_of doc)) st"
    (is "house_inv h ?dep ?arr ?M st")
proof -
  from assms obtain r where
    f: "foldE (process_container h ?dep ?arr) ([], 0) (as_array (opt_prop doc ''containers'')) = Inr r"
    and s0: "Inr (if snd r = 0 \<and> 0 < length (as_array (opt_prop doc ''masterbills''))
                 then foldl (process_top_masterbill h ?dep ?arr) (fst r)
                        (as_array (opt_prop doc ''masterbills''))
                 else fst r) = (Inr st :: error + (jsval \<times> accumulator) list)"
    unfolding aggregate_doc_def Let_def bindE_eq_Inr by blast
  from s0 have s: "st = (if snd r = 0 \<and> 0 < length (as_array (opt_prop doc ''masterbills''))
                 then foldl (process_top_masterbill h ?dep ?arr) (fst r)
                        (as_array (opt_prop doc ''masterbills''))
                 else fst r)"
    by (simp only: sum.inject)
  have e: "house_inv h ?dep ?arr ?M (fst ([], 0 :: nat))" by (simp add: house_inv_empty)
  have r: "house_inv h ?dep ?arr ?M (fst r)"
    by (rule foldE_invariant[where P = "\<lambda>s. house_inv h ?dep ?arr ?M (fst s)", OF _ e f])
       (erule (2) process_container_house[rotated])
  have "house_inv h ?dep ?arr ?M
          (foldl (process_top_masterbill h ?dep ?arr) (fst r) (as_array (opt_prop doc ''masterbills'')))"
  proof (rule foldl_invariant[where P = "house_inv h ?dep ?arr ?M", OF _ r])
    fix s x
    assume "house_inv h ?dep ?arr ?M s" and "x \<in> set (as_array (opt_prop doc ''masterbills''))"
    with top_masterbills[of doc] show "house_inv h ?dep ?arr ?M (process_top_masterbill h ?dep ?arr s x)"
      using process_top_masterbill_house by blast
  qed
  with r s show ?thesis by simp
qed

lemma transformManifest_houses:
  assumes "transformManifest h apiData = Inr m"
  shows "\<exists>st. shipments m = map to_shipment st \<and>
           house_inv h (departure_airport (flight_details m)) (arrival_airport (flight_details m))
             (set (masterbills_of (nc (opt_prop apiData ''doc'') apiData))) st"
proof -
  from assms obtain st where a: "aggregate_doc h (nc (opt_prop apiData ''doc'') apiData) = Inr st"
    and "shipments m = map to_shipment st"
    and "departure_airport (flight_details m) =
           nc (get_prop (nc (opt_prop (nc (opt_prop apiData ''doc'') apiData) ''manifest'') (JObj 0 []))
                 ''pointOfLoading'') (JStr [])"
    and "arrival_airport (flight_details m) =
           nc (get_prop (nc (opt_prop (nc (opt_prop apiData ''doc'') apiData) ''manifest'') (JObj 0 []))
                 ''pointOfUnloading'') (JStr [])"
    unfolding transformManifest_def Let_def by (auto simp: bindE_eq_Inr)
  with aggregate_doc_house[OF a] show ?thesis by auto
qed

lemma mk_house_weights:
  "chargeable_weight_kg (mk_house h dep arr hb) = actual_weight_kg (mk_house h dep arr hb) \<and>
   actual_weight_kg (mk_house h dep arr hb) =
     sum_list (map (\<lambda>p. asNumber h (opt_prop p ''weight'')) (as_array (opt_prop hb ''pieces'')))"
  by (simp add: mk_house_def Let_def foldl_add_rat)

text \<open>
  Claim C9. In every manifest that \<^const>\<open>transformManifest\<close> returns, every house
  shipment of every shipment has \<open>chargeable_weight_kg\<close> equal to \<open>actual_weight_kg\<close>.
  It is the record that \<^const>\<open>mk_house\<close> builds from one housebill of the document: a
  housebill of a masterbill that the aggregation found in a container or at the top
  level and that bears the shipment's AWB number. Both weights are the sum of the
  weights of the pieces of that very housebill, and nothing of another housebill or
  of the masterbill's own pieces enters them. Both paths build it with the same code.
\<close>

theorem house_weights_equal:
  "transformManifest h apiData = Inr m \<Longrightarrow>
     \<forall>s \<in> set (shipments m). \<forall>hs \<in> set (house_shipments s).
        chargeable_weight_kg hs = actual_weight_kg hs \<and>
        (\<exists>mb \<in> set (masterbills_of (nc (opt_prop apiData ''doc'') apiData)).
           \<exists>hb \<in> set (as_array (opt_prop mb ''housebills'')).
              same_value (awb_number s) (nc (opt_prop mb ''masterbillNumber'') (JStr [])) \<and>
              hs = mk_house h (departure_airport (flight_details m))
                     (arrival_airport (flight_details m)) hb \<and>
              hawb_number hs = nc (opt_prop hb ''housebillNumber'') (JStr []) \<and>
              hs_pieces hs = length (as_array (opt_prop hb ''pieces'')) \<and>
              actual_weight_kg hs =
                sum_list (map (\<lambda>p. asNumber h (opt_prop p ''weight''))
                           (as_array (opt_prop hb ''pieces''))) \<and>
              chargeable_weight_kg hs =
                sum_list (map (\<lambda>p. asNumber h (opt_prop p ''weight''))
                           (as_array (opt_prop hb ''pieces''))))"
proof (intro ballI)
  fix s hs
  assume run: "transformManifest h apiData = Inr m" and s: "s \<in> set (shipments m)"
    and hs: "hs \<in> set (house_shipments s)"
  let ?dep = "departure_airport (flight_details m)"
  let ?arr = "arrival_airport (flight_details m)"
  from transformManifest_houses[OF run] obtain st where
    m: "shipments m = map to_shipment st" and
    i: "house_inv h ?dep ?arr (set (masterbills_of (nc (opt_prop apiData ''doc'') apiData))) st"
    by blast
  from s m obtain e where e: "e \<in> set st" and se: "s = to_shipment e" by auto
  from hs se have "hs \<in> set (houseShipments (snd e))" by (simp add: to_shipment_def Let_def)
  with i e obtain mb hb where
    mb: "mb \<in> set (masterbills_of (nc (opt_prop apiData ''doc'') apiData))"
    and hb: "hb \<in> set (as_array (opt_prop mb ''housebills''))"
    and k: "same_value (fst e) (nc (opt_prop mb ''masterbillNumber'') (JStr []))"
    and h: "hs = mk_house h ?dep ?arr hb"
    unfolding house_inv_def by blast
  from se have a: "awb_number s = fst e" by (simp add: to_shipment_def Let_def)
  have n: "hawb_number hs = nc (opt_prop hb ''housebillNumber'') (JStr [])"
    and p: "hs_pieces hs = length (as_array (opt_prop hb ''pieces''))"
    unfolding h by (simp_all add: mk_house_def Let_def)
  from mk_house_weights[of h ?dep ?arr hb]
  have w: "chargeable_weight_kg hs = actual_weight_kg hs"
    and w1: "actual_weight_kg hs =
           sum_list (map (\<lambda>p. asNumber h (opt_prop p ''weight'')) (as_array (opt_prop hb ''pieces'')))"
    unfolding h by simp_all
  from mb hb k h n p w w1 a
  show "chargeable_weight_kg hs = actual_weight_kg hs \<and>
        (\<exists>mb \<in> set (masterbills_of (nc (opt_prop apiData ''doc'') apiData)).
           \<exists>hb \<in> set (as_array (opt_prop mb ''housebills'')).
              same_value (awb_number s) (nc (opt_prop mb ''masterbillNumber'') (JStr [])) \<and>
              hs = mk_house h (departure_airport (flight_details m))
                     (arrival_airport (flight_details m)) hb \<and>
              hawb_number hs = nc (opt_prop hb ''housebillNumber'') (JStr []) \<and>
              hs_pieces hs = length (as_array (opt_prop hb ''pieces'')) \<and>
              actual_weight_kg hs =
                sum_list (map (\<lambda>p. asNumber h (opt_prop p ''weight''))
                           (as_array (opt_prop hb ''pieces''))) \<and>
              chargeable_weight_kg hs =
                sum_list (map (\<lambda>p. asNumber h (opt_prop p ''weight''))
                           (as_array (opt_prop hb ''pieces''))))"
    by (intro conjI bexI[of _ mb] bexI[of _ hb]) simp_all
qed

lemma doc2_housebill:
  "mb_b \<in> set (masterbills_of doc2) \<and>
   hb_h2 \<in> set (as_array (opt_prop mb_b ''housebills'')) \<and>
   house2 = mk_house demo_host (JStr ''TLV'') (JStr ''JFK'') hb_h2"
  by code_simp

theorem house_weights_equal_witness:
  "transformManifest demo_host doc2 = Inr manifest2 \<and>
   shipment2 \<in> set (shipments manifest2) \<and> house2 \<in> set (house_shipments shipment2) \<and>
   chargeable_weight_kg house2 = actual_weight_kg house2 \<and> actual_weight_kg house2 = 3 \<and>
   mb_b \<in> set (masterbills_of doc2) \<and>
   hb_h2 \<in> set (as_array (opt_prop mb_b ''housebills'')) \<and>
   house2 = mk_house demo_host (JStr ''TLV'') (JStr ''JFK'') hb_h2"
proof -
  have mem: "shipment2 \<in> set (shipments manifest2)" by (simp add: manifest2_def)
  have hm: "house2 \<in> set (house_shipments shipment2)" by (simp add: shipment2_def)
  from house_weights_equal[OF run_doc2] mem hm
  have "chargeable_weight_kg house2 = actual_weight_kg house2" by blast
  moreover have "actual_weight_kg house2 = 3" by (simp add: house2_def)
  ultimately show ?thesis using run_doc2 mem hm doc2_housebill by simp
qed

lemma missing_not_truthy:
  "awb_missing mb \<Longrightarrow> \<not> truthy (nc (opt_prop mb ''masterbillNumber'') (JStr []))"
  by (auto simp: awb_missing_def nc_def)

lemma skip_container_step:
  "awb_missing mb \<Longrightarrow> process_masterbill h dep arr uldId st mb = Inr st"
  by (simp add: process_masterbill_def missing_not_truthy)

lemma skip_top_step:
  "awb_missing mb \<Longrightarrow> process_top_masterbill h dep arr st mb = st"
  by (simp add: process_top_masterbill_def missing_not_truthy)

lemma skip_container_loop:
  "foldE (process_masterbill h dep arr uldId) st (filter (\<lambda>mb. \<not> awb_missing mb) mbs)
     = foldE (process_masterbill h dep arr uldId) st mbs"
  by (induction mbs arbitrary: st) (simp_all add: skip_container_step)

lemma skip_top_loop:
  "foldl (process_top_masterbill h dep arr) st (filter (\<lambda>mb. \<not> awb_missing mb) mbs)
     = foldl (process_top_masterbill h dep arr) st mbs"
  by (induction mbs arbitrary: st) (simp_all add: skip_top_step)

lemma shipments_have_awb:
  assumes "transformManifest h apiData = Inr m" and "s \<in> set (shipments m)"
  shows "truthy (awb_number s)"
proof -
  from shipment_of_inv[OF assms] obtain a where "s = to_shipment a" and "truthy (fst a)"
    by blast
  then show ?thesis by (simp add: to_shipment_def Let_def)
qed

text \<open>
  Claim C6. A masterbill whose \<^verbatim>\<open>masterbillNumber\<close> is empty or missing is skipped on
  both paths: the round of the container loop and the round of the top-level loop return
  the map \<^verbatim>\<open>shipmentsByAwb\<close> unchanged, so the masterbill adds no pieces, no weight and
  no shipment; either loop gives the same map with such masterbills removed from its
  list; and no shipment of a returned manifest has an empty AWB number.
\<close>

theorem empty_masterbill_skipped:
  "(awb_missing mb \<longrightarrow>
      process_masterbill h dep arr uldId st mb = Inr st \<and>
      process_top_masterbill h dep arr st mb = st) \<and>
   foldE (process_masterbill h dep arr uldId) st (filter (\<lambda>mb. \<not> awb_missing mb) mbs)
     = foldE (process_masterbill h dep arr uldId) st mbs \<and>
   foldl (process_top_masterbill h dep arr) st (filter (\<lambda>mb. \<not> awb_missing mb) mbs)
     = foldl (process_top_masterbill h dep arr) st mbs \<and>
   (transformManifest h apiData = Inr m \<longrightarrow> (\<forall>s \<in> set (shipments m). truthy (awb_number s)))"
  by (simp add: skip_container_step skip_top_step skip_container_loop skip_top_loop
        shipments_have_awb)

theorem empty_masterbill_skipped_witness:
  "awb_missing mb_empty \<and>
   process_masterbill demo_host (JStr ''TLV'') (JStr ''JFK'') (JStr ''ULD1'') state_a mb_empty
     = Inr state_a \<and>
   process_top_masterbill demo_host (JStr ''TLV'') (JStr ''JFK'') state_a mb_empty = state_a \<and>
   process_masterbill demo_host (JStr ''TLV'') (JStr ''JFK'') (JStr ''ULD1'') [] mb_a
     = Inr state_a \<and>
   transformManifest demo_host doc2 = Inr manifest2 \<and>
   shipments manifest2 = [shipment2] \<and> truthy (awb_number shipment2)"
proof -
  have m: "awb_missing mb_empty"
    by (simp add: awb_missing_def mb_empty_def opt_prop_def nullish_def)
  have a: "process_masterbill demo_host (JStr ''TLV'') (JStr ''JFK'') (JStr ''ULD1'') [] mb_a
             = Inr state_a"
    by code_simp
  have s: "shipments manifest2 = [shipment2]" by (simp add: manifest2_def)
  note inst = empty_masterbill_skipped[of mb_empty demo_host "JStr ''TLV''" "JStr ''JFK''"
      "JStr ''ULD1''" state_a "[]" doc2 manifest2]
  from inst run_doc2 s have "truthy (awb_number shipment2)" by simp
  with m a s run_doc2 inst show ?thesis by blast
qed

text \<open>
  Claim C3 says that \<^const>\<open>transformManifest\<close> throws on no input. It does throw on a
  container that has neither \<^verbatim>\<open>masterbills\<close> nor \<^verbatim>\<open>masterbill\<close> and one of whose
  properties is an array starting with null: the search for the masterbills accepts the
  null as a sample, since \<^verbatim>\<open>typeof null\<close> is \<^verbatim>\<open>'object'\<close>, and applies \<^verbatim>\<open>in\<close> to it.
\<close>

theorem transformManifest_throws_on_null_sample:
  "transformManifest h null_sample_doc = Inl TypeError"
  by code_simp

section \<open>Properties of the field accessor\<close>

text \<open>
  On a plain object, and for a name that \<^verbatim>\<open>Object.prototype\<close> does not define, the read
  that follows the prototype chain is the read of an own property; the property names
  of the aggregator are such names.
\<close>

lemma proto_is_inherited: "''__proto__'' \<in> set object_proto_names"
  by (simp add: object_proto_names_def)

lemma member_record_own: "map_of ps k = Some x \<Longrightarrow> member h (JObj a ps) k = Inr (Val x)"
  by (simp add: member_def)

lemma member_record_absent:
  assumes "map_of ps k = None" and "k \<notin> set object_proto_names"
  shows "member h (JObj a ps) k = Inr (Val JUndefined)"
proof -
  from assms(2) proto_is_inherited have "k \<noteq> ''__proto__''" by blast
  with assms show ?thesis by (simp add: member_def nullish_def proto_names_def)
qed

lemma member_record_inherited:
  assumes "map_of ps k = None" and "k \<in> set object_proto_names" and "k \<noteq> ''__proto__''"
  shows "member h (JObj a ps) k = Inr (Native (Member ObjectProto k))"
  using assms by (simp add: member_def nullish_def proto_names_def)

lemma member_record_proto:
  "map_of ps ''__proto__'' = None \<Longrightarrow>
   member h (JObj a ps) ''__proto__'' = Inr (Native (Prototype ObjectProto))"
  by (simp add: member_def nullish_def)

lemma member_primitive_absent:
  assumes "v = JNum n \<and> p = NumberProto \<or> v = JBool b \<and> p = BooleanProto"
    and "k \<notin> set (Proto_names h p)" and "k \<notin> set object_proto_names"
  shows "member h v k = Inr (Val JUndefined)"
proof -
  from assms(3) proto_is_inherited have "k \<noteq> ''__proto__''" by blast
  with assms show ?thesis by (auto simp: member_def nullish_def proto_names_def)
qed

lemma member_own_property:
  "k \<notin> set object_proto_names \<Longrightarrow> member h (JObj a ps) k = Inr (Val (get_prop (JObj a ps) k))"
  by (cases "map_of ps k") (simp_all add: member_record_own member_record_absent)

lemma aggregator_names_not_inherited:
  "set [''doc'', ''manifest'', ''containers'', ''masterbills'', ''masterbill'',
        ''containerNumber'', ''masterbillNumber'', ''housebillNumber'', ''housebills'',
        ''pieces'', ''weight'', ''shcs'', ''code'', ''natureOfGoods'', ''customer'', ''remarks'',
        ''pointOfLoading'', ''pointOfUnloading'', ''id'', ''manifestNo'', ''flightNo'', ''date'']
     \<inter> set object_proto_names = {}"
  by (simp add: object_proto_names_def)

text \<open>
  The own properties of arrays and strings are their indices and their length; any
  other name is looked up in what they inherit.
\<close>

lemma reads_of_arrays_and_strings:
  "getValueByPath demo_host (JObj 1 [(''xs'', JArr 2 [JNum 7, JNum 8])]) (FStr ''xs.1'')
     = Inr (Val (JNum 8)) \<and>
   getValueByPath demo_host (JObj 1 [(''xs'', JArr 2 [JNum 7, JNum 8])]) (FStr ''xs.length'')
     = Inr (Val (JNum 2)) \<and>
   getValueByPath demo_host (JObj 1 [(''xs'', JArr 2 [JNum 7, JNum 8])]) (FStr ''xs.2'')
     = Inr (Val JUndefined) \<and>
   getValueByPath demo_host (JObj 1 [(''xs'', JArr 2 [JNum 7, JNum 8])]) (FStr ''xs.map'')
     = Inr (Native (Member ArrayProto ''map'')) \<and>
   getValueByPath demo_host (JObj 1 [(''s'', JStr ''abc'')]) (FStr ''s.length'')
     = Inr (Val (JNum 3)) \<and>
   getValueByPath demo_host (JObj 1 [(''s'', JStr ''abc'')]) (FStr ''s.1'')
     = Inr (Val (JStr ''b'')) \<and>
   getValueByPath demo_host (JObj 1 [(''s'', JStr ''abc'')]) (FStr ''s.trim'')
     = Inr (Native (Member StringProto ''trim'')) \<and>
   getValueByPath demo_host record_a (FStr ''a.toFixed'')
     = Inr (Native (Member NumberProto ''toFixed'')) \<and>
   getValueByPath demo_host record_a (FStr ''a.hasOwnProperty'')
     = Inr (Native (Member ObjectProto ''hasOwnProperty'')) \<and>
   getValueByPath demo_host record_a (FStr ''a.pieces'') = Inr (Val JUndefined) \<and>
   getValueByPath demo_host record_a (FStr ''constructor.name'') = Inr (Val (JStr ''Object'')) \<and>
   getValueByPath demo_host record_a (FStr ''__proto__'')
     = Inr (Native (Prototype ObjectProto))"
  by (intro conjI; code_simp)

text \<open>
  The two names of \<^verbatim>\<open>Object.prototype\<close> that are in lower case are the two that the
  field normaliser finds in its table of aliases.
\<close>

lemma lower_case_inherited_names:
  "filter (\<lambda>k. toLowerCase k = k) object_proto_names = [''constructor'', ''__proto__'']"
  by code_simp

lemma split_dot_nodot: "CHR ''.'' \<notin> set p \<Longrightarrow> split_dot p = [p]"
  by (induction p) auto

lemma split_dot_segment:
  "CHR ''.'' \<notin> set k \<Longrightarrow> split_dot (k @ CHR ''.'' # r) = k # split_dot r"
  by (induction k) auto

lemma split_dot_dotted:
  "ks \<noteq> [] \<Longrightarrow> \<forall>k \<in> set ks. CHR ''.'' \<notin> set k \<Longrightarrow> split_dot (dotted ks) = ks"
proof (induction ks rule: dotted.induct)
  case 1
  then show ?case by simp
next
  case (2 k)
  then show ?case by (simp add: split_dot_nodot)
next
  case (3 k k' ks)
  then show ?case by (simp add: split_dot_segment)
qed

lemma dotted_has_dot:
  "\<forall>k \<in> set ks. CHR ''.'' \<notin> set k \<Longrightarrow> CHR ''.'' \<in> set (dotted ks) \<longleftrightarrow> 2 \<le> length ks"
  by (induction ks rule: dotted.induct) auto

lemma truthy_not_nullish: "truthy v \<Longrightarrow> \<not> nullish v"
  by (auto simp: nullish_def)

lemma foldE_append: "foldE f s (xs @ ys) = bindE (foldE f s xs) (\<lambda>s'. foldE f s' ys)"
proof (induction xs arbitrary: s)
  case Nil
  then show ?case by simp
next
  case (Cons x xs)
  then show ?case by (cases "f s x") simp_all
qed

text \<open>Both branches of the accessor are the fold of reads over the split path.\<close>

lemma getValueByPath_fold:
  assumes "p \<noteq> []" and "truthy obj"
  shows "getValueByPath h obj (FStr p) =
           bindE (foldE (\<lambda>acc key. if any_nullish acc then Inr (Val JUndefined)
                                    else any_member h acc key) (Val obj) (split_dot p))
             (unwrap_value h)"
proof (cases "CHR ''.'' \<in> set p")
  case True
  with assms show ?thesis by (simp add: getValueByPath_def)
next
  case False
  have "bindE (member h obj p) Inr = member h obj p" by (cases "member h obj p") simp_all
  with False assms show ?thesis
    by (simp add: getValueByPath_def split_dot_nodot truthy_not_nullish)
qed

lemma reads_undefined:
  "foldE (\<lambda>acc key. if any_nullish acc then Inr (Val JUndefined) else any_member h acc key)
     (Val JUndefined) ks = Inr (Val JUndefined)"
  by (induction ks) (simp_all add: nullish_def)

lemma reads_null:
  "ks \<noteq> [] \<Longrightarrow>
   foldE (\<lambda>acc key. if any_nullish acc then Inr (Val JUndefined) else any_member h acc key)
     (Val JNull) ks = Inr (Val JUndefined)"
  by (cases ks) (simp_all add: nullish_def reads_undefined)

text \<open>On a path of own fields the reads give the nested value.\<close>

lemma reads_own_path:
  "own_path h v ks \<Longrightarrow>
   foldE (\<lambda>acc key. if any_nullish acc then Inr (Val JUndefined) else any_member h acc key)
     (Val v) ks = Inr (Val (nested_value v ks))"
proof (induction h v ks rule: own_path.induct)
  case (1 h v)
  then show ?case by simp
next
  case (2 h a ps k ks)
  show ?case
  proof (cases "map_of ps k")
    case None
    with 2 show ?thesis by (simp add: member_record_absent nullish_def reads_undefined)
  next
    case (Some x)
    with 2 show ?thesis by (simp add: member_record_own nullish_def)
  qed
next
  case (3 h n k ks)
  then have "member h (JNum n) k = Inr (Val JUndefined)"
    by (intro member_primitive_absent[where p = NumberProto and n = n]) simp_all
  then show ?case by (simp add: nullish_def reads_undefined)
next
  case (4 h b k ks)
  then have "member h (JBool b) k = Inr (Val JUndefined)"
    by (intro member_primitive_absent[where p = BooleanProto and b = b]) simp_all
  then show ?case by (simp add: nullish_def reads_undefined)
qed (simp_all add: nullish_def reads_undefined)

lemma nested_value_undefined: "nested_value JUndefined ks = JUndefined"
  by (cases ks) simp_all

lemma nested_value_append:
  "nested_value v (ks1 @ ks2) = nested_value (nested_value v ks1) ks2"
proof (induction v ks1 rule: nested_value.induct)
  case (1 v)
  then show ?case by simp
next
  case (2 a ps k ks)
  then show ?case by (cases "map_of ps k") (simp_all add: nested_value_undefined)
qed (simp_all add: nested_value_undefined)

lemma own_path_last: "own_path h v ks \<Longrightarrow> \<not> isArray (nested_value v ks)"
proof (induction h v ks rule: own_path.induct)
  case (2 h a ps k ks)
  then show ?case by (cases "map_of ps k") simp_all
qed simp_all

lemma value_not_inherited: "''value'' \<notin> set object_proto_names"
  by (simp add: object_proto_names_def)

text \<open>The unwrapping of a value that is not an array.\<close>

lemma unwrap_value_record:
  assumes "\<not> isArray r"
  shows "unwrap_value h (Val r) =
           Inr (Val (case wrapped_number h r of Some n \<Rightarrow> JNum n | None \<Rightarrow> r))"
proof (cases r)
  case (JObj a ps)
  show ?thesis
  proof (cases "map_of ps ''value''")
    case None
    with JObj show ?thesis
      by (simp add: unwrap_value_def wrapped_number_def nullish_def
            member_record_absent[OF _ value_not_inherited])
  next
    case (Some x)
    show ?thesis
    proof (cases x)
      case (JStr s)
      with JObj Some show ?thesis
        by (cases "Number_str h s")
           (simp_all add: unwrap_value_def wrapped_number_def member_record_own nullish_def)
    qed (use JObj Some in \<open>simp_all add: unwrap_value_def wrapped_number_def
          member_record_own nullish_def\<close>)
  qed
qed (use assms in \<open>simp_all add: unwrap_value_def wrapped_number_def nullish_def\<close>)

lemma getValueByPath_own_path:
  assumes "dotted ks \<noteq> []" and "\<forall>k \<in> set ks. CHR ''.'' \<notin> set k" and "truthy obj"
    and "own_path h obj ks"
  shows "getValueByPath h obj (FStr (dotted ks)) =
           Inr (Val (case wrapped_number h (nested_value obj ks) of
                       Some n \<Rightarrow> JNum n | None \<Rightarrow> nested_value obj ks))"
proof -
  from assms(1) have ne: "ks \<noteq> []" by auto
  show ?thesis
    by (simp add: getValueByPath_fold[OF assms(1,3)] split_dot_dotted[OF ne assms(2)]
          reads_own_path[OF assms(4)] unwrap_value_record[OF own_path_last[OF assms(4)]])
qed

lemma getValueByPath_inherited:
  assumes "dotted (ks1 @ [k]) \<noteq> []" and "\<forall>k \<in> set (ks1 @ [k]). CHR ''.'' \<notin> set k"
    and "truthy obj" and "own_path h obj ks1" and "nested_value obj ks1 = JObj a ps"
    and "map_of ps k = None" and "k \<in> set object_proto_names" and "k \<noteq> ''__proto__''"
  shows "getValueByPath h obj (FStr (dotted (ks1 @ [k]))) = Inr (Native (Member ObjectProto k))"
proof -
  have "foldE (\<lambda>acc key. if any_nullish acc then Inr (Val JUndefined) else any_member h acc key)
          (Val obj) (ks1 @ [k]) = Inr (Native (Member ObjectProto k))"
    using assms(5)
    by (simp add: foldE_append reads_own_path[OF assms(4)] nullish_def
          member_record_inherited[OF assms(6-8)])
  moreover have "unwrap_value h (Native (Member ObjectProto k))
                   = Inr (Native (Member ObjectProto k))"
    by (simp add: unwrap_value_def)
  ultimately show ?thesis
    using split_dot_dotted[OF _ assms(2)]
    by (simp add: getValueByPath_fold[OF assms(1,3)])
qed

text \<open>
  Claim C8 says that the accessor returns undefined when a segment of the path is
  absent from the record. A segment that names no field of the record, but a member
  that every object inherits, gives that member: the accessor reads with \<^verbatim>\<open>obj[key]\<close>,
  which looks the name up along the prototype chain. On the record \<^verbatim>\<open>{a: 1}\<close> the path
  \<^verbatim>\<open>constructor\<close> names no field, and the accessor returns the function \<^verbatim>\<open>Object\<close>.
\<close>

theorem getValueByPath_inherited_counterexample:
  "map_of [(''a'', JNum 1)] ''constructor'' = None \<and>
   nested_value record_a [''constructor''] = JUndefined \<and>
   getValueByPath demo_host record_a (FStr ''constructor'')
     = Inr (Native (Member ObjectProto ''constructor'')) \<and>
   getValueByPath demo_host record_a (FStr ''constructor'') \<noteq> Inr (Val JUndefined)"
  by (simp add: record_a_def getValueByPath_def member_def nullish_def proto_names_def
        object_proto_names_def unwrap_value_def)

text \<open>
  Claim C8, amended. Given a record (a plain object) and the dotted path of segments
  that stay within own fields, the accessor returns the nested value reached by
  following the segments, and undefined as soon as a segment names no field of the
  record reached (or is sought in a number, a boolean, null or undefined, which have
  no fields); when the value reached is a record whose \<open>value\<close> field is a number,
  or a string that reads as a finite number, it returns that number instead of the
  record. When the last segment names no field of the record reached but one of the
  members that every object inherits (\<^verbatim>\<open>constructor\<close>, \<^verbatim>\<open>toString\<close>, \<^verbatim>\<open>valueOf\<close> and the
  like), it returns that built-in member, not undefined.
\<close>

theorem getValueByPath_resolves:
  assumes "dotted ks \<noteq> []" and "\<forall>k \<in> set ks. CHR ''.'' \<notin> set k" and "truthy obj"
  shows "(own_path h obj ks \<longrightarrow>
            getValueByPath h obj (FStr (dotted ks)) =
              Inr (Val (case wrapped_number h (nested_value obj ks) of
                          Some n \<Rightarrow> JNum n | None \<Rightarrow> nested_value obj ks))) \<and>
         (own_path h obj ks \<and>
          (\<exists>ks1 k ks2 a ps. ks = ks1 @ k # ks2 \<and> nested_value obj ks1 = JObj a ps \<and>
                            map_of ps k = None) \<longrightarrow>
            getValueByPath h obj (FStr (dotted ks)) = Inr (Val JUndefined)) \<and>
         (\<forall>ks1 k a ps. ks = ks1 @ [k] \<and> own_path h obj ks1 \<and> nested_value obj ks1 = JObj a ps \<and>
                        map_of ps k = None \<and> k \<in> set object_proto_names \<and> k \<noteq> ''__proto__'' \<longrightarrow>
            getValueByPath h obj (FStr (dotted ks)) = Inr (Native (Member ObjectProto k)))"
proof (intro conjI impI allI)
  assume "own_path h obj ks"
  from getValueByPath_own_path[OF assms this]
  show "getValueByPath h obj (FStr (dotted ks)) =
          Inr (Val (case wrapped_number h (nested_value obj ks) of
                      Some n \<Rightarrow> JNum n | None \<Rightarrow> nested_value obj ks))" .
next
  assume a: "own_path h obj ks \<and>
          (\<exists>ks1 k ks2 a ps. ks = ks1 @ k # ks2 \<and> nested_value obj ks1 = JObj a ps \<and>
                            map_of ps k = None)"
  then obtain ks1 k ks2 a ps where "ks = ks1 @ k # ks2" and "nested_value obj ks1 = JObj a ps"
    and "map_of ps k = None" by blast
  then have "nested_value obj ks = JUndefined" by (simp add: nested_value_append)
  with getValueByPath_own_path[OF assms] a
  show "getValueByPath h obj (FStr (dotted ks)) = Inr (Val JUndefined)"
    by (simp add: wrapped_number_def)
next
  fix ks1 k a ps
  assume "ks = ks1 @ [k] \<and> own_path h obj ks1 \<and> nested_value obj ks1 = JObj a ps \<and>
            map_of ps k = None \<and> k \<in> set object_proto_names \<and> k \<noteq> ''__proto__''"
  then have k: "ks = ks1 @ [k]" and o: "own_path h obj ks1"
    and n: "nested_value obj ks1 = JObj a ps" and m: "map_of ps k = None"
    and i: "k \<in> set object_proto_names" and p: "k \<noteq> ''__proto__''"
    by simp_all
  from assms(1,2) have d: "dotted (ks1 @ [k]) \<noteq> []"
    and c: "\<forall>k \<in> set (ks1 @ [k]). CHR ''.'' \<notin> set k"
    unfolding k by simp_all
  show "getValueByPath h obj (FStr (dotted ks)) = Inr (Native (Member ObjectProto k))"
    unfolding k by (rule getValueByPath_inherited[OF d c assms(3) o n m i p])
qed

theorem getValueByPath_resolves_witness:
  "dotted [''a'', ''b''] = ''a.b'' \<and> truthy row_w \<and> own_path demo_host row_w [''a'', ''b''] \<and>
   getValueByPath demo_host row_w (FStr ''a.b'') = Inr (Val (JNum 5)) \<and>
   getValueByPath demo_host row_w (FStr ''weight'') = Inr (Val (JNum 12)) \<and>
   nested_value row_w [''a''] = JObj 32 [(''b'', JNum 5)] \<and>
   getValueByPath demo_host row_w (FStr ''a.c.d'') = Inr (Val JUndefined) \<and>
   getValueByPath demo_host row_w (FStr ''a.toString'') = Inr (Native (Member ObjectProto ''toString'')) \<and>
   own_path demo_host row_w [''a'', ''b'', ''x''] \<and>
   getValueByPath demo_host row_w (FStr ''a.b.x'') = Inr (Val JUndefined)"
proof -
  have t: "truthy row_w" by (simp add: row_w_def)
  have n: "Number_str demo_host ''12'' = Fin 12"
    by (simp add: demo_host_def is_digit_def)
  have a: "nested_value row_w [''a''] = JObj 32 [(''b'', JNum 5)]"
    and oa: "own_path demo_host row_w [''a'']"
    by (simp_all add: row_w_def)
  have o1: "own_path demo_host row_w [''a'', ''b'']" by (simp add: row_w_def)
  have p1: "dotted [''a'', ''b''] \<noteq> []" "\<forall>k \<in> set [''a'', ''b'']. CHR ''.'' \<notin> set k"
    by simp_all
  from getValueByPath_resolves[OF p1 t, of demo_host, THEN conjunct1] o1
  have 1: "getValueByPath demo_host row_w (FStr ''a.b'') = Inr (Val (JNum 5))"
    by (simp add: row_w_def wrapped_number_def)
  have o2: "own_path demo_host row_w [''weight'']" by (simp add: row_w_def)
  have p2: "dotted [''weight''] \<noteq> []" "\<forall>k \<in> set [''weight'']. CHR ''.'' \<notin> set k"
    by simp_all
  from getValueByPath_resolves[OF p2 t, of demo_host, THEN conjunct1] o2 n
  have 2: "getValueByPath demo_host row_w (FStr ''weight'') = Inr (Val (JNum 12))"
    by (simp add: row_w_def wrapped_number_def)
  have p3: "dotted [''a'', ''c'', ''d''] \<noteq> []"
    "\<forall>k \<in> set [''a'', ''c'', ''d'']. CHR ''.'' \<notin> set k"
    by simp_all
  have "getValueByPath demo_host row_w (FStr (dotted [''a'', ''c'', ''d''])) = Inr (Val JUndefined)"
  proof (rule mp[OF getValueByPath_resolves[OF p3 t, THEN conjunct2, THEN conjunct1]])
    have "own_path demo_host row_w [''a'', ''c'', ''d'']"
      by (simp add: row_w_def object_proto_names_def)
    moreover have "[''a'', ''c'', ''d''] = [''a''] @ ''c'' # [''d''] \<and>
            nested_value row_w [''a''] = JObj 32 [(''b'', JNum 5)] \<and>
            map_of [(''b'', JNum 5)] ''c'' = None"
      using a by simp
    ultimately show "own_path demo_host row_w [''a'', ''c'', ''d''] \<and>
        (\<exists>ks1 k ks2 a ps. [''a'', ''c'', ''d''] = ks1 @ k # ks2 \<and>
             nested_value row_w ks1 = JObj a ps \<and> map_of ps k = None)"
      by blast
  qed
  then have 3: "getValueByPath demo_host row_w (FStr ''a.c.d'') = Inr (Val JUndefined)"
    by simp
  have p4: "dotted [''a'', ''toString''] \<noteq> []"
    "\<forall>k \<in> set [''a'', ''toString'']. CHR ''.'' \<notin> set k"
    by simp_all
  have "getValueByPath demo_host row_w (FStr (dotted [''a'', ''toString'']))
          = Inr (Native (Member ObjectProto ''toString''))"
  proof (rule getValueByPath_resolves[OF p4 t, of demo_host, THEN conjunct2, THEN conjunct2,
        rule_format, of "[''a'']" "''toString''" 32 "[(''b'', JNum 5)]"])
    show "[''a'', ''toString''] = [''a''] @ [''toString''] \<and> own_path demo_host row_w [''a''] \<and>
          nested_value row_w [''a''] = JObj 32 [(''b'', JNum 5)] \<and>
          map_of [(''b'', JNum 5)] ''toString'' = None \<and>
          ''toString'' \<in> set object_proto_names \<and> ''toString'' \<noteq> ''__proto__''"
      using a oa by (simp add: object_proto_names_def)
  qed
  then have 4: "getValueByPath demo_host row_w (FStr ''a.toString'')
             = Inr (Native (Member ObjectProto ''toString''))"
    by simp
  have o5: "own_path demo_host row_w [''a'', ''b'', ''x'']"
    by (simp add: row_w_def demo_host_def number_proto_names_def object_proto_names_def)
  have p5: "dotted [''a'', ''b'', ''x''] \<noteq> []"
    "\<forall>k \<in> set [''a'', ''b'', ''x'']. CHR ''.'' \<notin> set k"
    by simp_all
  from getValueByPath_resolves[OF p5 t, of demo_host, THEN conjunct1] o5
  have 5: "getValueByPath demo_host row_w (FStr ''a.b.x'') = Inr (Val JUndefined)"
    by (simp add: row_w_def wrapped_number_def)
  from t o1 1 2 a 3 4 o5 5 show ?thesis by simp
qed

section \<open>Properties of the filter engine\<close>

lemma every_pass_Inr:
  "every_pass h r fs = Inr b \<Longrightarrow> b = (\<forall>f \<in> set fs. filter_pass h r f = Inr True)"
proof (induction fs)
  case Nil
  then show ?case by simp
next
  case (Cons f fs)
  from Cons.prems obtain b0 where f: "filter_pass h r f = Inr b0"
    and rest: "(if b0 then every_pass h r fs else Inr False) = Inr b"
    by (auto simp: bindE_eq_Inr)
  show ?case
  proof (cases b0)
    case True
    with rest Cons.IH f show ?thesis by simp
  next
    case False
    with rest f show ?thesis by simp
  qed
qed

lemma filter_rows_Inr:
  "filter_rows h fs rows = Inr out \<Longrightarrow>
     out = filter (\<lambda>r. \<forall>f \<in> set fs. filter_pass h r f = Inr True) rows"
proof (induction rows arbitrary: out)
  case Nil
  then show ?case by simp
next
  case (Cons r rows)
  from Cons.prems obtain b out' where e: "every_pass h r fs = Inr b"
    and rs: "filter_rows h fs rows = Inr out'" and o: "out = (if b then r # out' else out')"
    by (auto simp: bindE_eq_Inr)
  from every_pass_Inr[OF e] Cons.IH[OF rs] o show ?case by simp
qed

lemma every_pass_total:
  "\<forall>f \<in> set fs. \<exists>b. filter_pass h r f = Inr b \<Longrightarrow> \<exists>b. every_pass h r fs = Inr b"
proof (induction fs)
  case Nil
  show ?case by auto
next
  case (Cons f fs)
  from Cons.prems obtain b0 where f: "filter_pass h r f = Inr b0" by auto
  from Cons.prems have "\<forall>f \<in> set fs. \<exists>b. filter_pass h r f = Inr b" by simp
  from Cons.IH[OF this] obtain b1 where "every_pass h r fs = Inr b1" by blast
  with f show ?case by (cases b0) auto
qed

lemma filter_rows_total:
  "\<forall>r \<in> set rows. \<forall>f \<in> set fs. \<exists>b. filter_pass h r f = Inr b \<Longrightarrow>
     \<exists>out. filter_rows h fs rows = Inr out"
proof (induction rows)
  case Nil
  show ?case by auto
next
  case (Cons r rows)
  then obtain out where o: "filter_rows h fs rows = Inr out" by auto
  from Cons.prems have "\<forall>f \<in> set fs. \<exists>b. filter_pass h r f = Inr b" by simp
  from every_pass_total[OF this] obtain b where "every_pass h r fs = Inr b" by blast
  with o show ?case by auto
qed

subsection \<open>The operators\<close>

lemma strict_eq_identical: "strict_eq v w = identical v w"
proof (cases v)
  case (Val x)
  then show ?thesis
    by (cases x; cases w) (auto simp: same_value_def)
next
  case (Native b)
  then show ?thesis by simp
qed

lemma starts_with_take: "starts_with s t \<longleftrightarrow> take (length t) s = t"
  by (induction s t rule: starts_with.induct) auto

lemma str_includes_position:
  "str_includes s t \<longleftrightarrow> (\<exists>i \<le> length s. starts_with (drop i s) t)"
proof (induction s)
  case Nil
  show ?case by (cases t) simp_all
next
  case (Cons c s)
  have "(\<exists>i \<le> length (c # s). starts_with (drop i (c # s)) t) \<longleftrightarrow>
        starts_with (c # s) t \<or> (\<exists>i \<le> length s. starts_with (drop i s) t)"
  proof
    assume "\<exists>i \<le> length (c # s). starts_with (drop i (c # s)) t"
    then obtain i where i: "i \<le> length (c # s)" "starts_with (drop i (c # s)) t" by blast
    show "starts_with (c # s) t \<or> (\<exists>i \<le> length s. starts_with (drop i s) t)"
    proof (cases i)
      case 0
      with i show ?thesis by simp
    next
      case (Suc j)
      with i have "j \<le> length s \<and> starts_with (drop j s) t" by simp
      then show ?thesis by blast
    qed
  next
    assume "starts_with (c # s) t \<or> (\<exists>i \<le> length s. starts_with (drop i s) t)"
    then show "\<exists>i \<le> length (c # s). starts_with (drop i (c # s)) t"
    proof
      assume "starts_with (c # s) t"
      then have "0 \<le> length (c # s) \<and> starts_with (drop 0 (c # s)) t" by simp
      then show ?thesis by blast
    next
      assume "\<exists>i \<le> length s. starts_with (drop i s) t"
      then obtain j where "j \<le> length s" "starts_with (drop j s) t" by blast
      then have "Suc j \<le> length (c # s) \<and> starts_with (drop (Suc j) (c # s)) t" by simp
      then show ?thesis by blast
    qed
  qed
  with Cons.IH show ?case by simp
qed

lemma str_includes_occurs: "str_includes s t = occurs_in t s"
proof -
  have "(\<exists>i \<in> set [0..<Suc n]. P i) \<longleftrightarrow> (\<exists>i \<le> n. P i)" for P and n :: nat
    by (metis atLeastLessThan_iff less_Suc_eq_le zero_le set_upt)
  then show ?thesis
    by (simp only: occurs_in_def str_includes_position list_ex_iff starts_with_take)
qed

lemma js_lt_num_less: "js_lt a b = num_less a b"
  by (cases a; cases b) (simp_all add: num_less_def)

lemma js_le_num_less_eq: "js_le a b = num_less_eq a b"
  by (cases a; cases b) (auto simp: js_le_def num_less_eq_def num_less_def)

text \<open>
  The predicate of one filter: when the accessor and the coercions that the operator
  applies return, it is what the wording of the operator says.
\<close>

lemma filter_pass_holds:
  assumes g: "getValueByPath h r (FStr (f_field f)) = Inr v"
    and s: "f_op f = OpContains \<and> (\<exists>s. v = Val (JStr s)) \<longrightarrow> to_string h (f_value f) = Inr t"
    and n: "f_op f \<in> {OpGt, OpGte, OpLt, OpLte} \<longrightarrow>
              any_to_number h v = Inr a \<and> to_number h (f_value f) = Inr b"
  shows "filter_pass h r f = Inr (holds (f_op f) v (f_value f) t a b)"
proof (cases "f_op f")
  case OpEq
  then show ?thesis by (simp add: filter_pass_def g strict_eq_identical)
next
  case OpNeq
  then show ?thesis by (simp add: filter_pass_def g strict_eq_identical)
next
  case OpContains
  show ?thesis
  proof (cases "\<exists>s. v = Val (JStr s)")
    case True
    then obtain s0 where v: "v = Val (JStr s0)" by blast
    with s OpContains have "to_string h (f_value f) = Inr t" by simp
    with OpContains v show ?thesis
      by (simp add: filter_pass_def g str_includes_occurs)
  next
    case False
    with OpContains show ?thesis
      by (auto simp: filter_pass_def g split: jsany.splits jsval.splits)
  qed
next
  case OpIn
  have "(\<lambda>x. strict_eq v x) = identical v" by (rule ext) (rule strict_eq_identical)
  with OpIn show ?thesis
    by (cases "f_value f") (simp_all add: filter_pass_def g)
next
  case OpGt
  with n show ?thesis by (simp add: filter_pass_def g js_lt_num_less)
next
  case OpGte
  with n show ?thesis by (simp add: filter_pass_def g js_le_num_less_eq)
next
  case OpLt
  with n show ?thesis by (simp add: filter_pass_def g js_lt_num_less)
next
  case OpLte
  with n show ?thesis by (simp add: filter_pass_def g js_le_num_less_eq)
qed

text \<open>
  Claim C7. \<^const>\<open>applyFilters\<close> returns the input rows unchanged when the filters are
  absent or empty. Otherwise, whenever it returns, it returns exactly the rows for which
  every filter's predicate holds, in their original order, and it does return when no
  predicate throws: when the accessor and the coercions return on every row, the
  result is the list of the rows on which every filter's operator \<^const>\<open>holds\<close>. The
  predicate of a filter is that of its operator on the value
  \<open>v\<close> that the accessor resolves and the filter's value \<open>w\<close>: \<^verbatim>\<open>eq\<close> and \<^verbatim>\<open>neq\<close> are
  identity and its negation, \<^verbatim>\<open>in\<close> is identity to an element of the array \<open>w\<close>,
  \<^verbatim>\<open>contains\<close> holds when \<open>v\<close> is a string in which the string of \<open>w\<close> occurs, both in
  lower case, and \<^verbatim>\<open>gt\<close>, \<^verbatim>\<open>gte\<close>, \<^verbatim>\<open>lt\<close> and \<^verbatim>\<open>lte\<close> compare the numbers of \<open>v\<close> and \<open>w\<close>.
\<close>

theorem applyFilters_keeps_passing_rows:
  "applyFilters h rows None = Inr rows \<and>
   applyFilters h rows (Some []) = Inr rows \<and>
   (applyFilters h rows (Some fs) = Inr out \<longrightarrow>
      out = filter (\<lambda>r. \<forall>f \<in> set fs. filter_pass h r f = Inr True) rows) \<and>
   ((\<forall>r \<in> set rows. \<forall>f \<in> set fs. \<exists>b. filter_pass h r f = Inr b) \<longrightarrow>
      applyFilters h rows (Some fs)
        = Inr (filter (\<lambda>r. \<forall>f \<in> set fs. filter_pass h r f = Inr True) rows)) \<and>
   (getValueByPath h r (FStr (f_field f)) = Inr v \<and>
    (f_op f = OpContains \<and> (\<exists>s. v = Val (JStr s)) \<longrightarrow> to_string h (f_value f) = Inr t) \<and>
    (f_op f \<in> {OpGt, OpGte, OpLt, OpLte} \<longrightarrow>
       any_to_number h v = Inr a \<and> to_number h (f_value f) = Inr b) \<longrightarrow>
      filter_pass h r f = Inr (holds (f_op f) v (f_value f) t a b)) \<and>
   ((\<forall>r \<in> set rows. \<forall>f \<in> set fs.
        getValueByPath h r (FStr (f_field f)) = Inr (V r f) \<and>
        (f_op f = OpContains \<and> (\<exists>s. V r f = Val (JStr s)) \<longrightarrow>
           to_string h (f_value f) = Inr (T f)) \<and>
        (f_op f \<in> {OpGt, OpGte, OpLt, OpLte} \<longrightarrow>
           any_to_number h (V r f) = Inr (A r f) \<and> to_number h (f_value f) = Inr (B f))) \<longrightarrow>
      applyFilters h rows (Some fs)
        = Inr (filter (\<lambda>r. \<forall>f \<in> set fs.
                         holds (f_op f) (V r f) (f_value f) (T f) (A r f) (B f)) rows))"
proof -
  have a: "out = filter (\<lambda>r. \<forall>f \<in> set fs. filter_pass h r f = Inr True) rows"
    if "applyFilters h rows (Some fs) = Inr out" for out
  proof (cases fs)
    case Nil
    then show ?thesis using that by (simp add: applyFilters_def)
  next
    case (Cons g gs)
    then have "filter_rows h fs rows = Inr out" using that by (simp add: applyFilters_def)
    then show ?thesis by (rule filter_rows_Inr)
  qed
  have b: "applyFilters h rows (Some fs)
        = Inr (filter (\<lambda>r. \<forall>f \<in> set fs. filter_pass h r f = Inr True) rows)"
    if t: "\<forall>r \<in> set rows. \<forall>f \<in> set fs. \<exists>b. filter_pass h r f = Inr b"
  proof (cases fs)
    case Nil
    then show ?thesis by (simp add: applyFilters_def)
  next
    case (Cons g gs)
    from filter_rows_total[OF t] obtain out where o: "filter_rows h fs rows = Inr out" by blast
    with Cons have "applyFilters h rows (Some fs) = Inr out" by (simp add: applyFilters_def)
    with a[OF this] show ?thesis by simp
  qed
  have c: "applyFilters h rows None = Inr rows" "applyFilters h rows (Some []) = Inr rows"
    by (simp_all add: applyFilters_def)
  have d: "filter_pass h r f = Inr (holds (f_op f) v (f_value f) t a b)"
    if "getValueByPath h r (FStr (f_field f)) = Inr v \<and>
        (f_op f = OpContains \<and> (\<exists>s. v = Val (JStr s)) \<longrightarrow> to_string h (f_value f) = Inr t) \<and>
        (f_op f \<in> {OpGt, OpGte, OpLt, OpLte} \<longrightarrow>
           any_to_number h v = Inr a \<and> to_number h (f_value f) = Inr b)"
  proof (rule filter_pass_holds)
    from that show "getValueByPath h r (FStr (f_field f)) = Inr v" by (rule conjunct1)
    from that show "f_op f = OpContains \<and> (\<exists>s. v = Val (JStr s)) \<longrightarrow>
                      to_string h (f_value f) = Inr t"
      by (elim conjE)
    from that show "f_op f \<in> {OpGt, OpGte, OpLt, OpLte} \<longrightarrow>
                      any_to_number h v = Inr a \<and> to_number h (f_value f) = Inr b"
      by (elim conjE)
  qed
  from a have a': "applyFilters h rows (Some fs) = Inr out \<longrightarrow>
      out = filter (\<lambda>r. \<forall>f \<in> set fs. filter_pass h r f = Inr True) rows"
    by (rule impI)
  from b have b': "(\<forall>r \<in> set rows. \<forall>f \<in> set fs. \<exists>b. filter_pass h r f = Inr b) \<longrightarrow>
      applyFilters h rows (Some fs)
        = Inr (filter (\<lambda>r. \<forall>f \<in> set fs. filter_pass h r f = Inr True) rows)"
    by (rule impI)
  from d have d': "getValueByPath h r (FStr (f_field f)) = Inr v \<and>
        (f_op f = OpContains \<and> (\<exists>s. v = Val (JStr s)) \<longrightarrow> to_string h (f_value f) = Inr t) \<and>
        (f_op f \<in> {OpGt, OpGte, OpLt, OpLte} \<longrightarrow>
           any_to_number h v = Inr a \<and> to_number h (f_value f) = Inr b) \<longrightarrow>
      filter_pass h r f = Inr (holds (f_op f) v (f_value f) t a b)"
    by (rule impI)
  have e: "applyFilters h rows (Some fs)
        = Inr (filter (\<lambda>r. \<forall>f \<in> set fs.
                         holds (f_op f) (V r f) (f_value f) (T f) (A r f) (B f)) rows)"
    if hyp: "\<forall>r \<in> set rows. \<forall>f \<in> set fs.
        getValueByPath h r (FStr (f_field f)) = Inr (V r f) \<and>
        (f_op f = OpContains \<and> (\<exists>s. V r f = Val (JStr s)) \<longrightarrow>
           to_string h (f_value f) = Inr (T f)) \<and>
        (f_op f \<in> {OpGt, OpGte, OpLt, OpLte} \<longrightarrow>
           any_to_number h (V r f) = Inr (A r f) \<and> to_number h (f_value f) = Inr (B f))"
  proof -
    have p: "filter_pass h r f = Inr (holds (f_op f) (V r f) (f_value f) (T f) (A r f) (B f))"
      if "r \<in> set rows" and "f \<in> set fs" for r f
    proof (rule filter_pass_holds)
      from hyp that show "getValueByPath h r (FStr (f_field f)) = Inr (V r f)" by blast
      from hyp that show "f_op f = OpContains \<and> (\<exists>s. V r f = Val (JStr s)) \<longrightarrow>
                            to_string h (f_value f) = Inr (T f)"
        by blast
      from hyp that show "f_op f \<in> {OpGt, OpGte, OpLt, OpLte} \<longrightarrow>
              any_to_number h (V r f) = Inr (A r f) \<and> to_number h (f_value f) = Inr (B f)"
        by blast
    qed
    then have "\<forall>r \<in> set rows. \<forall>f \<in> set fs. \<exists>b. filter_pass h r f = Inr b" by blast
    from b[OF this]
    have "applyFilters h rows (Some fs)
            = Inr (filter (\<lambda>r. \<forall>f \<in> set fs. filter_pass h r f = Inr True) rows)" .
    also have "filter (\<lambda>r. \<forall>f \<in> set fs. filter_pass h r f = Inr True) rows
             = filter (\<lambda>r. \<forall>f \<in> set fs.
                         holds (f_op f) (V r f) (f_value f) (T f) (A r f) (B f)) rows"
      by (rule filter_cong[OF refl]) (simp add: p)
    finally show ?thesis .
  qed
  then have e': "(\<forall>r \<in> set rows. \<forall>f \<in> set fs.
        getValueByPath h r (FStr (f_field f)) = Inr (V r f) \<and>
        (f_op f = OpContains \<and> (\<exists>s. V r f = Val (JStr s)) \<longrightarrow>
           to_string h (f_value f) = Inr (T f)) \<and>
        (f_op f \<in> {OpGt, OpGte, OpLt, OpLte} \<longrightarrow>
           any_to_number h (V r f) = Inr (A r f) \<and> to_number h (f_value f) = Inr (B f))) \<longrightarrow>
      applyFilters h rows (Some fs)
        = Inr (filter (\<lambda>r. \<forall>f \<in> set fs.
                         holds (f_op f) (V r f) (f_value f) (T f) (A r f) (B f)) rows)"
    by (rule impI)
  show ?thesis
    by (rule conjI[OF c(1) conjI[OF c(2) conjI[OF a' conjI[OF b' conjI[OF d' e']]]]])
qed

lemma rows_hist:
  "getSourceRows (Some md_hist) Shipments = [mk_row ''A'' 0 0, mk_row ''B'' 10 5, mk_row ''C'' 20 7]"
  by code_simp

lemma pass_A: "filter_pass demo_host (mk_row ''A'' 0 0) pieces_gt0 = Inr False" by code_simp
lemma pass_B: "filter_pass demo_host (mk_row ''B'' 10 5) pieces_gt0 = Inr True" by code_simp
lemma pass_C: "filter_pass demo_host (mk_row ''C'' 20 7) pieces_gt0 = Inr True" by code_simp

text \<open>One filter of each operator on the three rows.\<close>

lemma filters_by_operator:
  "applyFilters demo_host [mk_row ''A'' 0 0, mk_row ''B'' 10 5, mk_row ''C'' 20 7]
     (Some [awb_eq_B]) = Inr [mk_row ''B'' 10 5] \<and>
   applyFilters demo_host [mk_row ''A'' 0 0, mk_row ''B'' 10 5, mk_row ''C'' 20 7]
     (Some [awb_neq_B]) = Inr [mk_row ''A'' 0 0, mk_row ''C'' 20 7] \<and>
   applyFilters demo_host [mk_row ''A'' 0 0, mk_row ''B'' 10 5, mk_row ''C'' 20 7]
     (Some [awb_in_AC]) = Inr [mk_row ''A'' 0 0, mk_row ''C'' 20 7] \<and>
   applyFilters demo_host [mk_row ''A'' 0 0, mk_row ''B'' 10 5, mk_row ''C'' 20 7]
     (Some [pieces_gte10]) = Inr [mk_row ''B'' 10 5, mk_row ''C'' 20 7] \<and>
   applyFilters demo_host [mk_row ''A'' 0 0, mk_row ''B'' 10 5, mk_row ''C'' 20 7]
     (Some [pieces_lt10]) = Inr [mk_row ''A'' 0 0] \<and>
   applyFilters demo_host [mk_row ''A'' 0 0, mk_row ''B'' 10 5, mk_row ''C'' 20 7]
     (Some [pieces_lte10]) = Inr [mk_row ''A'' 0 0, mk_row ''B'' 10 5] \<and>
   applyFilters demo_host [mk_row ''A'' 0 0, mk_row ''B'' 10 5, mk_row ''C'' 20 7]
     (Some [pieces_gte10, awb_neq_B]) = Inr [mk_row ''C'' 20 7] \<and>
   applyFilters demo_host [mk_row ''A'' 0 0, mk_row ''B'' 10 5, mk_row ''C'' 20 7]
     (Some [constructor_undefined]) = Inr []"
  by code_simp

theorem applyFilters_keeps_passing_rows_witness:
  "applyFilters demo_host (getSourceRows (Some md_hist) Shipments) None
     = Inr [mk_row ''A'' 0 0, mk_row ''B'' 10 5, mk_row ''C'' 20 7] \<and>
   applyFilters demo_host (getSourceRows (Some md_hist) Shipments) (Some [pieces_gt0])
     = Inr [mk_row ''B'' 10 5, mk_row ''C'' 20 7] \<and>
   filter_pass demo_host (mk_row ''A'' 0 0) dest_contains = Inr True \<and>
   filter_pass demo_host (mk_row ''A'' 0 0) pieces_lt10 = Inr True \<and>
   getValueByPath demo_host (mk_row ''A'' 0 0) (FStr ''constructor'')
     = Inr (Native (Member ObjectProto ''constructor'')) \<and>
   filter_pass demo_host (mk_row ''A'' 0 0) constructor_undefined = Inr False \<and>
   applyFilters demo_host (getSourceRows (Some md_hist) Shipments) (Some [constructor_undefined])
     = Inr [] \<and>
   applyFilters demo_host (getSourceRows (Some md_hist) Shipments) (Some [awb_in_AC])
     = Inr [mk_row ''A'' 0 0, mk_row ''C'' 20 7] \<and>
   applyFilters demo_host (getSourceRows (Some md_hist) Shipments) (Some [pieces_lte10])
     = Inr [mk_row ''A'' 0 0, mk_row ''B'' 10 5] \<and>
   toLowerCase ''JFK'' = ''jfk''"
proof -
  note inst = applyFilters_keeps_passing_rows[where h = demo_host
      and rows = "[mk_row ''A'' 0 0, mk_row ''B'' 10 5, mk_row ''C'' 20 7]"
      and fs = "[pieces_gt0]" and r = "mk_row ''A'' 0 0"]
  note op_inst = inst[THEN conjunct2, THEN conjunct2, THEN conjunct2, THEN conjunct2,
      THEN conjunct1]
  have "filter_pass demo_host (mk_row ''A'' 0 0) dest_contains
          = Inr (holds (f_op dest_contains) (Val (JStr ''JFK'')) (f_value dest_contains)
                   ''jf'' NaN NaN)"
  proof (rule mp[OF op_inst])
    have "getValueByPath demo_host (mk_row ''A'' 0 0) (FStr (f_field dest_contains))
            = Inr (Val (JStr ''JFK''))"
      by code_simp
    moreover have "to_string demo_host (f_value dest_contains) = Inr ''jf''"
      by (simp add: dest_contains_def)
    moreover have "f_op dest_contains \<notin> {OpGt, OpGte, OpLt, OpLte}"
      by (simp add: dest_contains_def)
    ultimately show "getValueByPath demo_host (mk_row ''A'' 0 0) (FStr (f_field dest_contains))
            = Inr (Val (JStr ''JFK'')) \<and>
          (f_op dest_contains = OpContains \<and> (\<exists>s. Val (JStr ''JFK'') = Val (JStr s)) \<longrightarrow>
             to_string demo_host (f_value dest_contains) = Inr ''jf'') \<and>
          (f_op dest_contains \<in> {OpGt, OpGte, OpLt, OpLte} \<longrightarrow>
             any_to_number demo_host (Val (JStr ''JFK'')) = Inr NaN \<and>
             to_number demo_host (f_value dest_contains) = Inr NaN)"
      by blast
  qed
  moreover have "holds (f_op dest_contains) (Val (JStr ''JFK'')) (f_value dest_contains)
                   ''jf'' NaN NaN"
    by code_simp
  ultimately have 1: "filter_pass demo_host (mk_row ''A'' 0 0) dest_contains = Inr True"
    by simp
  have "filter_pass demo_host (mk_row ''A'' 0 0) pieces_lt10
          = Inr (holds (f_op pieces_lt10) (Val (JNum 0)) (f_value pieces_lt10) [] (Fin 0) (Fin 10))"
  proof (rule mp[OF op_inst])
    have "getValueByPath demo_host (mk_row ''A'' 0 0) (FStr (f_field pieces_lt10))
            = Inr (Val (JNum 0))"
      by code_simp
    moreover have "f_op pieces_lt10 \<noteq> OpContains" by (simp add: pieces_lt10_def)
    moreover have "any_to_number demo_host (Val (JNum 0)) = Inr (Fin 0) \<and>
             to_number demo_host (f_value pieces_lt10) = Inr (Fin 10)"
      by (simp add: pieces_lt10_def)
    ultimately show "getValueByPath demo_host (mk_row ''A'' 0 0) (FStr (f_field pieces_lt10))
            = Inr (Val (JNum 0)) \<and>
          (f_op pieces_lt10 = OpContains \<and> (\<exists>s. Val (JNum 0) = Val (JStr s)) \<longrightarrow>
             to_string demo_host (f_value pieces_lt10) = Inr []) \<and>
          (f_op pieces_lt10 \<in> {OpGt, OpGte, OpLt, OpLte} \<longrightarrow>
             any_to_number demo_host (Val (JNum 0)) = Inr (Fin 0) \<and>
             to_number demo_host (f_value pieces_lt10) = Inr (Fin 10))"
      by blast
  qed
  moreover have "holds (f_op pieces_lt10) (Val (JNum 0)) (f_value pieces_lt10) [] (Fin 0) (Fin 10)"
    by code_simp
  ultimately have 2: "filter_pass demo_host (mk_row ''A'' 0 0) pieces_lt10 = Inr True"
    by simp
  have g: "getValueByPath demo_host (mk_row ''A'' 0 0) (FStr ''constructor'')
             = Inr (Native (Member ObjectProto ''constructor''))"
    by code_simp
  have "filter_pass demo_host (mk_row ''A'' 0 0) constructor_undefined
          = Inr (holds (f_op constructor_undefined) (Native (Member ObjectProto ''constructor''))
                   (f_value constructor_undefined) [] NaN NaN)"
  proof (rule mp[OF op_inst])
    have "getValueByPath demo_host (mk_row ''A'' 0 0) (FStr (f_field constructor_undefined))
            = Inr (Native (Member ObjectProto ''constructor''))"
      using g by (simp add: constructor_undefined_def)
    moreover have "f_op constructor_undefined = OpEq" by (simp add: constructor_undefined_def)
    ultimately show
      "getValueByPath demo_host (mk_row ''A'' 0 0) (FStr (f_field constructor_undefined))
            = Inr (Native (Member ObjectProto ''constructor'')) \<and>
          (f_op constructor_undefined = OpContains \<and>
           (\<exists>s. Native (Member ObjectProto ''constructor'') = Val (JStr s)) \<longrightarrow>
             to_string demo_host (f_value constructor_undefined) = Inr []) \<and>
          (f_op constructor_undefined \<in> {OpGt, OpGte, OpLt, OpLte} \<longrightarrow>
             any_to_number demo_host (Native (Member ObjectProto ''constructor'')) = Inr NaN \<and>
             to_number demo_host (f_value constructor_undefined) = Inr NaN)"
      by simp
  qed
  moreover have "\<not> holds (f_op constructor_undefined) (Native (Member ObjectProto ''constructor''))
                   (f_value constructor_undefined) [] NaN NaN"
    by (simp add: constructor_undefined_def)
  ultimately have 3: "filter_pass demo_host (mk_row ''A'' 0 0) constructor_undefined = Inr False"
    by simp
  have tot: "\<forall>r \<in> set [mk_row ''A'' 0 0, mk_row ''B'' 10 5, mk_row ''C'' 20 7].
               \<forall>f \<in> set [pieces_gt0]. \<exists>b. filter_pass demo_host r f = Inr b"
    using pass_A pass_B pass_C by auto
  have fl: "filter (\<lambda>r. \<forall>f \<in> set [pieces_gt0]. filter_pass demo_host r f = Inr True)
              [mk_row ''A'' 0 0, mk_row ''B'' 10 5, mk_row ''C'' 20 7]
            = [mk_row ''B'' 10 5, mk_row ''C'' 20 7]"
    by (simp add: pass_A pass_B pass_C)
  from mp[OF inst[THEN conjunct2, THEN conjunct2, THEN conjunct2, THEN conjunct1] tot]
  have "applyFilters demo_host [mk_row ''A'' 0 0, mk_row ''B'' 10 5, mk_row ''C'' 20 7]
          (Some [pieces_gt0])
        = Inr (filter (\<lambda>r. \<forall>f \<in> set [pieces_gt0]. filter_pass demo_host r f = Inr True)
                 [mk_row ''A'' 0 0, mk_row ''B'' 10 5, mk_row ''C'' 20 7])" .
  with fl
  have 4: "applyFilters demo_host [mk_row ''A'' 0 0, mk_row ''B'' 10 5, mk_row ''C'' 20 7]
             (Some [pieces_gt0]) = Inr [mk_row ''B'' 10 5, mk_row ''C'' 20 7]"
    by (simp only:)
  from inst[THEN conjunct1]
  have 5: "applyFilters demo_host [mk_row ''A'' 0 0, mk_row ''B'' 10 5, mk_row ''C'' 20 7]
             None = Inr [mk_row ''A'' 0 0, mk_row ''B'' 10 5, mk_row ''C'' 20 7]" .
  have "applyFilters demo_host [mk_row ''A'' 0 0, mk_row ''B'' 10 5, mk_row ''C'' 20 7]
          (Some [pieces_lte10])
        = Inr (filter (\<lambda>r. \<forall>f \<in> set [pieces_lte10].
                 holds (f_op f) (Val (get_prop r ''pieces'')) (f_value f) []
                   (case get_prop r ''pieces'' of JNum n \<Rightarrow> Fin n | _ \<Rightarrow> NaN) (Fin 10))
               [mk_row ''A'' 0 0, mk_row ''B'' 10 5, mk_row ''C'' 20 7])"
  proof (rule mp[OF applyFilters_keeps_passing_rows[THEN conjunct2, THEN conjunct2,
          THEN conjunct2, THEN conjunct2, THEN conjunct2]])
    have "getValueByPath demo_host r (FStr ''pieces'') = Inr (Val (get_prop r ''pieces'')) \<and>
          any_to_number demo_host (Val (get_prop r ''pieces''))
            = Inr (case get_prop r ''pieces'' of JNum n \<Rightarrow> Fin n | _ \<Rightarrow> NaN)"
      if "r \<in> set [mk_row ''A'' 0 0, mk_row ''B'' 10 5, mk_row ''C'' 20 7]" for r
    proof -
      from that consider "r = mk_row ''A'' 0 0" | "r = mk_row ''B'' 10 5" | "r = mk_row ''C'' 20 7"
        by auto
      then show ?thesis
      proof cases
        case 1
        show ?thesis unfolding 1 by code_simp
      next
        case 2
        show ?thesis unfolding 2 by code_simp
      next
        case 3
        show ?thesis unfolding 3 by code_simp
      qed
    qed
    moreover have "to_number demo_host (f_value pieces_lte10) = Inr (Fin 10)" by code_simp
    moreover have "f_field pieces_lte10 = ''pieces''" and "f_op pieces_lte10 \<noteq> OpContains"
      by (simp_all add: pieces_lte10_def)
    ultimately show "\<forall>r \<in> set [mk_row ''A'' 0 0, mk_row ''B'' 10 5, mk_row ''C'' 20 7].
        \<forall>f \<in> set [pieces_lte10].
          getValueByPath demo_host r (FStr (f_field f)) = Inr (Val (get_prop r ''pieces'')) \<and>
          (f_op f = OpContains \<and> (\<exists>s. Val (get_prop r ''pieces'') = Val (JStr s)) \<longrightarrow>
             to_string demo_host (f_value f) = Inr []) \<and>
          (f_op f \<in> {OpGt, OpGte, OpLt, OpLte} \<longrightarrow>
             any_to_number demo_host (Val (get_prop r ''pieces''))
               = Inr (case get_prop r ''pieces'' of JNum n \<Rightarrow> Fin n | _ \<Rightarrow> NaN) \<and>
             to_number demo_host (f_value f) = Inr (Fin 10))"
      by simp
  qed
  moreover have "filter (\<lambda>r. \<forall>f \<in> set [pieces_lte10].
                 holds (f_op f) (Val (get_prop r ''pieces'')) (f_value f) []
                   (case get_prop r ''pieces'' of JNum n \<Rightarrow> Fin n | _ \<Rightarrow> NaN) (Fin 10))
               [mk_row ''A'' 0 0, mk_row ''B'' 10 5, mk_row ''C'' 20 7]
             = [mk_row ''A'' 0 0, mk_row ''B'' 10 5]"
    by (simp add: pieces_lte10_def mk_row_def num_less_eq_def num_less_def)
  ultimately
  have 6: "applyFilters demo_host [mk_row ''A'' 0 0, mk_row ''B'' 10 5, mk_row ''C'' 20 7]
             (Some [pieces_lte10]) = Inr [mk_row ''A'' 0 0, mk_row ''B'' 10 5]"
    by (simp only:)
  have 7: "toLowerCase ''JFK'' = ''jfk''" by code_simp
  from 1 2 g 3 4 5 6 7 filters_by_operator show ?thesis by (simp add: rows_hist)
qed

section \<open>The histogram example\<close>

lemma run_hist: "histogram_of h (Some md_hist) spec_hist = Inr hist5"
  by code_simp

lemma binning_hist: "histogram_binning (Some 2) [0, 10, 20] = Inr hist5"
  by code_simp

text \<open>
  Claim C4 says that the values 0, 10 and 20 with \<^verbatim>\<open>binCount: 2\<close> give 2 buckets of width
  10 with counts 2 and 1. The branch never makes fewer than 5 buckets
  (\<^verbatim>\<open>Math.max(5, ...)\<close>): it gives 5 buckets of width 4.
\<close>

theorem histogram_binCount_2_counterexample:
  "histogram_of demo_host (Some md_hist) spec_hist = Inr hist5 \<and>
   binCount spec_hist = Some 2 \<and>
   hb_bins hist5 \<noteq> 2 \<and> hb_step hist5 \<noteq> 10 \<and> hb_counts hist5 \<noteq> [2, 1]"
  using run_hist[of demo_host] by (simp add: hist5_def spec_hist_def)

text \<open>
  Claim C4, amended. The values 0, 10 and 20 with \<^verbatim>\<open>binCount: 2\<close> give 5 equal-width
  buckets of width 4 over the range from 0 to 20, with counts 1, 0, 1, 0, 1: the value
  20 falls in the last bucket by the index clamp.
\<close>

theorem histogram_binCount_2_gives_five_bins:
  "histogram_binning (Some 2) [0, 10, 20]
     = Inr \<lparr>hb_bins = 5, hb_min = 0, hb_max = 20, hb_step = 4, hb_counts = [1, 0, 1, 0, 1]\<rparr> \<and>
   histogram_of h (Some md_hist) spec_hist
     = Inr \<lparr>hb_bins = 5, hb_min = 0, hb_max = 20, hb_step = 4, hb_counts = [1, 0, 1, 0, 1]\<rparr>"
  using run_hist[of h] binning_hist by (simp add: hist5_def)

section \<open>Properties of the chart data shaper\<close>












text \<open>
  A chart of the shipments by \<^verbatim>\<open>toString\<close>, a name that every row inherits: on every
  host where the string of that method is neither empty nor \<^verbatim>\<open>undefined\<close>, the rows
  fall into one group under that string and there is no retry.
\<close>

lemma toString_key:
  assumes "Native_string h (Member ObjectProto ''toString'') = Inr s"
  shows "row_key h (mk_row awb n w) (FStr ''toString'') = Inr s"
  using assms
  by (simp add: row_key_def getValueByPath_def mk_row_def member_def nullish_def
        proto_names_def object_proto_names_def unwrap_value_def)

lemma weight_value: "row_value h (mk_row awb n w) (FStr ''weight.value'') = Inr (Fin w)"
  by (simp add: row_value_def getValueByPath_def mk_row_def member_def nullish_def
        proto_names_def unwrap_value_def object_proto_names_def)

lemma toString_groups:
  assumes "Native_string h (Member ObjectProto ''toString'') = Inr s" and "s \<noteq> []"
    and "s \<noteq> ''undefined''"
  shows "collect_groups h (Some md_hist) spec_toString_n = Inr ([(s, [0, 5, 7])], 0)"
  using assms
  by (simp add: collect_groups_def spec_toString_n_def base_spec_def rows_hist applyFilters_def
        collect_row_def toString_key weight_value f_or_def)

lemma toString_normalized: "normalizeSpecFields spec_toString = Inr spec_toString_n"
  by code_simp

lemma toString_data:
  "s \<noteq> [] \<Longrightarrow>
   shape_data spec_toString_n [(s, [0, 5, 7])] = [\<lparr>dp_name = s, dp_value = 12\<rparr>]"
  by (simp add: shape_data_def spec_toString_n_def base_spec_def aggregate_values_def)

lemma inherited_category_no_retry:
  assumes "Native_string h (Member ObjectProto ''toString'') = Inr s" and "s \<noteq> []"
    and "s \<noteq> ''undefined''"
  shows "generateChartDataFromSpec h (Some md_hist) spec_toString
           = Inr [\<lparr>dp_name = s, dp_value = 12\<rparr>]"
  by (subst generateChartDataFromSpec.simps)
     (simp add: toString_normalized toString_groups[OF assms] toString_data[OF assms(2)])


lemma inherited_category_demo:
  "generateChartDataFromSpec demo_host (Some md_hist) spec_toString
     = Inr [\<lparr>dp_name = ''function toString() { [native code] }'', dp_value = 12\<rparr>]"
  by code_simp





end
